theory Spec2Isabelle
  imports Complex_Main "HOL-Library.Word" "HOL-Library.List_Lexorder" "HOL-Library.Char_ord"
begin

unbundle bit_operations_syntax

section \<open>Data model\<close>

text \<open>
  The structs of \<^verbatim>\<open>havCSON.hpp\<close>. \<^verbatim>\<open>Error::where\<close> is called \<open>location\<close> here.
  A \<^verbatim>\<open>std::size_t\<close> is a \<open>nat\<close>, an \<^verbatim>\<open>int\<close> an \<open>int\<close>: no count in the parser
  can pass the length of the source text, so no wrap-around is reachable.
\<close>

record LocationEntry =
  line :: nat
  column :: nat

datatype ErrorCode =
    OK
  | UnexpectedChar
  | UnexpectedEnd
  | InvalidNumber
  | InvalidEscape
  | InvalidUtf8
  | UnterminatedString
  | UnterminatedTripleString
  | InvalidIndentChar
  | InconsistentIndent
  | InternalError

record Error =
  code :: ErrorCode
  location :: LocationEntry
  message :: string

definition noError :: Error where
  "noError = \<lparr>code = OK, location = \<lparr>line = 1, column = 1\<rparr>, message = []\<rparr>"

text \<open>
  \<^verbatim>\<open>Value\<close> is a \<^verbatim>\<open>std::variant\<close> of six alternatives. \<^verbatim>\<open>Object\<close> is a
  \<^verbatim>\<open>std::unordered_map\<close>: it is kept as an association list without repeated keys,
  in insertion order (the iteration order of the real container is implementation
  defined).
\<close>

text \<open>
  A \<^verbatim>\<open>double\<close> (IEEE 754 binary64): a finite value is kept as the rational it is equal
  to, with the negative zero and the two infinities beside it. A NaN is not in the
  model: no text that \<^verbatim>\<open>ParseNumber\<close> collects converts to one, and how one prints is
  implementation-defined. The flag of \<open>Infinity\<close> is the sign bit.
\<close>

datatype double = Finite rat | NegZero | Infinity bool

datatype Value =
    VNull
  | VBool bool
  | VNumber double
  | VString string
  | VArray "Value list"
  | VObject "(string \<times> Value) list"

type_synonym Array = "Value list"
type_synonym Object = "(string \<times> Value) list"

text \<open>\<^verbatim>\<open>std::unordered_map::emplace\<close>: inserts only when the key is absent.\<close>

definition emplace :: "string \<Rightarrow> Value \<Rightarrow> Object \<Rightarrow> Object" where
  "emplace k v object =
     (if k \<in> set (map fst object) then object else object @ [(k, v)])"


record LosslessComment =
  indent :: int
  commentText :: string

datatype LosslessValue =
  LosslessValue
    (val: Value)
    (leadingComments: "LosslessComment list")
    (inlineComment: string)
    (arrayItems: "LosslessValue list")
    (objectItems: "(string \<times> LosslessValue) list")
    (trailingComments: "LosslessComment list")

definition emptyLossless :: LosslessValue where
  "emptyLossless = LosslessValue VNull [] [] [] [] []"

section \<open>The cursor\<close>

record Parser =
  mSrc :: string
  mFilename :: string
  mPos :: nat
  mLine :: nat
  mCol :: nat
  mIndentUnit :: int
  mIndentStack :: "int list"
  mError :: Error

definition newParser :: "string \<Rightarrow> Parser" where
  "newParser src =
     \<lparr>mSrc = src, mFilename = [], mPos = 0, mLine = 1, mCol = 1,
      mIndentUnit = 0, mIndentStack = [0], mError = noError\<rparr>"

abbreviation (input) NUL :: char where "NUL \<equiv> CHR 0x00"
abbreviation (input) TAB :: char where "TAB \<equiv> CHR 0x09"
abbreviation (input) LF :: char where "LF \<equiv> CHR 0x0A"
abbreviation (input) CR :: char where "CR \<equiv> CHR 0x0D"
abbreviation (input) SPC :: char where "SPC \<equiv> CHR 0x20"
abbreviation (input) DQUOTE :: char where "DQUOTE \<equiv> CHR 0x22"
abbreviation (input) HASH :: char where "HASH \<equiv> CHR 0x23"
abbreviation (input) SQUOTE :: char where "SQUOTE \<equiv> CHR 0x27"
abbreviation (input) BACKSLASH :: char where "BACKSLASH \<equiv> CHR 0x5C"

definition ord :: "char \<Rightarrow> nat" where
  "ord c = of_char c"

definition Peek :: "'a Parser_scheme \<Rightarrow> char" where
  "Peek s = (if mPos s < length (mSrc s) then mSrc s ! mPos s else NUL)"

definition EndOfFile :: "'a Parser_scheme \<Rightarrow> bool" where
  "EndOfFile s = (mPos s \<ge> length (mSrc s))"

definition Get :: "'a Parser_scheme \<Rightarrow> char \<times> 'a Parser_scheme" where
  "Get s =
     (if mPos s \<ge> length (mSrc s) then (NUL, s)
      else
        let c = mSrc s ! mPos s in
        if c = LF
        then (c, s\<lparr>mPos := mPos s + 1, mLine := mLine s + 1, mCol := 1\<rparr>)
        else (c, s\<lparr>mPos := mPos s + 1, mCol := mCol s + 1\<rparr>))"

definition Match :: "char \<Rightarrow> 'a Parser_scheme \<Rightarrow> bool \<times> 'a Parser_scheme" where
  "Match c s = (if Peek s = c then (True, snd (Get s)) else (False, s))"

definition Location :: "'a Parser_scheme \<Rightarrow> LocationEntry" where
  "Location s = \<lparr>line = mLine s, column = mCol s\<rparr>"

text \<open>
  \<^verbatim>\<open>Fail(code, out, message)\<close>: records the error in \<^verbatim>\<open>mError\<close> and returns the code.
  The \<^verbatim>\<open>out\<close> pointer is \<^verbatim>\<open>nullptr\<close> at every call inside the grammar; the two calls
  of \<^verbatim>\<open>Parser::Parse\<close> that pass the caller's pointer copy \<^verbatim>\<open>mError\<close> there.
\<close>

definition Fail :: "ErrorCode \<Rightarrow> string \<Rightarrow> 'a Parser_scheme \<Rightarrow> ErrorCode \<times> 'a Parser_scheme" where
  "Fail c msg s = (c, s\<lparr>mError := \<lparr>code = c, location = Location s, message = msg\<rparr>\<rparr>)"

lemma Get_src [simp]: "mSrc (snd (Get s)) = mSrc s"
  by (simp add: Get_def Let_def)

lemma Get_pos: "mPos (snd (Get s)) = (if mPos s < length (mSrc s) then mPos s + 1 else mPos s)"
  by (simp add: Get_def Let_def)

lemma Get_fst [simp]: "fst (Get s) = Peek s"
  by (simp add: Get_def Peek_def Let_def)

function SkipInlineSpaces :: "'a Parser_scheme \<Rightarrow> 'a Parser_scheme" where
  "SkipInlineSpaces s =
     (let c = Peek s in
      if c = SPC \<or> c = TAB then SkipInlineSpaces (snd (Get s)) else s)"
  by pat_completeness auto
termination
  by (relation "measure (\<lambda>s. length (mSrc s) - mPos s)")
     (auto simp: Get_pos Peek_def split: if_splits)

function SkipToEOL :: "'a Parser_scheme \<Rightarrow> 'a Parser_scheme" where
  "SkipToEOL s =
     (if \<not> EndOfFile s
      then (case Get s of (c, s1) \<Rightarrow> if c = LF then s1 else SkipToEOL s1)
      else s)"
  by pat_completeness auto
termination
  by (relation "measure (\<lambda>s. length (mSrc s) - mPos s)")
     (auto simp: EndOfFile_def Get_def Let_def split: if_splits)

declare SkipInlineSpaces.simps [simp del] SkipToEOL.simps [simp del]

lemma SkipToEOL_src [simp]: "mSrc (SkipToEOL s) = mSrc s"
  by (induction s rule: SkipToEOL.induct)
     (subst SkipToEOL.simps, auto simp: Get_def Let_def split: prod.splits if_splits)

lemma SkipToEOL_pos:
  "\<not> EndOfFile s \<Longrightarrow> mPos s < mPos (SkipToEOL s)"
  "mPos s \<le> mPos (SkipToEOL s)"
proof -
  have le: "mPos t \<le> mPos (SkipToEOL t)" for t :: "'a Parser_scheme"
  proof (induction t rule: SkipToEOL.induct)
    case (1 t)
    show ?case
    proof (cases "EndOfFile t")
      case True
      then show ?thesis by (subst SkipToEOL.simps) simp
    next
      case False
      obtain c t1 where g: "Get t = (c, t1)" by (cases "Get t")
      have p: "mPos t1 = mPos t + 1"
        using False g Get_pos [of t] by (simp add: EndOfFile_def)
      show ?thesis
      proof (cases "c = LF")
        case True
        then show ?thesis using False g p by (subst SkipToEOL.simps) simp
      next
        case F2: False
        have "mPos t1 \<le> mPos (SkipToEOL t1)"
          using "1.IH" [OF False g [symmetric] F2] .
        then show ?thesis using False g p F2 by (subst SkipToEOL.simps) simp
      qed
    qed
  qed
  show "mPos s \<le> mPos (SkipToEOL s)" by (rule le)
  show "mPos s < mPos (SkipToEOL s)" if ne: "\<not> EndOfFile s"
  proof -
    obtain c s1 where g: "Get s = (c, s1)" by (cases "Get s")
    have p: "mPos s1 = mPos s + 1"
      using ne g Get_pos [of s] by (simp add: EndOfFile_def)
    have "mPos s1 \<le> mPos (SkipToEOL s1)" by (rule le)
    then show ?thesis using ne g p by (subst SkipToEOL.simps) simp
  qed
qed

function SkipWhitespaceAndComments :: "'a Parser_scheme \<Rightarrow> 'a Parser_scheme" where
  "SkipWhitespaceAndComments s =
     (if \<not> EndOfFile s then
        (let c = Peek s in
         if c = SPC \<or> c = TAB then SkipWhitespaceAndComments (snd (Get s))
         else if c = HASH then SkipWhitespaceAndComments (SkipToEOL s)
         else if c = CR then
           (let s1 = snd (Get s);
                s2 = (if Peek s1 = LF then snd (Get s1) else s1)
            in SkipWhitespaceAndComments s2)
         else if c = LF then SkipWhitespaceAndComments (snd (Get s))
         else s)
      else s)"
  by pat_completeness auto
termination
proof (relation "measure (\<lambda>s. length (mSrc s) - mPos s)", goal_cases)
  case 1
  show ?case by simp
next
  case (2 s c)
  then show ?case by (auto simp: Get_pos EndOfFile_def)
next
  case (3 s c)
  then show ?case
    using SkipToEOL_pos(1) [of s] by (auto simp: EndOfFile_def)
next
  case (4 s c s1 s2)
  then show ?case by (auto simp: Get_pos EndOfFile_def)
next
  case (5 s c)
  then show ?case by (auto simp: Get_pos EndOfFile_def)
qed

declare SkipWhitespaceAndComments.simps [simp del]

section \<open>The indent stack\<close>

text \<open>The first loop of \<^verbatim>\<open>ReadLineIndent\<close>: leading spaces are counted, a tab fails.\<close>

function ReadLineIndent_spaces ::
  "int \<Rightarrow> 'a Parser_scheme \<Rightarrow> ErrorCode \<times> int \<times> 'a Parser_scheme" where
  "ReadLineIndent_spaces indentCols s =
     (if \<not> EndOfFile s then
        (let c = Peek s in
         if c = SPC then ReadLineIndent_spaces (indentCols + 1) (snd (Get s))
         else if c = TAB then
           (case Fail InvalidIndentChar ''Tabs are not allowed in indentation'' s of
              (ec, s1) \<Rightarrow> (ec, indentCols, s1))
         else (OK, indentCols, s))
      else (OK, indentCols, s))"
  by pat_completeness auto
termination
  by (relation "measure (\<lambda>(i, s). length (mSrc s) - mPos s)")
     (auto simp: Get_pos EndOfFile_def)

declare ReadLineIndent_spaces.simps [simp del]

text \<open>
  \<^verbatim>\<open>ReadLineIndent(indentCols, hasContent)\<close> returns the error code, the two
  out-parameters and the parser.
\<close>

definition ReadLineIndent ::
  "'a Parser_scheme \<Rightarrow> ErrorCode \<times> int \<times> bool \<times> 'a Parser_scheme" where
  "ReadLineIndent s =
     (case ReadLineIndent_spaces 0 s of (ec, indentCols, s1) \<Rightarrow>
      if ec \<noteq> OK then (ec, indentCols, False, s1)
      else
        let c = Peek s1 in
        if c = HASH \<or> c = CR \<or> c = LF \<or> c = NUL then
          (let s2 = (if c = HASH then SkipToEOL s1 else s1);
               c2 = (if c = HASH then Peek s2 else c);
               s3 = (if c2 = CR then
                       (let s4 = snd (Get s2) in
                        if Peek s4 = LF then snd (Get s4) else s4)
                     else if c2 = LF then snd (Get s2)
                     else s2)
           in (OK, indentCols, False, s3))
        else if indentCols > 0 then
          (if mIndentUnit s1 = 0
           then (OK, indentCols, True, s1\<lparr>mIndentUnit := indentCols\<rparr>)
           else if indentCols mod mIndentUnit s1 \<noteq> 0 then
             (case Fail InconsistentIndent
                     ''Indentation is not a multiple of base indent width'' s1 of
                (ec2, s2) \<Rightarrow> (ec2, indentCols, True, s2))
           else (OK, indentCols, True, s1))
        else (OK, indentCols, True, s1))"

text \<open>The \<^verbatim>\<open>while\<close> of \<^verbatim>\<open>ApplyIndentLevel\<close> that pops the levels above the new indent.\<close>

function popAbove :: "int \<Rightarrow> int list \<Rightarrow> int list" where
  "popAbove indentCols st =
     (if st \<noteq> [] \<and> indentCols < last st then popAbove indentCols (butlast st) else st)"
  by pat_completeness auto
termination
  by (relation "measure (\<lambda>(i, st). length st)") auto

declare popAbove.simps [simp del]

definition ApplyIndentLevel :: "int \<Rightarrow> 'a Parser_scheme \<Rightarrow> ErrorCode \<times> 'a Parser_scheme" where
  "ApplyIndentLevel indentCols s =
     (let top = last (mIndentStack s) in
      if indentCols > top then (OK, s\<lparr>mIndentStack := mIndentStack s @ [indentCols]\<rparr>)
      else if indentCols < top then
        (let s1 = s\<lparr>mIndentStack := popAbove indentCols (mIndentStack s)\<rparr> in
         if mIndentStack s1 = [] \<or> last (mIndentStack s1) \<noteq> indentCols
         then Fail InconsistentIndent ''Dedent does not match any previous indent level'' s1
         else (OK, s1))
      else (OK, s))"

text \<open>
  \<^verbatim>\<open>NextContentLine(hasLine)\<close>. Its loop does not advance when a line begins with a
  NUL byte (\<^verbatim>\<open>ReadLineIndent\<close> reports a line without content and consumes nothing),
  so it is a partial function: \<open>None\<close> is the loop that never returns.
\<close>

partial_function (option) NextContentLine ::
  "'a Parser_scheme \<Rightarrow> (ErrorCode \<times> bool \<times> 'a Parser_scheme) option" where
  "NextContentLine s =
     (if \<not> EndOfFile s then
        (if mCol s \<noteq> 1 then
           (let s1 = SkipToEOL s in
            if EndOfFile s1 then Some (OK, False, s1) else NextContentLine s1)
         else
           (case ReadLineIndent s of (ec, indentCols, hasContent, s1) \<Rightarrow>
            if ec \<noteq> OK then Some (ec, False, s1)
            else if \<not> hasContent then NextContentLine s1
            else
              (case ApplyIndentLevel indentCols s1 of (ec2, s2) \<Rightarrow>
               if ec2 \<noteq> OK then Some (ec2, False, s2) else Some (OK, True, s2))))
      else Some (OK, False, s))"

declare NextContentLine.simps [code]

section \<open>UTF-8: escapes and validation\<close>

definition HexValue :: "char \<Rightarrow> int" where
  "HexValue c =
     (if ord CHR ''0'' \<le> ord c \<and> ord c \<le> ord CHR ''9'' then int (ord c) - int (ord CHR ''0'')
      else if ord CHR ''a'' \<le> ord c \<and> ord c \<le> ord CHR ''f''
        then 10 + (int (ord c) - int (ord CHR ''a''))
      else if ord CHR ''A'' \<le> ord c \<and> ord c \<le> ord CHR ''F''
        then 10 + (int (ord c) - int (ord CHR ''A''))
      else - 1)"

text \<open>\<^verbatim>\<open>static_cast<char>\<close> of a 32-bit value keeps its low eight bits.\<close>

definition to_char :: "32 word \<Rightarrow> char" where
  "to_char w = char_of (unat w)"

definition AppendUTF8 :: "string \<Rightarrow> 32 word \<Rightarrow> string" where
  "AppendUTF8 out codePoint =
     (if codePoint \<le> 0x7F then out @ [to_char codePoint]
      else if codePoint \<le> 0x7FF then
        out @ [to_char (0xC0 OR drop_bit 6 codePoint),
               to_char (0x80 OR (codePoint AND 0x3F))]
      else if codePoint \<le> 0xFFFF then
        out @ [to_char (0xE0 OR drop_bit 12 codePoint),
               to_char (0x80 OR (drop_bit 6 codePoint AND 0x3F)),
               to_char (0x80 OR (codePoint AND 0x3F))]
      else
        out @ [to_char (0xF0 OR drop_bit 18 codePoint),
               to_char (0x80 OR (drop_bit 12 codePoint AND 0x3F)),
               to_char (0x80 OR (drop_bit 6 codePoint AND 0x3F)),
               to_char (0x80 OR (codePoint AND 0x3F))])"

definition byteAt :: "string \<Rightarrow> nat \<Rightarrow> 32 word" where
  "byteAt sv i = of_char (sv ! i)"

text \<open>The \<^verbatim>\<open>bumpCol\<close> lambda of \<^verbatim>\<open>ValidateUTF8\<close>, on the pair \<open>(badLine, badCol)\<close>.\<close>

definition bumpCol :: "32 word \<Rightarrow> nat \<times> nat \<Rightarrow> nat \<times> nat" where
  "bumpCol codePoint lc =
     (if codePoint = 0x0A then (fst lc + 1, 1) else (fst lc, snd lc + 1))"

text \<open>The inner \<^verbatim>\<open>for\<close> over the continuation bytes; \<open>None\<close> is \<^verbatim>\<open>return false\<close>.\<close>

fun ValidateUTF8_cont :: "string \<Rightarrow> nat \<Rightarrow> nat list \<Rightarrow> 32 word \<Rightarrow> 32 word option" where
  "ValidateUTF8_cont sv index [] codePoint = Some codePoint"
| "ValidateUTF8_cont sv index (k # ks) codePoint =
     (let cc = byteAt sv (index + k) in
      if cc AND 0xC0 \<noteq> 0x80 then None
      else ValidateUTF8_cont sv index ks (push_bit 6 codePoint OR (cc AND 0x3F)))"

text \<open>
  The lead byte gives the length of the sequence and the first bits of the code point;
  \<open>None\<close> is \<^verbatim>\<open>return false\<close>.
\<close>

definition leadByte :: "32 word \<Rightarrow> (nat \<times> 32 word) option" where
  "leadByte c =
     (if c AND 0xE0 = 0xC0 then Some (2, c AND 0x1F)
      else if c AND 0xF0 = 0xE0 then Some (3, c AND 0x0F)
      else if c AND 0xF8 = 0xF0 then Some (4, c AND 0x07)
      else None)"

lemma leadByte_pos: "leadByte c = Some (len, cp) \<Longrightarrow> 0 < len"
  by (auto simp: leadByte_def split: if_splits)

text \<open>The three bytes \<^verbatim>\<open>EF BB BF\<close> at an index.\<close>

definition bomAt :: "string \<Rightarrow> nat \<Rightarrow> bool" where
  "bomAt sv i = (byteAt sv i = 0xEF \<and> byteAt sv (i + 1) = 0xBB \<and> byteAt sv (i + 2) = 0xBF)"

text \<open>
  One multi-byte sequence at \<open>index\<close>: its length and code point, or \<open>None\<close> where
  the source has \<^verbatim>\<open>badIndex = index; return false;\<close>.
\<close>

definition decodeAt :: "string \<Rightarrow> nat \<Rightarrow> (nat \<times> 32 word) option" where
  "decodeAt sv index =
     (case leadByte (byteAt sv index) of
        None \<Rightarrow> None
      | Some (len, cp0) \<Rightarrow>
          if index + len > length sv then None
          else
            (case ValidateUTF8_cont sv index [1..<len] cp0 of
               None \<Rightarrow> None
             | Some codePoint \<Rightarrow>
                 if (len = 2 \<and> codePoint < 0x80) \<or> (len = 3 \<and> codePoint < 0x800) \<or>
                    (len = 4 \<and> (codePoint < 0x10000 \<or> codePoint > 0x10FFFF)) \<or>
                    (codePoint \<ge> 0xD800 \<and> codePoint \<le> 0xDFFF)
                 then None
                 else Some (len, codePoint)))"

lemma decodeAt_pos: "decodeAt sv index = Some (len, cp) \<Longrightarrow> 0 < len"
  unfolding decodeAt_def
  by (cases "leadByte (byteAt sv index)")
     (auto dest: leadByte_pos split: if_splits option.splits)

definition isAscii :: "32 word \<Rightarrow> bool" where
  "isAscii c = (c \<le> 0x7F)"

text \<open>
  \<^verbatim>\<open>ValidateUTF8\<close> returns its \<^verbatim>\<open>bool\<close> and the three out-parameters
  \<open>(badIndex, badLine, badCol)\<close>.
\<close>

function ValidateUTF8_loop ::
  "string \<Rightarrow> bool \<Rightarrow> nat \<Rightarrow> nat \<Rightarrow> nat \<times> nat \<Rightarrow> bool \<times> nat \<times> nat \<times> nat" where
  "ValidateUTF8_loop sv allowLeadingBOM index badIndex lc =
     (if index < length sv then
        (if index = 0 \<and> allowLeadingBOM \<and> length sv \<ge> 3 \<and> bomAt sv 0
         then ValidateUTF8_loop sv allowLeadingBOM (index + 3) badIndex lc
         else if index > 0 \<and> index + 2 < length sv \<and> bomAt sv index
         then (False, index, lc)
         else if isAscii (byteAt sv index)
         then ValidateUTF8_loop sv allowLeadingBOM (index + 1) badIndex
                (bumpCol (byteAt sv index) lc)
         else
           (case decodeAt sv index of
              None \<Rightarrow> (False, index, lc)
            | Some (len, codePoint) \<Rightarrow>
                ValidateUTF8_loop sv allowLeadingBOM (index + len) badIndex
                  (bumpCol codePoint lc)))
      else (True, badIndex, lc))"
  by pat_completeness auto
termination
  by (relation "measure (\<lambda>(sv, b, index, bi, lc). length sv - index)")
     (auto dest: decodeAt_pos)

declare ValidateUTF8_loop.simps [simp del]

definition ValidateUTF8 :: "string \<Rightarrow> bool \<Rightarrow> nat \<Rightarrow> bool \<times> nat \<times> nat \<times> nat" where
  "ValidateUTF8 stringView allowLeadingBOM badIndex =
     ValidateUTF8_loop stringView allowLeadingBOM 0 badIndex (1, 1)"

section \<open>Scalars\<close>

definition IsIdentifierStart :: "char \<Rightarrow> bool" where
  "IsIdentifierStart c =
     ((ord CHR ''A'' \<le> ord c \<and> ord c \<le> ord CHR ''Z'') \<or>
      (ord CHR ''a'' \<le> ord c \<and> ord c \<le> ord CHR ''z'') \<or> c = CHR ''_'')"

definition IsIdentifierChar :: "char \<Rightarrow> bool" where
  "IsIdentifierChar c =
     (IsIdentifierStart c \<or> (ord CHR ''0'' \<le> ord c \<and> ord c \<le> ord CHR ''9'') \<or>
      c = CHR ''-'' \<or> c = CHR ''_'')"

definition IsNumberStart :: "char \<Rightarrow> bool" where
  "IsNumberStart c =
     ((ord CHR ''0'' \<le> ord c \<and> ord c \<le> ord CHR ''9'') \<or> c = CHR ''-'' \<or> c = CHR ''+'')"

text \<open>The loop \<^verbatim>\<open>while (IsIdentifierChar(Peek())) ident.push_back(Get());\<close>.\<close>

function ReadIdentifier :: "string \<Rightarrow> 'a Parser_scheme \<Rightarrow> string \<times> 'a Parser_scheme" where
  "ReadIdentifier ident s =
     (if IsIdentifierChar (Peek s)
      then (case Get s of (c, s1) \<Rightarrow> ReadIdentifier (ident @ [c]) s1)
      else (ident, s))"
  by pat_completeness auto
termination
  by (relation "measure (\<lambda>(i, s). length (mSrc s) - mPos s)")
     (auto simp: Get_def Let_def Peek_def IsIdentifierChar_def IsIdentifierStart_def ord_def
           split: if_splits)

declare ReadIdentifier.simps [simp del]

text \<open>
  The four hex digits of a \<^verbatim>\<open>\uXXXX\<close> escape: the \<^verbatim>\<open>for\<close> loop that both string
  parsers run, once for the code unit and once more for a low surrogate.
\<close>

fun ReadHex4 :: "nat \<Rightarrow> 32 word \<Rightarrow> 'a Parser_scheme \<Rightarrow> ErrorCode \<times> 32 word \<times> 'a Parser_scheme" where
  "ReadHex4 0 codePoint s = (OK, codePoint, s)"
| "ReadHex4 (Suc n) codePoint s =
     (if EndOfFile s then
        (case Fail InvalidEscape ''Incomplete unicode escape'' s of
           (ec, s1) \<Rightarrow> (ec, codePoint, s1))
      else
        (case Get s of (c, s1) \<Rightarrow>
           let hv = HexValue c in
           if hv < 0 then
             (case Fail InvalidEscape ''Invalid hex in unicode escape'' s1 of
                (ec, s2) \<Rightarrow> (ec, codePoint, s2))
           else ReadHex4 n (push_bit 4 codePoint OR word_of_int hv) s1))"

text \<open>
  The body of \<^verbatim>\<open>case 'u'\<close>, the same text in \<^verbatim>\<open>ParseStringDouble\<close> and
  \<^verbatim>\<open>ParseStringSingle\<close>: the parser stands behind the \<^verbatim>\<open>u\<close>.
\<close>

definition ReadUnicodeEscape :: "'a Parser_scheme \<Rightarrow> ErrorCode \<times> 32 word \<times> 'a Parser_scheme" where
  "ReadUnicodeEscape s =
     (case ReadHex4 4 0 s of (ec, codePoint, s1) \<Rightarrow>
      if ec \<noteq> OK then (ec, codePoint, s1)
      else if codePoint \<ge> 0xD800 \<and> codePoint \<le> 0xDBFF then
        (if \<not> (Peek s1 = BACKSLASH \<and> mPos s1 + 1 < length (mSrc s1) \<and>
                mSrc s1 ! (mPos s1 + 1) = CHR ''u'')
         then (case Fail InvalidEscape ''Unpaired surrogate'' s1 of
                 (ec1, s2) \<Rightarrow> (ec1, codePoint, s2))
         else
           (case ReadHex4 4 0 (snd (Get (snd (Get s1)))) of (ec2, lowSurrogate, s3) \<Rightarrow>
            if ec2 \<noteq> OK then (ec2, codePoint, s3)
            else if lowSurrogate < 0xDC00 \<or> lowSurrogate > 0xDFFF then
              (case Fail InvalidEscape ''Invalid low surrogate'' s3 of
                 (ec3, s4) \<Rightarrow> (ec3, codePoint, s4))
            else
              (OK, 0x10000 + (push_bit 10 (codePoint - 0xD800) OR (lowSurrogate - 0xDC00)), s3)))
      else if codePoint \<ge> 0xDC00 \<and> codePoint \<le> 0xDFFF then
        (case Fail InvalidEscape ''Unpaired surrogate'' s1 of
           (ec1, s2) \<Rightarrow> (ec1, codePoint, s2))
      else (OK, codePoint, s1))"

lemma Fail_src [simp]: "mSrc (snd (Fail c msg s)) = mSrc s"
  by (simp add: Fail_def)

lemma Fail_pos [simp]: "mPos (snd (Fail c msg s)) = mPos s"
  by (simp add: Fail_def)

lemma ReadHex4_src: "ReadHex4 n cp s = (ec, cp', s') \<Longrightarrow> mSrc s' = mSrc s"
  by (induction n arbitrary: cp s)
     (auto simp: Fail_def Get_def Let_def split: if_splits prod.splits)

lemma ReadHex4_pos: "ReadHex4 n cp s = (ec, cp', s') \<Longrightarrow> mPos s \<le> mPos s'"
proof (induction n arbitrary: cp s)
  case 0
  then show ?case by simp
next
  case (Suc n)
  show ?case
  proof (cases "EndOfFile s")
    case True
    then show ?thesis using Suc.prems by (auto simp: Fail_def)
  next
    case False
    obtain c s1 where g: "Get s = (c, s1)" by (cases "Get s")
    have p: "mPos s \<le> mPos s1" using g Get_pos [of s] by (auto split: if_splits)
    show ?thesis
    proof (cases "HexValue c < 0")
      case True
      then show ?thesis using Suc.prems False g p by (auto simp: Fail_def Let_def)
    next
      case F2: False
      have "ReadHex4 n (push_bit 4 cp OR word_of_int (HexValue c)) s1 = (ec, cp', s')"
        using Suc.prems False g F2 by (simp add: Let_def)
      from Suc.IH [OF this] p show ?thesis by simp
    qed
  qed
qed

lemma ReadUnicodeEscape_src: "ReadUnicodeEscape s = (ec, cp, s') \<Longrightarrow> mSrc s' = mSrc s"
  unfolding ReadUnicodeEscape_def
  by (auto simp: Fail_def split: prod.splits if_splits dest!: ReadHex4_src)

lemma ReadUnicodeEscape_pos: "ReadUnicodeEscape s = (ec, cp, s') \<Longrightarrow> mPos s \<le> mPos s'"
proof -
  assume a: "ReadUnicodeEscape s = (ec, cp, s')"
  have g2: "mPos t \<le> mPos (snd (Get (snd (Get t))))" for t :: "'a Parser_scheme"
    by (simp add: Get_pos)
  show ?thesis
    using a unfolding ReadUnicodeEscape_def
    by (auto simp: Fail_def split: prod.splits if_splits
             dest!: ReadHex4_pos intro: order_trans [OF _ order_trans [OF g2]])
qed

text \<open>
  One turn of the \<^verbatim>\<open>while (!EndOfFile())\<close> loop of \<^verbatim>\<open>ParseStringDouble\<close>
  (\<open>q\<close> the double quote) and of \<^verbatim>\<open>ParseStringSingle\<close> (\<open>q\<close> the single quote),
  whose bodies differ in the quote character only. \<open>Inl\<close> is a \<^verbatim>\<open>return\<close> with the
  error code, the out-parameter and the parser; \<open>Inr\<close> is the next turn with the
  extended \<^verbatim>\<open>result\<close>.
\<close>

definition stringStep ::
  "char \<Rightarrow> string \<Rightarrow> Value \<Rightarrow> 'a Parser_scheme \<Rightarrow>
   (ErrorCode \<times> Value \<times> 'a Parser_scheme) + (string \<times> 'a Parser_scheme)" where
  "stringStep q result out s =
     (case Get s of (c, s1) \<Rightarrow>
      if c = q then Inl (OK, VString result, s1)
      else if c = BACKSLASH then
        (if EndOfFile s1 then
           (case Fail UnterminatedString [] s1 of (ec, s2) \<Rightarrow> Inl (ec, out, s2))
         else
           (case Get s1 of (e, s2) \<Rightarrow>
            if e = q then Inr (result @ [q], s2)
            else if e = BACKSLASH then Inr (result @ [BACKSLASH], s2)
            else if e = CHR ''n'' then Inr (result @ [LF], s2)
            else if e = CHR ''r'' then Inr (result @ [CR], s2)
            else if e = CHR ''t'' then Inr (result @ [TAB], s2)
            else if e = CHR ''u'' then
              (case ReadUnicodeEscape s2 of (ec, codePoint, s3) \<Rightarrow>
               if ec \<noteq> OK then Inl (ec, out, s3)
               else Inr (AppendUTF8 result codePoint, s3))
            else
              (case Fail InvalidEscape ''Invalid escape in string'' s2 of
                 (ec, s3) \<Rightarrow> Inl (ec, out, s3))))
      else if c = LF \<or> c = CR then
        (case Fail UnterminatedString ''Newline in string literal'' s1 of
           (ec, s2) \<Rightarrow> Inl (ec, out, s2))
      else Inr (result @ [c], s1))"

lemma stringStep_Inr:
  assumes "\<not> EndOfFile s" and "stringStep q result out s = Inr (result', s')"
  shows "mSrc s' = mSrc s \<and> mPos s < mPos s'"
proof -
  obtain c s1 where g: "Get s = (c, s1)" by (cases "Get s")
  have s1: "mSrc s1 = mSrc s" "mPos s1 = mPos s + 1"
    using g assms(1) Get_src [of s] Get_pos [of s] by (auto simp: EndOfFile_def)
  obtain e s2 where g2: "Get s1 = (e, s2)" by (cases "Get s1")
  have s2: "mSrc s2 = mSrc s" "mPos s1 \<le> mPos s2"
    using g2 s1 Get_src [of s1] Get_pos [of s1] by (auto split: if_splits)
  obtain ec cp s3 where u: "ReadUnicodeEscape s2 = (ec, cp, s3)"
    by (cases "ReadUnicodeEscape s2")
  have s3: "mSrc s3 = mSrc s" "mPos s2 \<le> mPos s3"
    using ReadUnicodeEscape_src [OF u] ReadUnicodeEscape_pos [OF u] s2 by auto
  show ?thesis
    using assms(2) g g2 u s1 s2 s3 unfolding stringStep_def
    by (auto simp: Fail_def split: if_splits)
qed

function ParseStringLoop ::
  "char \<Rightarrow> string \<Rightarrow> Value \<Rightarrow> 'a Parser_scheme \<Rightarrow> ErrorCode \<times> Value \<times> 'a Parser_scheme" where
  "ParseStringLoop q result out s =
     (if \<not> EndOfFile s then
        (case stringStep q result out s of
           Inl r \<Rightarrow> r
         | Inr (result', s') \<Rightarrow> ParseStringLoop q result' out s')
      else
        (case Fail UnterminatedString ''Unterminated string literal'' s of
           (ec, s1) \<Rightarrow> (ec, out, s1)))"
  by pat_completeness auto
termination
proof (relation "measure (\<lambda>(q, r, out, s). length (mSrc s) - mPos s)", goal_cases)
  case 1
  show ?case by simp
next
  case (2 q result out s x2 result' s')
  then have "mSrc s' = mSrc s \<and> mPos s < mPos s'"
    using stringStep_Inr [of s q result out result' s'] by simp
  moreover have "mPos s < length (mSrc s)"
    using 2(1) by (simp add: EndOfFile_def)
  ultimately show ?case by (simp add: diff_less_mono2)
qed

declare ParseStringLoop.simps [simp del]

definition ParseStringDouble :: "Value \<Rightarrow> 'a Parser_scheme \<Rightarrow> ErrorCode \<times> Value \<times> 'a Parser_scheme" where
  "ParseStringDouble out s =
     (case Match DQUOTE s of (m, s1) \<Rightarrow>
      if \<not> m then (case Fail InternalError [] s1 of (ec, s2) \<Rightarrow> (ec, out, s2))
      else ParseStringLoop DQUOTE [] out s1)"

definition ParseStringSingle :: "Value \<Rightarrow> 'a Parser_scheme \<Rightarrow> ErrorCode \<times> Value \<times> 'a Parser_scheme" where
  "ParseStringSingle out s =
     (case Match SQUOTE s of (m, s1) \<Rightarrow>
      if \<not> m then (case Fail InternalError [] s1 of (ec, s2) \<Rightarrow> (ec, out, s2))
      else ParseStringLoop SQUOTE [] out s1)"

definition tripleQuoteAhead :: "'a Parser_scheme \<Rightarrow> bool" where
  "tripleQuoteAhead s =
     (Peek s = DQUOTE \<and> mPos s + 2 < length (mSrc s) \<and>
      mSrc s ! (mPos s + 1) = DQUOTE \<and> mSrc s ! (mPos s + 2) = DQUOTE)"

function ParseTripleLoop ::
  "string \<Rightarrow> Value \<Rightarrow> 'a Parser_scheme \<Rightarrow> ErrorCode \<times> Value \<times> 'a Parser_scheme" where
  "ParseTripleLoop result out s =
     (if \<not> EndOfFile s then
        (if tripleQuoteAhead s
         then (OK, VString result, snd (Get (snd (Get (snd (Get s))))))
         else (case Get s of (c, s1) \<Rightarrow> ParseTripleLoop (result @ [c]) out s1))
      else
        (case Fail UnterminatedTripleString ''Unterminated triple string literal'' s of
           (ec, s1) \<Rightarrow> (ec, out, s1)))"
  by pat_completeness auto
termination
  by (relation "measure (\<lambda>(r, out, s). length (mSrc s) - mPos s)")
     (auto simp: EndOfFile_def Get_def Let_def split: if_splits)

declare ParseTripleLoop.simps [simp del]

definition ParseTripleString :: "Value \<Rightarrow> 'a Parser_scheme \<Rightarrow> ErrorCode \<times> Value \<times> 'a Parser_scheme" where
  "ParseTripleString out s =
     (case Match DQUOTE s of (m1, s1) \<Rightarrow>
      if \<not> m1 then (case Fail InternalError [] s1 of (ec, s') \<Rightarrow> (ec, out, s'))
      else
        (case Match DQUOTE s1 of (m2, s2) \<Rightarrow>
         if \<not> m2 then (case Fail InternalError [] s2 of (ec, s') \<Rightarrow> (ec, out, s'))
         else
           (case Match DQUOTE s2 of (m3, s3) \<Rightarrow>
            if \<not> m3 then (case Fail InternalError [] s3 of (ec, s') \<Rightarrow> (ec, out, s'))
            else ParseTripleLoop [] out s3)))"

definition ParseStringOrTriple :: "Value \<Rightarrow> 'a Parser_scheme \<Rightarrow> ErrorCode \<times> Value \<times> 'a Parser_scheme" where
  "ParseStringOrTriple out s =
     (if Peek s \<noteq> DQUOTE then (case Fail InternalError [] s of (ec, s1) \<Rightarrow> (ec, out, s1))
      else if mPos s + 2 < length (mSrc s) \<and> mSrc s ! mPos s = DQUOTE \<and>
              mSrc s ! (mPos s + 1) = DQUOTE \<and> mSrc s ! (mPos s + 2) = DQUOTE
      then ParseTripleString out s
      else ParseStringDouble out s)"

subsection \<open>Numbers\<close>

definition isDigit :: "char \<Rightarrow> bool" where
  "isDigit c = (ord CHR ''0'' \<le> ord c \<and> ord c \<le> ord CHR ''9'')"

definition digitsValue :: "string \<Rightarrow> int" where
  "digitsValue ds = foldl (\<lambda>a c. 10 * a + (of_char c - 48)) 0 ds"

text \<open>An optional sign in front of a text: whether it is a minus, and the rest.\<close>

definition readSign :: "string \<Rightarrow> bool \<times> string" where
  "readSign t =
     (case t of
        [] \<Rightarrow> (False, [])
      | c # cs \<Rightarrow> if c = CHR ''-'' then (True, cs) else if c = CHR ''+'' then (False, cs)
                   else (False, t))"

text \<open>
  Powers with an integer exponent, by squaring, and \<open>b\<close> to the power \<open>k\<close> as a
  rational for an exponent of either sign.
\<close>

function intPower :: "int \<Rightarrow> int \<Rightarrow> int" where
  "intPower b k =
     (if k \<le> 0 then 1
      else (let h = intPower b (k div 2) in if even k then h * h else b * h * h))"
  by pat_completeness auto
termination
  by (relation "measure (\<lambda>(b, k). nat k)") auto

declare intPower.simps [simp del]

definition scale :: "int \<Rightarrow> int \<Rightarrow> rat" where
  "scale b k = (if 0 \<le> k then of_int (intPower b k) else 1 / of_int (intPower b (- k)))"

text \<open>
  The count of binary digits of a positive integer, and the integer part of the binary
  logarithm of a positive rational.
\<close>

function bitLength :: "int \<Rightarrow> int" where
  "bitLength n = (if n \<le> 0 then 0 else 1 + bitLength (n div 2))"
  by pat_completeness auto
termination
  by (relation "measure nat") auto

declare bitLength.simps [simp del]

definition floorLog2 :: "rat \<Rightarrow> int" where
  "floorLog2 a =
     (case quotient_of a of (n, d) \<Rightarrow>
      (let e0 = bitLength n - bitLength d in if scale 2 e0 \<le> a then e0 else e0 - 1))"

text \<open>Rounding to the nearest integer, a tie to the even one.\<close>

definition roundHalfEven :: "rat \<Rightarrow> int" where
  "roundHalfEven x =
     (let f = \<lfloor>x\<rfloor>; d = x - of_int f in
      if d < 1 / 2 then f
      else if 1 / 2 < d then f + 1
      else if even f then f else f + 1)"

text \<open>
  Modelled from IEEE 754: the \<^verbatim>\<open>double\<close> nearest to the magnitude \<open>a\<close> under the sign
  \<open>neg\<close>, a tie to the even significand. The significand has 53 binary digits, fewer
  below 2 to the power -1022, where the spacing stays 2 to the power -1074; a result of
  2 to the power 1024 or more is an infinity, a result of zero keeps the sign.
\<close>

definition nearestDouble :: "bool \<Rightarrow> rat \<Rightarrow> double" where
  "nearestDouble neg a =
     (if a \<le> 0 then (if neg then NegZero else Finite 0)
      else
        let e = max (floorLog2 a) (- 1022);
            q = scale 2 (e - 52);
            m = roundHalfEven (a / q);
            v = of_int m * q
        in
        if scale 2 1024 \<le> v then Infinity neg
        else if m = 0 then (if neg then NegZero else Finite 0)
        else Finite (if neg then - v else v))"

text \<open>
  Modelled from the C standard: \<^verbatim>\<open>std::strtod\<close> is a library function, not code of
  this repository. The model covers the decimal form, the only one the characters
  that \<^verbatim>\<open>ParseNumber\<close> collects (digits, sign, point, \<^verbatim>\<open>e\<close>, \<^verbatim>\<open>E\<close>) can spell: an
  optional sign, digits with an optional point and at least one digit, and an
  exponent that counts only when a digit follows it. The result is the \<^verbatim>\<open>double\<close>
  nearest to the decimal value (the rounding of the implementations in use, in the
  default rounding mode) and the number of characters converted (the offset of
  \<^verbatim>\<open>endPtr\<close>), \<open>0\<close> when nothing converts.
\<close>

definition strtod :: "string \<Rightarrow> double \<times> nat" where
  "strtod t =
     (case readSign t of (neg, r0) \<Rightarrow>
      let ip = takeWhile isDigit r0;
          r1 = drop (length ip) r0;
          hasPoint = (r1 \<noteq> [] \<and> hd r1 = CHR ''.'');
          fp = (if hasPoint then takeWhile isDigit (tl r1) else []);
          r2 = (if hasPoint then drop (length fp) (tl r1) else r1)
      in
      if ip = [] \<and> fp = [] then (Finite 0, 0)
      else
        let hasE = (r2 \<noteq> [] \<and> (hd r2 = CHR ''e'' \<or> hd r2 = CHR ''E''));
            es = (if hasE then readSign (tl r2) else (False, []));
            ed = takeWhile isDigit (snd es);
            expLen = (if hasE \<and> ed \<noteq> [] then length r2 - length (snd es) + length ed else 0);
            e10 = (if fst es then - digitsValue ed else digitsValue ed) - int (length fp)
        in (nearestDouble neg (of_int (digitsValue (ip @ fp)) * scale 10 e10),
            (length t - length r0) + length ip + (if hasPoint then 1 + length fp else 0) + expLen))"

function ParseNumber_loop :: "bool \<Rightarrow> bool \<Rightarrow> 'a Parser_scheme \<Rightarrow> 'a Parser_scheme" where
  "ParseNumber_loop hasDot hasExp s =
     (if \<not> EndOfFile s then
        (let c = Peek s in
         if isDigit c then ParseNumber_loop hasDot hasExp (snd (Get s))
         else if c = CHR ''.'' \<and> \<not> hasDot then ParseNumber_loop True hasExp (snd (Get s))
         else if (c = CHR ''e'' \<or> c = CHR ''E'') \<and> \<not> hasExp then
           (let s1 = snd (Get s);
                s2 = (if Peek s1 = CHR ''+'' \<or> Peek s1 = CHR ''-'' then snd (Get s1) else s1)
            in ParseNumber_loop hasDot True s2)
         else s)
      else s)"
  by pat_completeness auto
termination
  by (relation "measure (\<lambda>(d, e, s). length (mSrc s) - mPos s)")
     (auto simp: EndOfFile_def Get_pos)

declare ParseNumber_loop.simps [simp del]

definition ParseNumber :: "Value \<Rightarrow> 'a Parser_scheme \<Rightarrow> ErrorCode \<times> Value \<times> 'a Parser_scheme" where
  "ParseNumber out s =
     (let start = mPos s;
          s1 = (if Peek s = CHR ''+'' \<or> Peek s = CHR ''-'' then snd (Get s) else s);
          s2 = ParseNumber_loop False False s1;
          tempValue = take (mPos s2 - start) (drop start (mSrc s2))
      in case strtod tempValue of (v, consumed) \<Rightarrow>
           if consumed \<noteq> length tempValue
           then (case Fail InvalidNumber ''Invalid number literal'' s2 of (ec, s3) \<Rightarrow> (ec, out, s3))
           else (OK, VNumber v, s2))"

subsection \<open>Keys\<close>

text \<open>\<^verbatim>\<open>std::get<std::string>\<close> of the temporary the string parsers filled.\<close>

definition getString :: "Value \<Rightarrow> string" where
  "getString v = (case v of VString t \<Rightarrow> t | _ \<Rightarrow> [])"

definition ParseKey :: "string \<Rightarrow> 'a Parser_scheme \<Rightarrow> ErrorCode \<times> string \<times> 'a Parser_scheme" where
  "ParseKey outKey s0 =
     (let s = SkipInlineSpaces s0; c = Peek s in
      if c = DQUOTE then
        (case ParseStringDouble VNull s of (ec, tempValue, s1) \<Rightarrow>
         if ec \<noteq> OK then (ec, outKey, s1) else (OK, getString tempValue, s1))
      else if c = SQUOTE then
        (case ParseStringSingle VNull s of (ec, tempValue, s1) \<Rightarrow>
         if ec \<noteq> OK then (ec, outKey, s1) else (OK, getString tempValue, s1))
      else if \<not> IsIdentifierStart c then
        (case Fail UnexpectedChar ''Expected identifier or string as key'' s of
           (ec, s1) \<Rightarrow> (ec, outKey, s1))
      else (case ReadIdentifier [] s of (ident, s1) \<Rightarrow> (OK, ident, s1)))"

section \<open>The value grammar\<close>

text \<open>
  The productions call each other, and their loops end only when
  \<^verbatim>\<open>NextContentLine\<close> does: they are defined by recursion on a bound \<open>n\<close> of nested
  calls and loop turns, \<open>None\<close> meaning the bound was too small. What a loop body does
  before and after its call of \<^verbatim>\<open>ParseValue\<close> is a definition of its own; the three
  ways out of a turn are \<^verbatim>\<open>break\<close>, \<^verbatim>\<open>continue\<close> and \<^verbatim>\<open>return\<close> of an error code.
\<close>

datatype 'a LoopCtl = LoopBreak 'a | LoopContinue 'a | LoopFail ErrorCode 'a

text \<open>\<^verbatim>\<open>char c = Get(); if (c == '\r' && Peek() == '\n') Get();\<close>\<close>

definition ConsumeEOL :: "'a Parser_scheme \<Rightarrow> 'a Parser_scheme" where
  "ConsumeEOL s =
     (case Get s of (c, s1) \<Rightarrow> if c = CR \<and> Peek s1 = LF then snd (Get s1) else s1)"

definition failCtl :: "ErrorCode \<Rightarrow> string \<Rightarrow> 'a Parser_scheme \<Rightarrow> 'a Parser_scheme LoopCtl" where
  "failCtl c msg s = (case Fail c msg s of (ec, s1) \<Rightarrow> LoopFail ec s1)"

text \<open>
  After \<^verbatim>\<open>NextContentLine\<close> inside a block of indent \<open>blockIndent\<close>: an error returns,
  the end of the input or a dedent below the block breaks, anything else continues.
\<close>

definition nextLineCtl :: "int \<Rightarrow> 'a Parser_scheme \<Rightarrow> 'a Parser_scheme LoopCtl option" where
  "nextLineCtl blockIndent s =
     (case NextContentLine s of
        None \<Rightarrow> None
      | Some (ec, hasLine, s1) \<Rightarrow>
          if ec \<noteq> OK then Some (LoopFail ec s1)
          else if \<not> hasLine then Some (LoopBreak s1)
          else if last (mIndentStack s1) < blockIndent then Some (LoopBreak s1)
          else Some (LoopContinue s1))"

subsection \<open>Inline objects\<close>

text \<open>A turn of the loop of \<^verbatim>\<open>ParseInlineObject\<close> up to the value.\<close>

definition inlineObjectKey :: "'a Parser_scheme \<Rightarrow> ErrorCode \<times> string \<times> 'a Parser_scheme" where
  "inlineObjectKey s =
     (case ParseKey [] s of (ec, key, s1) \<Rightarrow>
      if ec \<noteq> OK then (ec, key, s1)
      else
        (case Match CHR '':'' (SkipWhitespaceAndComments s1) of (m, s2) \<Rightarrow>
         if \<not> m then
           (case Fail UnexpectedChar (''Expected ':' in object'') s2 of
              (ec2, s3) \<Rightarrow> (ec2, key, s3))
         else (OK, key, SkipWhitespaceAndComments s2)))"

definition commaOrFail :: "'a Parser_scheme \<Rightarrow> 'a Parser_scheme LoopCtl" where
  "commaOrFail s =
     (case Match CHR '','' s of (m, s1) \<Rightarrow>
      if m then LoopContinue (SkipWhitespaceAndComments s1)
      else failCtl UnexpectedChar (''Expected ',' or '}' in object'') s1)"

text \<open>The same turn behind the \<^verbatim>\<open>emplace\<close>.\<close>

definition inlineObjectAfter :: "'a Parser_scheme \<Rightarrow> 'a Parser_scheme LoopCtl" where
  "inlineObjectAfter s =
     (case Match CHR ''}'' (SkipWhitespaceAndComments s) of (m, s1) \<Rightarrow>
      if m then LoopBreak s1
      else if Peek s1 = HASH then
        (case Match CHR ''}'' (SkipWhitespaceAndComments (SkipToEOL s1)) of (m2, s2) \<Rightarrow>
         if m2 then LoopBreak s2 else commaOrFail s2)
      else commaOrFail s1)"

subsection \<open>Indented objects\<close>

datatype 'a ObjHead =
    HeadBreak 'a
  | HeadContinue 'a
  | HeadFail ErrorCode 'a
  | HeadValue string bool int 'a

text \<open>
  A key whose line ends behind the colon: the value is a block on the next content
  line, which must be indented deeper than the body.
\<close>

definition blockStart :: "string \<Rightarrow> int \<Rightarrow> 'a Parser_scheme \<Rightarrow> 'a Parser_scheme ObjHead option" where
  "blockStart key bodyIndent s =
     (case NextContentLine s of
        None \<Rightarrow> None
      | Some (ec, hasLine, s1) \<Rightarrow>
          if ec \<noteq> OK then Some (HeadFail ec s1)
          else if \<not> hasLine then
            (case Fail InconsistentIndent (''Expected indented block after ':'' @ [SQUOTE]) s1 of
               (ec2, s2) \<Rightarrow> Some (HeadFail ec2 s2))
          else if last (mIndentStack s1) \<le> bodyIndent then
            (case Fail InconsistentIndent ''Expected deeper indentation for block value'' s1 of
               (ec2, s2) \<Rightarrow> Some (HeadFail ec2 s2))
          else Some (HeadValue key True (last (mIndentStack s1)) s1))"

text \<open>
  A turn of the loop of \<^verbatim>\<open>ParseIndentedObjectBody\<close> up to the value: \<open>HeadValue\<close>
  carries the key, whether the value is a block, and the indent \<^verbatim>\<open>ParseValue\<close> gets.
\<close>

definition indentedHead ::
  "int \<Rightarrow> int \<Rightarrow> 'a Parser_scheme \<Rightarrow> 'a Parser_scheme ObjHead option" where
  "indentedHead bodyIndent parentIndent s0 =
     (let s = SkipInlineSpaces s0 in
      if EndOfFile s then Some (HeadBreak s)
      else if Peek s = HASH \<or> Peek s = CR \<or> Peek s = LF then
        (case nextLineCtl bodyIndent s of
           None \<Rightarrow> None
         | Some (LoopFail ec s1) \<Rightarrow> Some (HeadFail ec s1)
         | Some (LoopBreak s1) \<Rightarrow> Some (HeadBreak s1)
         | Some (LoopContinue s1) \<Rightarrow> Some (HeadContinue s1))
      else if \<not> IsIdentifierStart (Peek s) \<and> Peek s \<noteq> DQUOTE \<and> Peek s \<noteq> SQUOTE
        then Some (HeadBreak s)
      else
        (case ParseKey [] s of (ec, key, s1) \<Rightarrow>
         if ec \<noteq> OK then Some (HeadFail ec s1)
         else
           (case Match CHR '':'' (SkipInlineSpaces s1) of (m, s2) \<Rightarrow>
            if \<not> m then
              (case Fail UnexpectedChar (''Expected ':' in object pair'') s2 of
                 (ec2, s3) \<Rightarrow> Some (HeadFail ec2 s3))
            else
              (let s3 = SkipInlineSpaces s2 in
               if Peek s3 = HASH then blockStart key bodyIndent (SkipToEOL s3)
               else if Peek s3 = CR \<or> Peek s3 = LF then blockStart key bodyIndent (ConsumeEOL s3)
               else Some (HeadValue key False parentIndent s3)))))"

text \<open>The same turn behind the \<^verbatim>\<open>emplace\<close> of an inline value.\<close>

definition indentedAfterInline :: "int \<Rightarrow> 'a Parser_scheme \<Rightarrow> 'a Parser_scheme LoopCtl option" where
  "indentedAfterInline bodyIndent s0 =
     (let s = SkipInlineSpaces s0 in
      if Peek s = HASH then nextLineCtl bodyIndent (SkipToEOL s)
      else
        (case Match CHR '','' s of (m, s1) \<Rightarrow>
         if m then Some (LoopContinue (SkipInlineSpaces s1))
         else if Peek s1 = CR \<or> Peek s1 = LF then nextLineCtl bodyIndent (ConsumeEOL s1)
         else Some (LoopBreak s1)))"

subsection \<open>Arrays\<close>

datatype 'a ArrHead =
    ArrFail ErrorCode 'a
  | ArrEmpty 'a
  | ArrMultiline int 'a
  | ArrInline 'a

text \<open>\<^verbatim>\<open>ParseArray\<close> up to its loops.\<close>

definition arrayHead :: "'a Parser_scheme \<Rightarrow> 'a Parser_scheme ArrHead option" where
  "arrayHead s0 =
     (case Match CHR ''['' s0 of (m, s1) \<Rightarrow>
      if \<not> m then (case Fail InternalError [] s1 of (ec, s2) \<Rightarrow> Some (ArrFail ec s2))
      else
        (let s2 = SkipInlineSpaces s1 in
         if Peek s2 = CR \<or> Peek s2 = LF then
           (case NextContentLine (ConsumeEOL s2) of
              None \<Rightarrow> None
            | Some (ec, hasLine, s3) \<Rightarrow>
                if ec \<noteq> OK then Some (ArrFail ec s3)
                else if \<not> hasLine \<or> Peek s3 = CHR '']'' then
                  Some (ArrEmpty (if Peek s3 = CHR '']'' then snd (Get s3) else s3))
                else Some (ArrMultiline (last (mIndentStack s3)) s3))
         else
           (case Match CHR '']'' (SkipWhitespaceAndComments s2) of (m2, s3) \<Rightarrow>
            if m2 then Some (ArrEmpty s3) else Some (ArrInline s3))))"

text \<open>A turn of the multiline loop behind the \<^verbatim>\<open>push_back\<close>.\<close>

definition multiArrayAfter :: "int \<Rightarrow> 'a Parser_scheme \<Rightarrow> 'a Parser_scheme LoopCtl option" where
  "multiArrayAfter arrayIndent s0 =
     (if last (mIndentStack s0) < arrayIndent then Some (LoopBreak s0)
      else
        (let s = SkipInlineSpaces s0 in
         if Peek s = HASH then nextLineCtl arrayIndent (SkipToEOL s)
         else
           (case Match CHR '']'' s of (m, s1) \<Rightarrow>
            if m then Some (LoopBreak s1)
            else
              (case Match CHR '','' s1 of (m2, s2) \<Rightarrow>
               if m2 then Some (LoopContinue (SkipWhitespaceAndComments s2))
               else if Peek s2 = CR \<or> Peek s2 = LF then nextLineCtl arrayIndent (ConsumeEOL s2)
               else
                 Some (failCtl UnexpectedChar
                         (''Expected ',' or ']' or newline in multiline array'') s2)))))"

text \<open>Behind the multiline loop: \<^verbatim>\<open>if (Peek() == ']') Get();\<close>\<close>

definition arrayClose :: "'a Parser_scheme \<Rightarrow> 'a Parser_scheme" where
  "arrayClose s = (if Peek s = CHR '']'' then snd (Get s) else s)"

text \<open>A turn of the inline loop behind the \<^verbatim>\<open>push_back\<close>.\<close>

definition inlineArrayAfter :: "'a Parser_scheme \<Rightarrow> 'a Parser_scheme LoopCtl" where
  "inlineArrayAfter s =
     (case Match CHR '']'' (SkipWhitespaceAndComments s) of (m, s1) \<Rightarrow>
      if m then LoopBreak s1
      else
        (case Match CHR '','' s1 of (m2, s2) \<Rightarrow>
         if \<not> m2 then failCtl UnexpectedChar (''Expected ',' or ']' in inline array'') s2
         else LoopContinue (SkipWhitespaceAndComments s2)))"

subsection \<open>Identifiers\<close>

text \<open>The literal a bare identifier stands for when no colon follows it.\<close>

definition identifierValue :: "string \<Rightarrow> Value" where
  "identifierValue ident =
     (if ident = ''true'' then VBool True
      else if ident = ''false'' then VBool False
      else if ident = ''null'' then VNull
      else VString ident)"

text \<open>
  \<^verbatim>\<open>parseIdentifierOrIndentedObject\<close> up to its decision: the identifier, whether a
  colon follows the inline spaces behind it, and the parser, rewound by the length
  of the identifier in that case.
\<close>

definition identifierHead :: "'a Parser_scheme \<Rightarrow> string \<times> bool \<times> 'a Parser_scheme" where
  "identifierHead s =
     (case ReadIdentifier [] s of (ident, s1) \<Rightarrow>
      let s2 = SkipInlineSpaces s1 in
      if Peek s2 = CHR '':''
      then (ident, True, s2\<lparr>mPos := mPos s2 - length ident, mCol := mCol s2 - length ident\<rparr>)
      else (ident, False, s2))"

subsection \<open>The productions\<close>

text \<open>
  Every production returns its error code, its out-parameter as it stands at the
  return, and the parser. The productions that hold a loop or call back into
  \<^verbatim>\<open>ParseValue\<close> take the bound \<open>n\<close> and, as \<open>pv\<close>, \<^verbatim>\<open>ParseValue\<close> under the
  bound that is left; \<open>ParseValue\<close> below closes the recursion.
  \<^verbatim>\<open>ParseIndentedObjectBody\<close> fills the \<^verbatim>\<open>Object\<close> it is given by reference;
  \<open>bodyIndent\<close> is \<open>- 1\<close> until the first turn of its loop.
\<close>

type_synonym 'a Production =
  "Value \<Rightarrow> int \<Rightarrow> 'a Parser_scheme \<Rightarrow> (ErrorCode \<times> Value \<times> 'a Parser_scheme) option"

primrec ParseInlineObject_loop ::
  "nat \<Rightarrow> 'a Production \<Rightarrow> Object \<Rightarrow> Value \<Rightarrow> int \<Rightarrow> 'a Parser_scheme \<Rightarrow>
   (ErrorCode \<times> Value \<times> 'a Parser_scheme) option" where
  "ParseInlineObject_loop 0 pv object out currentIndent s = None"
| "ParseInlineObject_loop (Suc n) pv object out currentIndent s =
     (case inlineObjectKey s of (ec, key, s1) \<Rightarrow>
      if ec \<noteq> OK then Some (ec, out, s1)
      else
        (case pv VNull currentIndent s1 of
           None \<Rightarrow> None
         | Some (ec2, v, s2) \<Rightarrow>
             if ec2 \<noteq> OK then Some (ec2, out, s2)
             else
               (case inlineObjectAfter s2 of
                  LoopBreak s3 \<Rightarrow> Some (OK, VObject (emplace key v object), s3)
                | LoopContinue s3 \<Rightarrow>
                    ParseInlineObject_loop n pv (emplace key v object) out currentIndent s3
                | LoopFail ec3 s3 \<Rightarrow> Some (ec3, out, s3))))"

definition ParseInlineObject ::
  "nat \<Rightarrow> 'a Production \<Rightarrow> 'a Production" where
  "ParseInlineObject n pv out currentIndent s =
     (case Match CHR ''{'' s of (m, s1) \<Rightarrow>
      if \<not> m then (case Fail InternalError [] s1 of (ec, s2) \<Rightarrow> Some (ec, out, s2))
      else
        (case Match CHR ''}'' (SkipWhitespaceAndComments s1) of (m2, s2) \<Rightarrow>
         if m2 then Some (OK, VObject [], s2)
         else ParseInlineObject_loop n pv [] out currentIndent s2))"

primrec ParseIndentedObjectBody ::
  "nat \<Rightarrow> 'a Production \<Rightarrow> int \<Rightarrow> Object \<Rightarrow> int \<Rightarrow> 'a Parser_scheme \<Rightarrow>
   (ErrorCode \<times> Object \<times> 'a Parser_scheme) option" where
  "ParseIndentedObjectBody 0 pv bodyIndent0 object parentIndent s = None"
| "ParseIndentedObjectBody (Suc n) pv bodyIndent0 object parentIndent s =
     (let bodyIndent = (if bodyIndent0 = - 1 then last (mIndentStack s) else bodyIndent0) in
      case indentedHead bodyIndent parentIndent s of
        None \<Rightarrow> None
      | Some (HeadBreak s1) \<Rightarrow> Some (OK, object, s1)
      | Some (HeadContinue s1) \<Rightarrow> ParseIndentedObjectBody n pv bodyIndent object parentIndent s1
      | Some (HeadFail ec s1) \<Rightarrow> Some (ec, object, s1)
      | Some (HeadValue key isBlock valueIndent s1) \<Rightarrow>
          (case pv VNull valueIndent s1 of
             None \<Rightarrow> None
           | Some (ec, v, s2) \<Rightarrow>
               if ec \<noteq> OK then Some (ec, object, s2)
               else if isBlock then
                 (if last (mIndentStack s2) < bodyIndent
                  then Some (OK, emplace key v object, s2)
                  else ParseIndentedObjectBody n pv bodyIndent (emplace key v object)
                         parentIndent s2)
               else
                 (case indentedAfterInline bodyIndent s2 of
                    None \<Rightarrow> None
                  | Some (LoopBreak s3) \<Rightarrow> Some (OK, emplace key v object, s3)
                  | Some (LoopContinue s3) \<Rightarrow>
                      ParseIndentedObjectBody n pv bodyIndent (emplace key v object)
                        parentIndent s3
                  | Some (LoopFail ec3 s3) \<Rightarrow> Some (ec3, emplace key v object, s3))))"

definition parseIdentifierOrIndentedObject ::
  "nat \<Rightarrow> 'a Production \<Rightarrow> 'a Production" where
  "parseIdentifierOrIndentedObject n pv out currentIndent s =
     (case identifierHead s of (ident, colon, s1) \<Rightarrow>
      if colon then
        (case ParseIndentedObjectBody n pv (- 1) [] currentIndent s1 of
           None \<Rightarrow> None
         | Some (ec, object, s2) \<Rightarrow>
             if ec \<noteq> OK then Some (ec, out, s2) else Some (OK, VObject object, s2))
      else Some (OK, identifierValue ident, s1))"

primrec ParseArray_multiline ::
  "nat \<Rightarrow> 'a Production \<Rightarrow> Array \<Rightarrow> Value \<Rightarrow> int \<Rightarrow> 'a Parser_scheme \<Rightarrow>
   (ErrorCode \<times> Value \<times> 'a Parser_scheme) option" where
  "ParseArray_multiline 0 pv array out arrayIndent s = None"
| "ParseArray_multiline (Suc n) pv array out arrayIndent s =
     (if Peek s = CHR '']'' then Some (OK, VArray array, arrayClose (snd (Get s)))
      else
        (case pv VNull arrayIndent s of
           None \<Rightarrow> None
         | Some (ec, v, s1) \<Rightarrow>
             if ec \<noteq> OK then Some (ec, out, s1)
             else
               (case multiArrayAfter arrayIndent s1 of
                  None \<Rightarrow> None
                | Some (LoopBreak s2) \<Rightarrow> Some (OK, VArray (array @ [v]), arrayClose s2)
                | Some (LoopContinue s2) \<Rightarrow>
                    ParseArray_multiline n pv (array @ [v]) out arrayIndent s2
                | Some (LoopFail ec2 s2) \<Rightarrow> Some (ec2, out, s2))))"

primrec ParseArray_inline ::
  "nat \<Rightarrow> 'a Production \<Rightarrow> Array \<Rightarrow> Value \<Rightarrow> int \<Rightarrow> 'a Parser_scheme \<Rightarrow>
   (ErrorCode \<times> Value \<times> 'a Parser_scheme) option" where
  "ParseArray_inline 0 pv array out parentIndent s = None"
| "ParseArray_inline (Suc n) pv array out parentIndent s =
     (if Peek s = CHR '']'' then Some (OK, VArray array, snd (Get s))
      else
        (case pv VNull parentIndent s of
           None \<Rightarrow> None
         | Some (ec, v, s1) \<Rightarrow>
             if ec \<noteq> OK then Some (ec, out, s1)
             else
               (case inlineArrayAfter s1 of
                  LoopBreak s2 \<Rightarrow> Some (OK, VArray (array @ [v]), s2)
                | LoopContinue s2 \<Rightarrow> ParseArray_inline n pv (array @ [v]) out parentIndent s2
                | LoopFail ec2 s2 \<Rightarrow> Some (ec2, out, s2))))"

definition ParseArray :: "nat \<Rightarrow> 'a Production \<Rightarrow> 'a Production" where
  "ParseArray n pv out parentIndent s =
     (case arrayHead s of
        None \<Rightarrow> None
      | Some (ArrFail ec s1) \<Rightarrow> Some (ec, out, s1)
      | Some (ArrEmpty s1) \<Rightarrow> Some (OK, VArray [], s1)
      | Some (ArrMultiline arrayIndent s1) \<Rightarrow> ParseArray_multiline n pv [] out arrayIndent s1
      | Some (ArrInline s1) \<Rightarrow> ParseArray_inline n pv [] out parentIndent s1)"

primrec ParseValue :: "nat \<Rightarrow> 'a Production" where
  "ParseValue 0 = (\<lambda>out currentIndent s0. None)"
| "ParseValue (Suc n) = (\<lambda>out currentIndent s0.
     let s = SkipWhitespaceAndComments s0; c = Peek s in
     if c = CHR ''{'' then ParseInlineObject n (ParseValue n) out currentIndent s
     else if c = CHR ''['' then ParseArray n (ParseValue n) out currentIndent s
     else if c = DQUOTE then Some (ParseStringOrTriple out s)
     else if c = SQUOTE then Some (ParseStringSingle out s)
     else if IsIdentifierStart c
       then parseIdentifierOrIndentedObject n (ParseValue n) out currentIndent s
     else if IsNumberStart c then Some (ParseNumber out s)
     else if EndOfFile s then
       (case Fail UnexpectedEnd ''Unexpected end of input while parsing value'' s of
          (ec, s1) \<Rightarrow> Some (ec, out, s1))
     else
       (case Fail UnexpectedChar ''Unexpected character while parsing value'' s of
          (ec, s1) \<Rightarrow> Some (ec, out, s1)))"

section \<open>The entry points of the plain parser\<close>

text \<open>The loop of \<^verbatim>\<open>Parser::Parse\<close> behind the top-level value.\<close>

function SkipTrailing :: "'a Parser_scheme \<Rightarrow> 'a Parser_scheme" where
  "SkipTrailing s =
     (if \<not> EndOfFile s then
        (let c = Peek s in
         if c = SPC \<or> c = TAB \<or> c = CR \<or> c = LF then SkipTrailing (snd (Get s))
         else if c = HASH then SkipTrailing (SkipToEOL s)
         else s)
      else s)"
  by pat_completeness auto
termination
proof (relation "measure (\<lambda>s. length (mSrc s) - mPos s)", goal_cases)
  case 1
  show ?case by simp
next
  case (2 s c)
  then show ?case by (auto simp: Get_pos EndOfFile_def)
next
  case (3 s c)
  then show ?case
    using SkipToEOL_pos(1) [of s] by (auto simp: EndOfFile_def)
qed

declare SkipTrailing.simps [simp del]

text \<open>
  \<^verbatim>\<open>Fail\<close> with the caller's \<^verbatim>\<open>Error*\<close>: \<open>None\<close> is \<^verbatim>\<open>nullptr\<close>, \<open>Some e\<close> the
  \<^verbatim>\<open>Error\<close> it points to.
\<close>

definition FailOut ::
  "ErrorCode \<Rightarrow> Error option \<Rightarrow> string \<Rightarrow> 'a Parser_scheme \<Rightarrow>
   ErrorCode \<times> Error option \<times> 'a Parser_scheme" where
  "FailOut c err msg s =
     (case Fail c msg s of (ec, s1) \<Rightarrow> (ec, map_option (\<lambda>_. mError s1) err, s1))"

definition hasBOM :: "string \<Rightarrow> bool" where
  "hasBOM src = (length src \<ge> 3 \<and> bomAt src 0)"

text \<open>
  \<^verbatim>\<open>Parser::Parse(out, error)\<close>: the error code, the caller's \<^verbatim>\<open>Value\<close>, the caller's
  \<^verbatim>\<open>Error\<close> and the parser as the call leaves them.
\<close>

definition Parser_Parse ::
  "nat \<Rightarrow> Value \<Rightarrow> Error option \<Rightarrow> Parser \<Rightarrow> (ErrorCode \<times> Value \<times> Error option \<times> Parser) option" where
  "Parser_Parse n out err p0 =
     (let p1 = p0\<lparr>mError := noError\<rparr> in
      case ValidateUTF8 (mSrc p1) True 0 of (valid, badIndex, badLine, badCol) \<Rightarrow>
      if \<not> valid then
        (case FailOut InvalidUtf8 err ''Invalid UTF-8 encoding''
                (p1\<lparr>mPos := badIndex, mLine := badLine, mCol := badCol\<rparr>) of
           (ec, err1, p2) \<Rightarrow> Some (ec, out, err1, p2))
      else
        (let p2 = (if hasBOM (mSrc p1) then p1\<lparr>mPos := 3, mCol := 1, mLine := 1\<rparr> else p1);
             p3 = SkipWhitespaceAndComments p2
         in
         case (if mPos p3 \<ge> length (mSrc p3) then Some (OK, VNull, p3)
               else ParseValue n VNull 0 p3) of
           None \<Rightarrow> None
         | Some (errorCode, v, p4) \<Rightarrow>
             if errorCode \<noteq> OK then
               Some (errorCode, out,
                     map_option (\<lambda>e. if code (mError p4) \<noteq> OK then mError p4
                                      else \<lparr>code = errorCode, location = Location p4,
                                            message = []\<rparr>) err,
                     p4)
             else
               (let p5 = (SkipTrailing p4)\<lparr>mIndentStack := [0]\<rparr> in
                if mPos p5 \<noteq> length (mSrc p5) then
                  (case FailOut UnexpectedChar err
                          ''Trailing characters after top-level value'' p5 of
                     (ec, err1, p6) \<Rightarrow> Some (ec, out, err1, p6))
                else Some (OK, v, map_option (\<lambda>_. noError) err, p5))))"

text \<open>The free function \<^verbatim>\<open>Parse(src, out, error)\<close>: a fresh parser, one call.\<close>

definition Parse ::
  "nat \<Rightarrow> string \<Rightarrow> Value \<Rightarrow> Error option \<Rightarrow> (ErrorCode \<times> Value \<times> Error option) option" where
  "Parse n src out err =
     map_option (\<lambda>(ec, out', err', p). (ec, out', err')) (Parser_Parse n out err (newParser src))"

section \<open>The lossless parser\<close>

text \<open>
  \<^verbatim>\<open>class LosslessParser : private Parser\<close> adds the pending comments to the parser.
  Its productions fill the \<^verbatim>\<open>LosslessValue\<close> they are given by reference while they
  run, so each takes it and returns it as it stands at the return.
\<close>

record LosslessParser = Parser +
  mPendingComments :: "LosslessComment list"

definition newLosslessParser :: "string \<Rightarrow> LosslessParser" where
  "newLosslessParser src =
     \<lparr>mSrc = src, mFilename = [], mPos = 0, mLine = 1, mCol = 1,
      mIndentUnit = 0, mIndentStack = [0], mError = noError, mPendingComments = []\<rparr>"

text \<open>Assignments to the members of a \<^verbatim>\<open>LosslessValue\<close>.\<close>

definition set_val :: "Value \<Rightarrow> LosslessValue \<Rightarrow> LosslessValue" where
  "set_val v x = (case x of LosslessValue _ lc ic ai oi tc \<Rightarrow> LosslessValue v lc ic ai oi tc)"

definition set_leadingComments :: "LosslessComment list \<Rightarrow> LosslessValue \<Rightarrow> LosslessValue" where
  "set_leadingComments lc x =
     (case x of LosslessValue v _ ic ai oi tc \<Rightarrow> LosslessValue v lc ic ai oi tc)"

definition set_inlineComment :: "string \<Rightarrow> LosslessValue \<Rightarrow> LosslessValue" where
  "set_inlineComment ic x =
     (case x of LosslessValue v lc _ ai oi tc \<Rightarrow> LosslessValue v lc ic ai oi tc)"

definition set_arrayItems :: "LosslessValue list \<Rightarrow> LosslessValue \<Rightarrow> LosslessValue" where
  "set_arrayItems ai x =
     (case x of LosslessValue v lc ic _ oi tc \<Rightarrow> LosslessValue v lc ic ai oi tc)"

definition set_objectItems :: "(string \<times> LosslessValue) list \<Rightarrow> LosslessValue \<Rightarrow> LosslessValue" where
  "set_objectItems oi x =
     (case x of LosslessValue v lc ic ai _ tc \<Rightarrow> LosslessValue v lc ic ai oi tc)"

definition set_trailingComments :: "LosslessComment list \<Rightarrow> LosslessValue \<Rightarrow> LosslessValue" where
  "set_trailingComments tc x =
     (case x of LosslessValue v lc ic ai oi _ \<Rightarrow> LosslessValue v lc ic ai oi tc)"

text \<open>\<^verbatim>\<open>out.arrayItems.back().inlineComment = comment\<close>, guarded by \<^verbatim>\<open>!empty()\<close>.\<close>

definition commentLastArrayItem :: "string \<Rightarrow> LosslessValue \<Rightarrow> LosslessValue" where
  "commentLastArrayItem comment x =
     (if arrayItems x \<noteq> []
      then set_arrayItems
             (butlast (arrayItems x) @ [set_inlineComment comment (last (arrayItems x))]) x
      else x)"

definition commentLastObjectItem :: "string \<Rightarrow> LosslessValue \<Rightarrow> LosslessValue" where
  "commentLastObjectItem comment x =
     (if objectItems x \<noteq> []
      then set_objectItems
             (butlast (objectItems x) @
              [(fst (last (objectItems x)),
                set_inlineComment comment (snd (last (objectItems x))))]) x
      else x)"

text \<open>
  \<^verbatim>\<open>Finish(errorCode, error, message)\<close>: \<open>msg\<close> is the optional message, \<open>err\<close> the
  caller's \<^verbatim>\<open>Error*\<close>.
\<close>

definition Finish ::
  "ErrorCode \<Rightarrow> Error option \<Rightarrow> string option \<Rightarrow> 'a Parser_scheme \<Rightarrow>
   ErrorCode \<times> Error option \<times> 'a Parser_scheme" where
  "Finish errorCode err msg s =
     (let s1 = (case msg of
                  Some m \<Rightarrow> s\<lparr>mError := \<lparr>code = errorCode, location = Location s, message = m\<rparr>\<rparr>
                | None \<Rightarrow>
                    if code (mError s) = OK
                    then s\<lparr>mError := \<lparr>code = errorCode, location = Location s, message = []\<rparr>\<rparr>
                    else s);
          err1 = (case err of
                    None \<Rightarrow> None
                  | Some e \<Rightarrow>
                      (case msg of
                         Some m \<Rightarrow>
                           Some \<lparr>code = errorCode, location = Location s1, message = m\<rparr>
                       | None \<Rightarrow>
                           if code (mError s1) \<noteq> OK then Some (mError s1)
                           else Some \<lparr>code = errorCode, location = Location s1, message = []\<rparr>))
      in (errorCode, err1, s1))"

text \<open>\<^verbatim>\<open>Finish\<close> inside the grammar, where the \<^verbatim>\<open>Error*\<close> is \<^verbatim>\<open>nullptr\<close>.\<close>

definition FinishIn :: "ErrorCode \<Rightarrow> string option \<Rightarrow> 'a Parser_scheme \<Rightarrow> ErrorCode \<times> 'a Parser_scheme" where
  "FinishIn errorCode msg s = (case Finish errorCode None msg s of (ec, _, s1) \<Rightarrow> (ec, s1))"

text \<open>
  The comment or blank line between \<open>lineStart\<close> and the cursor, as
  \<^verbatim>\<open>NextContentLineLossless\<close> stores it.
\<close>

function stripEOL :: "string \<Rightarrow> string" where
  "stripEOL txt =
     (if txt \<noteq> [] \<and> (last txt = CR \<or> last txt = LF) then stripEOL (butlast txt) else txt)"
  by pat_completeness auto
termination
  by (relation "measure length") auto

declare stripEOL.simps [simp del]

definition lineComment :: "nat \<Rightarrow> int \<Rightarrow> 'a Parser_scheme \<Rightarrow> LosslessComment" where
  "lineComment lineStart indentCols s =
     (let txt = stripEOL (take (mPos s - lineStart) (drop lineStart (mSrc s))) in
      \<lparr>indent = indentCols,
       commentText = (if nat indentCols < length txt then drop (nat indentCols) txt else [])\<rparr>)"

text \<open>
  \<^verbatim>\<open>NextContentLineLossless(hasLine, comments)\<close>; every call passes
  \<^verbatim>\<open>mPendingComments\<close> as \<^verbatim>\<open>comments\<close>. Like \<^verbatim>\<open>NextContentLine\<close> it does not advance
  on a line that begins with a NUL byte.
\<close>

partial_function (option) NextContentLineLossless ::
  "LosslessParser \<Rightarrow> (ErrorCode \<times> bool \<times> LosslessParser) option" where
  "NextContentLineLossless s =
     (if \<not> EndOfFile s then
        (if mCol s \<noteq> 1 then
           (let s1 = SkipToEOL s in
            if EndOfFile s1 then Some (OK, False, s1) else NextContentLineLossless s1)
         else
           (case ReadLineIndent s of (ec, indentCols, hasContent, s1) \<Rightarrow>
            if ec \<noteq> OK then Some (ec, False, s1)
            else if \<not> hasContent then
              NextContentLineLossless
                (s1\<lparr>mPendingComments :=
                      mPendingComments s1 @ [lineComment (mPos s) indentCols s1]\<rparr>)
            else
              (case ApplyIndentLevel indentCols s1 of (ec2, s2) \<Rightarrow>
               if ec2 \<noteq> OK then Some (ec2, False, s2) else Some (OK, True, s2))))
      else Some (OK, False, s))"

declare NextContentLineLossless.simps [code]

definition nextLineCtlLossless ::
  "int \<Rightarrow> LosslessValue \<Rightarrow> LosslessParser \<Rightarrow> (LosslessValue \<times> LosslessParser) LoopCtl option" where
  "nextLineCtlLossless blockIndent out s =
     (case NextContentLineLossless s of
        None \<Rightarrow> None
      | Some (ec, hasLine, s1) \<Rightarrow>
          if ec \<noteq> OK then Some (LoopFail ec (out, s1))
          else if \<not> hasLine then Some (LoopBreak (out, s1))
          else if last (mIndentStack s1) < blockIndent then Some (LoopBreak (out, s1))
          else Some (LoopContinue (out, s1)))"

text \<open>The same without the test of the indent stack.\<close>

definition nextLineCtlAny ::
  "LosslessValue \<Rightarrow> LosslessParser \<Rightarrow> (LosslessValue \<times> LosslessParser) LoopCtl option" where
  "nextLineCtlAny out s =
     (case NextContentLineLossless s of
        None \<Rightarrow> None
      | Some (ec, hasLine, s1) \<Rightarrow>
          if ec \<noteq> OK then Some (LoopFail ec (out, s1))
          else if \<not> hasLine then Some (LoopBreak (out, s1))
          else Some (LoopContinue (out, s1)))"

text \<open>
  The loop that collects the rest of a line:
  \<^verbatim>\<open>while (!EndOfFile()) { ch = Peek(); if (ch == '\r' || ch == '\n') break; line.push_back(Get()); }\<close>
\<close>

function ReadToEOL :: "string \<Rightarrow> 'a Parser_scheme \<Rightarrow> string \<times> 'a Parser_scheme" where
  "ReadToEOL txt s =
     (if \<not> EndOfFile s then
        (if Peek s = CR \<or> Peek s = LF then (txt, s)
         else (case Get s of (c, s1) \<Rightarrow> ReadToEOL (txt @ [c]) s1))
      else (txt, s))"
  by pat_completeness auto
termination
  by (relation "measure (\<lambda>(l, s). length (mSrc s) - mPos s)")
     (auto simp: EndOfFile_def Get_def Let_def split: if_splits)

declare ReadToEOL.simps [simp del]

text \<open>
  A \<^verbatim>\<open>#\<close> behind a value inside a block of indent \<open>blockIndent\<close>. At or left of the
  block's column it is a comment line for the next entry and goes to the pending
  comments; further right it is the inline comment of the entry just read, which
  \<open>attach\<close> stores. \<open>dedent\<close> says whether a dedent below the block ends the loop.
\<close>

definition hashAfterValue ::
  "int \<Rightarrow> bool \<Rightarrow> (string \<Rightarrow> LosslessValue \<Rightarrow> LosslessValue) \<Rightarrow> LosslessValue \<Rightarrow>
   LosslessParser \<Rightarrow> (LosslessValue \<times> LosslessParser) LoopCtl option" where
  "hashAfterValue blockIndent dedent attach out s =
     (if int (mCol s) \<le> blockIndent + 1 then
        (case ReadToEOL [HASH] (snd (Get s)) of (txt, s1) \<Rightarrow>
         let c = \<lparr>indent = (if int (mCol s1) - 1 < 0 then 0 else int (mCol s1) - 1),
                  commentText = txt\<rparr>;
             s2 = SkipToEOL (s1\<lparr>mPendingComments := mPendingComments s1 @ [c]\<rparr>)
         in if dedent then nextLineCtlLossless blockIndent out s2 else nextLineCtlAny out s2)
      else
        (case ReadToEOL [] (snd (Get s)) of (comment, s1) \<Rightarrow>
         let out1 = attach comment out; s2 = SkipToEOL s1
         in if dedent then nextLineCtlLossless blockIndent out1 s2 else nextLineCtlAny out1 s2))"

type_synonym LProduction =
  "LosslessValue \<Rightarrow> int \<Rightarrow> bool \<Rightarrow> LosslessParser \<Rightarrow>
   (ErrorCode \<times> LosslessValue \<times> LosslessParser) option"

subsection \<open>Inline objects\<close>

definition inlineObjectKeyLossless :: "LosslessParser \<Rightarrow> ErrorCode \<times> string \<times> LosslessParser" where
  "inlineObjectKeyLossless s0 =
     (let s = s0\<lparr>mPendingComments := []\<rparr> in
      case ParseKey [] s of (ec, key, s1) \<Rightarrow>
      if ec \<noteq> OK then (ec, key, s1)
      else
        (case Match CHR '':'' (SkipWhitespaceAndComments s1) of (m, s2) \<Rightarrow>
         if \<not> m then
           (case FinishIn UnexpectedChar (Some (''Expected ':' in inline object'')) s2 of
              (ec2, s3) \<Rightarrow> (ec2, key, s3))
         else (OK, key, SkipWhitespaceAndComments s2)))"

definition inlineObjectAfterLossless :: "LosslessParser \<Rightarrow> LosslessParser LoopCtl" where
  "inlineObjectAfterLossless s =
     (case Match CHR ''}'' (SkipWhitespaceAndComments s) of (m, s1) \<Rightarrow>
      if m then LoopBreak s1
      else
        (case Match CHR '','' s1 of (m2, s2) \<Rightarrow>
         if \<not> m2 then
           (case FinishIn UnexpectedChar (Some (''Expected ',' in inline object'')) s2 of
              (ec, s3) \<Rightarrow> LoopFail ec s3)
         else LoopContinue (SkipWhitespaceAndComments s2)))"

primrec ParseInlineObjectLossless_loop ::
  "nat \<Rightarrow> LProduction \<Rightarrow> Object \<Rightarrow> LosslessValue \<Rightarrow> int \<Rightarrow> LosslessParser \<Rightarrow>
   (ErrorCode \<times> LosslessValue \<times> LosslessParser) option" where
  "ParseInlineObjectLossless_loop 0 pv object out currentIndent s = None"
| "ParseInlineObjectLossless_loop (Suc n) pv object out currentIndent s =
     (case inlineObjectKeyLossless s of (ec, key, s1) \<Rightarrow>
      if ec \<noteq> OK then Some (ec, out, s1)
      else
        (case pv emptyLossless currentIndent True s1 of
           None \<Rightarrow> None
         | Some (ec2, child, s2) \<Rightarrow>
             if ec2 \<noteq> OK then Some (ec2, out, s2)
             else
               (let out1 = set_objectItems (objectItems out @ [(key, child)]) out;
                    object1 = emplace key (val child) object
                in case inlineObjectAfterLossless s2 of
                     LoopBreak s3 \<Rightarrow> Some (OK, set_val (VObject object1) out1, s3)
                   | LoopContinue s3 \<Rightarrow>
                       ParseInlineObjectLossless_loop n pv object1 out1 currentIndent s3
                   | LoopFail ec3 s3 \<Rightarrow> Some (ec3, out1, s3))))"

definition ParseInlineObjectLossless ::
  "nat \<Rightarrow> LProduction \<Rightarrow> LosslessValue \<Rightarrow> int \<Rightarrow> LosslessParser \<Rightarrow>
   (ErrorCode \<times> LosslessValue \<times> LosslessParser) option" where
  "ParseInlineObjectLossless n pv out currentIndent s =
     (case Match CHR ''{'' s of (m, s1) \<Rightarrow>
      if \<not> m then (case FinishIn InternalError None s1 of (ec, s2) \<Rightarrow> Some (ec, out, s2))
      else
        (case Match CHR ''}'' (SkipWhitespaceAndComments s1) of (m2, s2) \<Rightarrow>
         if m2 then Some (OK, set_val (VObject []) out, s2)
         else ParseInlineObjectLossless_loop n pv [] out currentIndent s2))"

subsection \<open>Arrays\<close>

definition arrayHeadLossless :: "LosslessParser \<Rightarrow> LosslessParser ArrHead option" where
  "arrayHeadLossless s0 =
     (case Match CHR ''['' s0 of (m, s1) \<Rightarrow>
      if \<not> m then (case FinishIn InternalError None s1 of (ec, s2) \<Rightarrow> Some (ArrFail ec s2))
      else
        (let s2 = SkipInlineSpaces s1 in
         if Peek s2 = CR \<or> Peek s2 = LF then
           (case NextContentLineLossless (ConsumeEOL s2) of
              None \<Rightarrow> None
            | Some (ec, hasLine, s3) \<Rightarrow>
                if ec \<noteq> OK then Some (ArrFail ec s3)
                else if \<not> hasLine \<or> Peek s3 = CHR '']'' then
                  Some (ArrEmpty (if Peek s3 = CHR '']'' then snd (Get s3) else s3))
                else Some (ArrMultiline (last (mIndentStack s3)) s3))
         else
           (case Match CHR '']'' (SkipWhitespaceAndComments s2) of (m2, s3) \<Rightarrow>
            if m2 then Some (ArrEmpty s3) else Some (ArrInline s3))))"

definition multiArrayAfterLossless ::
  "int \<Rightarrow> LosslessValue \<Rightarrow> LosslessParser \<Rightarrow> (LosslessValue \<times> LosslessParser) LoopCtl option" where
  "multiArrayAfterLossless arrayIndent out s0 =
     (let s = SkipInlineSpaces s0 in
      if Peek s = HASH then hashAfterValue arrayIndent False commentLastArrayItem out s
      else
        (case Match CHR '']'' s of (m, s1) \<Rightarrow>
         if m then Some (LoopBreak (out, s1))
         else
           (case Match CHR '','' s1 of (m2, s2) \<Rightarrow>
            if m2 then Some (LoopContinue (out, SkipWhitespaceAndComments s2))
            else if Peek s2 = CR \<or> Peek s2 = LF
              then nextLineCtlLossless arrayIndent out (ConsumeEOL s2)
            else
              (case FinishIn UnexpectedChar
                      (Some (''Expected ',' or ']' or newline in multiline array'')) s2 of
                 (ec, s3) \<Rightarrow> Some (LoopFail ec (out, s3))))))"

primrec ParseArrayLossless_multiline ::
  "nat \<Rightarrow> LProduction \<Rightarrow> Array \<Rightarrow> LosslessValue \<Rightarrow> int \<Rightarrow> LosslessParser \<Rightarrow>
   (ErrorCode \<times> LosslessValue \<times> LosslessParser) option" where
  "ParseArrayLossless_multiline 0 pv array out arrayIndent s = None"
| "ParseArrayLossless_multiline (Suc n) pv array out arrayIndent s =
     (if Peek s = CHR '']''
      then Some (OK, set_val (VArray array) out, arrayClose (snd (Get s)))
      else
        (case pv emptyLossless arrayIndent False s of
           None \<Rightarrow> None
         | Some (ec, child, s1) \<Rightarrow>
             if ec \<noteq> OK then Some (ec, out, s1)
             else
               (let array1 = array @ [val child];
                    out1 = set_arrayItems (arrayItems out @ [child]) out
                in case multiArrayAfterLossless arrayIndent out1 s1 of
                     None \<Rightarrow> None
                   | Some (LoopBreak (out2, s2)) \<Rightarrow>
                       Some (OK, set_val (VArray array1) out2, arrayClose s2)
                   | Some (LoopContinue (out2, s2)) \<Rightarrow>
                       ParseArrayLossless_multiline n pv array1 out2 arrayIndent s2
                   | Some (LoopFail ec2 (out2, s2)) \<Rightarrow> Some (ec2, out2, s2))))"

definition inlineArrayAfterLossless :: "LosslessParser \<Rightarrow> LosslessParser LoopCtl" where
  "inlineArrayAfterLossless s =
     (case Match CHR '']'' (SkipWhitespaceAndComments s) of (m, s1) \<Rightarrow>
      if m then LoopBreak s1
      else
        (case Match CHR '','' s1 of (m2, s2) \<Rightarrow>
         if \<not> m2 then
           (case FinishIn UnexpectedChar (Some (''Expected ',' or ']' in inline array'')) s2 of
              (ec, s3) \<Rightarrow> LoopFail ec s3)
         else LoopContinue (SkipWhitespaceAndComments s2)))"

primrec ParseArrayLossless_inline ::
  "nat \<Rightarrow> LProduction \<Rightarrow> Array \<Rightarrow> LosslessValue \<Rightarrow> int \<Rightarrow> LosslessParser \<Rightarrow>
   (ErrorCode \<times> LosslessValue \<times> LosslessParser) option" where
  "ParseArrayLossless_inline 0 pv array out parentIndent s = None"
| "ParseArrayLossless_inline (Suc n) pv array out parentIndent s =
     (if Peek s = CHR '']'' then Some (OK, set_val (VArray array) out, snd (Get s))
      else
        (case pv emptyLossless parentIndent True s of
           None \<Rightarrow> None
         | Some (ec, child, s1) \<Rightarrow>
             if ec \<noteq> OK then Some (ec, out, s1)
             else
               (let array1 = array @ [val child];
                    out1 = set_arrayItems (arrayItems out @ [child]) out
                in case inlineArrayAfterLossless s1 of
                     LoopBreak s2 \<Rightarrow> Some (OK, set_val (VArray array1) out1, s2)
                   | LoopContinue s2 \<Rightarrow>
                       ParseArrayLossless_inline n pv array1 out1 parentIndent s2
                   | LoopFail ec2 s2 \<Rightarrow> Some (ec2, out1, s2))))"

definition ParseArrayLossless ::
  "nat \<Rightarrow> LProduction \<Rightarrow> LosslessValue \<Rightarrow> int \<Rightarrow> LosslessParser \<Rightarrow>
   (ErrorCode \<times> LosslessValue \<times> LosslessParser) option" where
  "ParseArrayLossless n pv out parentIndent s =
     (case arrayHeadLossless s of
        None \<Rightarrow> None
      | Some (ArrFail ec s1) \<Rightarrow> Some (ec, out, s1)
      | Some (ArrEmpty s1) \<Rightarrow> Some (OK, set_val (VArray []) out, s1)
      | Some (ArrMultiline arrayIndent s1) \<Rightarrow>
          ParseArrayLossless_multiline n pv [] out arrayIndent s1
      | Some (ArrInline s1) \<Rightarrow> ParseArrayLossless_inline n pv [] out parentIndent s1)"

subsection \<open>Indented objects\<close>

text \<open>
  A turn of the loop of \<^verbatim>\<open>ParseIndentedObjectBodyLossless\<close> up to the value. The
  pending comments move into \<^verbatim>\<open>preKeyComments\<close> before the key is read; \<open>HeadValue\<close>
  carries them beside the parser.
\<close>

definition blockStartLossless ::
  "string \<Rightarrow> int \<Rightarrow> LosslessComment list \<Rightarrow> LosslessParser \<Rightarrow>
   (LosslessComment list \<times> LosslessParser) ObjHead option" where
  "blockStartLossless key bodyIndent preKeyComments s =
     (case NextContentLineLossless s of
        None \<Rightarrow> None
      | Some (ec, hasLine, s1) \<Rightarrow>
          if ec \<noteq> OK then Some (HeadFail ec ([], s1))
          else if \<not> hasLine then
            (case FinishIn InconsistentIndent
                    (Some (''Expected indented block after ':'' @ [SQUOTE])) s1 of
               (ec2, s2) \<Rightarrow> Some (HeadFail ec2 ([], s2)))
          else if last (mIndentStack s1) \<le> bodyIndent then
            (case FinishIn InconsistentIndent
                    (Some ''Expected deeper indentation for block value'') s1 of
               (ec2, s2) \<Rightarrow> Some (HeadFail ec2 ([], s2)))
          else Some (HeadValue key True (last (mIndentStack s1)) (preKeyComments, s1)))"

definition indentedHeadLossless ::
  "int \<Rightarrow> int \<Rightarrow> LosslessParser \<Rightarrow> (LosslessComment list \<times> LosslessParser) ObjHead option" where
  "indentedHeadLossless bodyIndent parentIndent s0 =
     (let s = SkipInlineSpaces s0 in
      if EndOfFile s then Some (HeadBreak ([], s))
      else if Peek s = HASH \<or> Peek s = CR \<or> Peek s = LF then
        (case nextLineCtlLossless bodyIndent emptyLossless s of
           None \<Rightarrow> None
         | Some (LoopFail ec (_, s1)) \<Rightarrow> Some (HeadFail ec ([], s1))
         | Some (LoopBreak (_, s1)) \<Rightarrow> Some (HeadBreak ([], s1))
         | Some (LoopContinue (_, s1)) \<Rightarrow> Some (HeadContinue ([], s1)))
      else if \<not> IsIdentifierStart (Peek s) \<and> Peek s \<noteq> DQUOTE \<and> Peek s \<noteq> SQUOTE
        then Some (HeadBreak ([], s))
      else
        (let preKeyComments = mPendingComments s in
         case ParseKey [] (s\<lparr>mPendingComments := []\<rparr>) of (ec, key, s1) \<Rightarrow>
         if ec \<noteq> OK then Some (HeadFail ec ([], s1))
         else
           (case Match CHR '':'' (SkipInlineSpaces s1) of (m, s2) \<Rightarrow>
            if \<not> m then
              (case FinishIn UnexpectedChar (Some (''Expected ':' in object pair'')) s2 of
                 (ec2, s3) \<Rightarrow> Some (HeadFail ec2 ([], s3)))
            else
              (let s3 = SkipInlineSpaces s2 in
               if Peek s3 = HASH
                 then blockStartLossless key bodyIndent preKeyComments (SkipToEOL s3)
               else if Peek s3 = CR \<or> Peek s3 = LF
                 then blockStartLossless key bodyIndent preKeyComments (ConsumeEOL s3)
               else Some (HeadValue key False parentIndent (preKeyComments, s3))))))"

text \<open>The same turn behind the \<^verbatim>\<open>emplace\<close> of a block value.\<close>

definition indentedAfterBlockLossless ::
  "int \<Rightarrow> LosslessParser \<Rightarrow> LosslessParser LoopCtl option" where
  "indentedAfterBlockLossless bodyIndent s0 =
     (let s1 = SkipInlineSpaces s0;
          s2 = (if Peek s1 = HASH then SkipToEOL s1 else s1)
      in
      if Peek s2 = CR \<or> Peek s2 = LF then
        (case NextContentLineLossless (ConsumeEOL s2) of
           None \<Rightarrow> None
         | Some (ec, hasLine, s3) \<Rightarrow>
             if ec \<noteq> OK then Some (LoopFail ec s3)
             else if \<not> hasLine then Some (LoopBreak s3)
             else if last (mIndentStack s3) < bodyIndent then Some (LoopBreak s3)
             else Some (LoopContinue s3))
      else if last (mIndentStack s2) < bodyIndent then Some (LoopBreak s2)
      else Some (LoopContinue s2))"

text \<open>The same turn behind the \<^verbatim>\<open>emplace\<close> of an inline value.\<close>

definition indentedAfterInlineLossless ::
  "int \<Rightarrow> LosslessValue \<Rightarrow> LosslessParser \<Rightarrow> (LosslessValue \<times> LosslessParser) LoopCtl option" where
  "indentedAfterInlineLossless bodyIndent out s0 =
     (let s = SkipInlineSpaces s0 in
      if Peek s = HASH then hashAfterValue bodyIndent True commentLastObjectItem out s
      else
        (case Match CHR '','' s of (m, s1) \<Rightarrow>
         if m then Some (LoopContinue (out, SkipInlineSpaces s1))
         else if Peek s1 = CR \<or> Peek s1 = LF
           then nextLineCtlLossless bodyIndent out (ConsumeEOL s1)
         else Some (LoopBreak (out, s1))))"

text \<open>
  \<^verbatim>\<open>ParseIndentedObjectBodyLossless(obj, outWrapper, parentIndent)\<close> returns the error
  code and both references.
\<close>

primrec ParseIndentedObjectBodyLossless ::
  "nat \<Rightarrow> LProduction \<Rightarrow> int \<Rightarrow> Object \<Rightarrow> LosslessValue \<Rightarrow> int \<Rightarrow> LosslessParser \<Rightarrow>
   (ErrorCode \<times> Object \<times> LosslessValue \<times> LosslessParser) option" where
  "ParseIndentedObjectBodyLossless 0 pv bodyIndent0 obj outWrapper parentIndent s = None"
| "ParseIndentedObjectBodyLossless (Suc n) pv bodyIndent0 obj outWrapper parentIndent s =
     (let bodyIndent = (if bodyIndent0 = - 1 then last (mIndentStack s) else bodyIndent0) in
      case indentedHeadLossless bodyIndent parentIndent s of
        None \<Rightarrow> None
      | Some (HeadBreak (_, s1)) \<Rightarrow> Some (OK, obj, outWrapper, s1)
      | Some (HeadContinue (_, s1)) \<Rightarrow>
          ParseIndentedObjectBodyLossless n pv bodyIndent obj outWrapper parentIndent s1
      | Some (HeadFail ec (_, s1)) \<Rightarrow> Some (ec, obj, outWrapper, s1)
      | Some (HeadValue key isBlock valueIndent (preKeyComments, s1)) \<Rightarrow>
          (case pv (set_leadingComments preKeyComments emptyLossless) valueIndent
                  (\<not> isBlock) s1 of
             None \<Rightarrow> None
           | Some (ec, child, s2) \<Rightarrow>
               if ec \<noteq> OK then Some (ec, obj, outWrapper, s2)
               else
                 (let out1 = set_objectItems (objectItems outWrapper @ [(key, child)])
                               outWrapper;
                      obj1 = emplace key (val child) obj
                  in
                  if isBlock then
                    (case indentedAfterBlockLossless bodyIndent s2 of
                       None \<Rightarrow> None
                     | Some (LoopBreak s3) \<Rightarrow> Some (OK, obj1, out1, s3)
                     | Some (LoopContinue s3) \<Rightarrow>
                         ParseIndentedObjectBodyLossless n pv bodyIndent obj1 out1
                           parentIndent s3
                     | Some (LoopFail ec3 s3) \<Rightarrow> Some (ec3, obj1, out1, s3))
                  else
                    (case indentedAfterInlineLossless bodyIndent out1 s2 of
                       None \<Rightarrow> None
                     | Some (LoopBreak (out2, s3)) \<Rightarrow> Some (OK, obj1, out2, s3)
                     | Some (LoopContinue (out2, s3)) \<Rightarrow>
                         ParseIndentedObjectBodyLossless n pv bodyIndent obj1 out2
                           parentIndent s3
                     | Some (LoopFail ec3 (out2, s3)) \<Rightarrow> Some (ec3, obj1, out2, s3)))))"

definition ParseIdentifierOrIndentedObjectLossless ::
  "nat \<Rightarrow> LProduction \<Rightarrow> LosslessValue \<Rightarrow> int \<Rightarrow> LosslessParser \<Rightarrow>
   (ErrorCode \<times> LosslessValue \<times> LosslessParser) option" where
  "ParseIdentifierOrIndentedObjectLossless n pv out currentIndent s =
     (case identifierHead s of (identifier, colon, s1) \<Rightarrow>
      if colon then
        (case ParseIndentedObjectBodyLossless n pv (- 1) [] out currentIndent s1 of
           None \<Rightarrow> None
         | Some (ec, object, out1, s2) \<Rightarrow>
             if ec \<noteq> OK then Some (ec, out1, s2)
             else Some (OK, set_val (VObject object) out1, s2))
      else Some (OK, set_val (identifierValue identifier) out, s1))"

subsection \<open>Values and the entry points\<close>

text \<open>A scalar production of the plain parser, whose result is stored on success only.\<close>

definition storeScalar ::
  "ErrorCode \<times> Value \<times> LosslessParser \<Rightarrow> LosslessValue \<Rightarrow>
   (ErrorCode \<times> LosslessValue \<times> LosslessParser) option" where
  "storeScalar r out =
     (case r of (ec, tempValue, s1) \<Rightarrow>
      if ec = OK then Some (ec, set_val tempValue out, s1) else Some (ec, out, s1))"

primrec ParseValueLossless :: "nat \<Rightarrow> LProduction" where
  "ParseValueLossless 0 = (\<lambda>out0 currentIndent consumePending s0. None)"
| "ParseValueLossless (Suc n) = (\<lambda>out0 currentIndent consumePending s0.
     let takePending = (consumePending \<and> mPendingComments s0 \<noteq> []);
         out = (if takePending
                then set_leadingComments (leadingComments out0 @ mPendingComments s0) out0
                else out0);
         s = (if takePending then s0\<lparr>mPendingComments := []\<rparr> else s0);
         c = Peek s
     in
     if c = CHR ''{''
       then ParseInlineObjectLossless n (ParseValueLossless n) (set_val (VObject []) out)
              currentIndent s
     else if c = CHR ''[''
       then ParseArrayLossless n (ParseValueLossless n) (set_val (VArray []) out)
              currentIndent s
     else if c = DQUOTE then storeScalar (ParseStringOrTriple VNull s) out
     else if c = SQUOTE then storeScalar (ParseStringSingle VNull s) out
     else if IsIdentifierStart c
       then ParseIdentifierOrIndentedObjectLossless n (ParseValueLossless n) out
              currentIndent s
     else if IsNumberStart c then storeScalar (ParseNumber VNull s) out
     else if EndOfFile s then
       (case FinishIn UnexpectedEnd (Some ''Unexpected end of input while parsing value'') s of
          (ec, s1) \<Rightarrow> Some (ec, out, s1))
     else
       (case FinishIn UnexpectedChar (Some ''Unexpected character while parsing value'') s of
          (ec, s1) \<Rightarrow> Some (ec, out, s1)))"

text \<open>
  \<^verbatim>\<open>LosslessParser::Parse(out, error)\<close>. The caller's \<^verbatim>\<open>LosslessValue\<close> goes to
  \<^verbatim>\<open>ParseValueLossless\<close> itself.
\<close>

definition LosslessParser_Parse ::
  "nat \<Rightarrow> LosslessValue \<Rightarrow> Error option \<Rightarrow> LosslessParser \<Rightarrow>
   (ErrorCode \<times> LosslessValue \<times> Error option \<times> LosslessParser) option" where
  "LosslessParser_Parse n out err p0 =
     (let p1 = p0\<lparr>mError := noError\<rparr> in
      case ValidateUTF8 (mSrc p1) True 0 of (valid, badIndex, badLine, badCol) \<Rightarrow>
      if \<not> valid then
        (case Finish InvalidUtf8 err (Some ''Invalid UTF-8 encoding'')
                (p1\<lparr>mPos := badIndex, mLine := badLine, mCol := badCol\<rparr>) of
           (ec, err1, p2) \<Rightarrow> Some (ec, out, err1, p2))
      else
        (let p2 = (if hasBOM (mSrc p1) then p1\<lparr>mPos := 3, mCol := 1, mLine := 1\<rparr> else p1) in
         case NextContentLineLossless p2 of
           None \<Rightarrow> None
         | Some (errorCode, hasLine, p3) \<Rightarrow>
             if errorCode \<noteq> OK then
               (case Finish errorCode err None p3 of (ec, err1, p4) \<Rightarrow> Some (ec, out, err1, p4))
             else if \<not> hasLine then
               (case Finish UnexpectedEnd err (Some ''Empty document'') p3 of
                  (ec, err1, p4) \<Rightarrow> Some (ec, out, err1, p4))
             else
               (case ParseValueLossless n out 0 True p3 of
                  None \<Rightarrow> None
                | Some (errorCode2, out1, p4) \<Rightarrow>
                    if errorCode2 \<noteq> OK then
                      (case Finish errorCode2 err None p4 of
                         (ec, err1, p5) \<Rightarrow> Some (ec, out1, err1, p5))
                    else
                      (let p5 = SkipTrailing p4;
                           out2 = (if mPendingComments p5 \<noteq> []
                                   then set_trailingComments
                                          (trailingComments out1 @ mPendingComments p5) out1
                                   else out1);
                           p6 = p5\<lparr>mPendingComments := [], mIndentStack := [0]\<rparr>
                       in
                       if \<not> EndOfFile p6 then
                         (case Finish UnexpectedChar err
                                 (Some ''Trailing characters after top-level value'') p6 of
                            (ec, err1, p7) \<Rightarrow> Some (ec, out2, err1, p7))
                       else Some (OK, out2, map_option (\<lambda>_. noError) err, p6)))))"

text \<open>The free function \<^verbatim>\<open>ParseLossless(src, out, error)\<close>.\<close>

definition ParseLossless ::
  "nat \<Rightarrow> string \<Rightarrow> LosslessValue \<Rightarrow> Error option \<Rightarrow>
   (ErrorCode \<times> LosslessValue \<times> Error option) option" where
  "ParseLossless n src out err =
     map_option (\<lambda>(ec, out', err', p). (ec, out', err'))
       (LosslessParser_Parse n out err (newLosslessParser src))"

section \<open>The canonical writer\<close>

record WriteOptions =
  indentWidth :: int
  sortObjectKeys :: bool

definition defaultOptions :: WriteOptions where
  "defaultOptions = \<lparr>indentWidth = 2, sortObjectKeys = False\<rparr>"

datatype WriteContext = Root | InObject | InArray

text \<open>
  The writers append to \<^verbatim>\<open>std::string& out\<close>: each takes the text written so far and
  returns the longer one. \<^verbatim>\<open>WriteIndent\<close> casts \<^verbatim>\<open>level * width\<close> to \<^verbatim>\<open>std::size_t\<close>;
  a negative product becomes a count beyond \<^verbatim>\<open>max_size()\<close>, for which \<^verbatim>\<open>append\<close> throws
  \<^verbatim>\<open>std::length_error\<close>. \<open>None\<close> is that exception, which no writer catches.
\<close>

definition WriteIndent :: "string \<Rightarrow> int \<Rightarrow> int \<Rightarrow> string option" where
  "WriteIndent out level width =
     (if level * width < 0 then None else Some (out @ replicate (nat (level * width)) SPC))"

text \<open>A loop over items that knows its first turn and stops at an exception.\<close>

primrec forEach ::
  "('x \<Rightarrow> bool \<Rightarrow> string \<Rightarrow> string option) \<Rightarrow> 'x list \<Rightarrow> bool \<Rightarrow> string \<Rightarrow> string option" where
  "forEach body [] first out = Some out"
| "forEach body (x # xs) first out =
     (case body x first out of None \<Rightarrow> None | Some out1 \<Rightarrow> forEach body xs False out1)"

text \<open>The same for the loops that cannot throw.\<close>

primrec forEachTotal ::
  "('x \<Rightarrow> bool \<Rightarrow> string \<Rightarrow> string) \<Rightarrow> 'x list \<Rightarrow> bool \<Rightarrow> string \<Rightarrow> string" where
  "forEachTotal body [] first out = out"
| "forEachTotal body (x # xs) first out = forEachTotal body xs False (body x first out)"

subsection \<open>Scalars\<close>

text \<open>The decimal digits of a number that is not negative.\<close>

function natDigits :: "int \<Rightarrow> string" where
  "natDigits n =
     (if n < 10 then [char_of (48 + n)]
      else natDigits (n div 10) @ [char_of (48 + n mod 10)])"
  by pat_completeness auto
termination
  by (relation "measure nat") auto

declare natDigits.simps [simp del]

text \<open>
  Modelled from the C++ standard: \<^verbatim>\<open>std::to_string(double)\<close> is a library function,
  not code of this repository; it prints as \<^verbatim>\<open>%f\<close> does. A finite value is printed
  with six digits behind the point, rounded from the exact value of the \<^verbatim>\<open>double\<close>,
  a tie to the even digit; an infinity as \<^verbatim>\<open>inf\<close>, the style of the implementations in
  use.
\<close>

definition fixed6 :: "rat \<Rightarrow> string" where
  "fixed6 r =
     (let scaled = roundHalfEven (\<bar>r\<bar> * 1000000);
          frac = natDigits (scaled mod 1000000)
      in (if r < 0 then ''-'' else []) @ natDigits (scaled div 1000000) @ ''.'' @
         replicate (6 - length frac) CHR ''0'' @ frac)"

definition to_string :: "double \<Rightarrow> string" where
  "to_string d =
     (case d of
        Finite r \<Rightarrow> fixed6 r
      | NegZero \<Rightarrow> ''-0.000000''
      | Infinity neg \<Rightarrow> if neg then ''-inf'' else ''inf'')"

definition escapeChar :: "char \<Rightarrow> string" where
  "escapeChar c =
     (if c = DQUOTE then [BACKSLASH, DQUOTE]
      else if c = BACKSLASH then [BACKSLASH, BACKSLASH]
      else if c = LF then [BACKSLASH, CHR ''n'']
      else if c = CR then [BACKSLASH, CHR ''r'']
      else if c = TAB then [BACKSLASH, CHR ''t'']
      else [c])"

definition WriteStringQuoted :: "string \<Rightarrow> string \<Rightarrow> string" where
  "WriteStringQuoted v out = out @ [DQUOTE] @ concat (map escapeChar v) @ [DQUOTE]"

definition IsSimpleScalar :: "Value \<Rightarrow> bool" where
  "IsSimpleScalar v =
     (case v of
        VNull \<Rightarrow> True
      | VBool _ \<Rightarrow> True
      | VNumber _ \<Rightarrow> True
      | VString t \<Rightarrow> LF \<notin> set t \<and> length t \<le> 32
      | _ \<Rightarrow> False)"

definition CanInlineArray :: "Array \<Rightarrow> bool" where
  "CanInlineArray array = (if length array > 3 then False else list_all IsSimpleScalar array)"

definition isObject :: "Value \<Rightarrow> bool" where
  "isObject v = (case v of VObject _ \<Rightarrow> True | _ \<Rightarrow> False)"

definition isArray :: "Value \<Rightarrow> bool" where
  "isArray v = (case v of VArray _ \<Rightarrow> True | _ \<Rightarrow> False)"

definition asArray :: "Value \<Rightarrow> Array" where
  "asArray v = (case v of VArray a \<Rightarrow> a | _ \<Rightarrow> [])"

text \<open>
  The \<^verbatim>\<open>bareOK\<close> test that \<^verbatim>\<open>WriteObject\<close> spells out twice: its character tests are
  those of \<^verbatim>\<open>IsIdentifierStart\<close> and \<^verbatim>\<open>IsIdentifierChar\<close>.
\<close>

definition bareOK :: "string \<Rightarrow> bool" where
  "bareOK key = (key \<noteq> [] \<and> IsIdentifierStart (hd key) \<and> list_all IsIdentifierChar key)"

definition WriteKey :: "string \<Rightarrow> string \<Rightarrow> string" where
  "WriteKey key out = (if bareOK key then out @ key else WriteStringQuoted key out)"

text \<open>
  \<^verbatim>\<open>OrderedObjectItems\<close> and \<^verbatim>\<open>OrderedLosslessItems\<close>: the items in the order of
  iteration, or sorted by key, bytewise. \<^verbatim>\<open>std::sort\<close> may order equal keys either way;
  the model keeps them in their order.
\<close>

definition OrderedItems :: "(string \<times> 'v) list \<Rightarrow> bool \<Rightarrow> (string \<times> 'v) list" where
  "OrderedItems items sortKeys = (if sortKeys then sort_key fst items else items)"

subsection \<open>Values inside an array\<close>

text \<open>
  The branch of \<^verbatim>\<open>WriteObject\<close> for the context \<open>InArray\<close>: braces, the pairs
  separated by commas, each value written by the writer that comes with it.
\<close>

definition WriteObjectBraced ::
  "(string \<times> (string \<Rightarrow> WriteOptions \<Rightarrow> string)) list \<Rightarrow> string \<Rightarrow> WriteOptions \<Rightarrow> string" where
  "WriteObjectBraced items out options =
     forEachTotal
       (\<lambda>(key, w) first o1. w (WriteKey key (if first then o1 else o1 @ '', '') @ '': '') options)
       (OrderedItems items (sortObjectKeys options)) True (out @ ''{'') @ ''}''"

text \<open>
  \<^verbatim>\<open>WriteValueInline\<close>. An array or object pairs each child with the writer for it,
  which is how the recursion reaches the children.
\<close>

fun WriteValueInline :: "Value \<Rightarrow> string \<Rightarrow> WriteOptions \<Rightarrow> string" where
  "WriteValueInline VNull = (\<lambda>out options. out @ ''null'')"
| "WriteValueInline (VBool b) = (\<lambda>out options. out @ (if b then ''true'' else ''false''))"
| "WriteValueInline (VNumber d) = (\<lambda>out options. out @ to_string d)"
| "WriteValueInline (VString t) = (\<lambda>out options. WriteStringQuoted t out)"
| "WriteValueInline (VArray a) = (\<lambda>out options.
     forEachTotal (\<lambda>w first o1. w (if first then o1 else o1 @ '', '') options)
       (map WriteValueInline a) True (out @ ''['') @ '']'')"
| "WriteValueInline (VObject object) = (\<lambda>out options.
     WriteObjectBraced (map (\<lambda>(key, v). (key, WriteValueInline v)) object) out options)"

subsection \<open>Objects, arrays, values\<close>

type_synonym Writer = "string \<Rightarrow> int \<Rightarrow> WriteOptions \<Rightarrow> WriteContext \<Rightarrow> string option"

text \<open>
  The branch of \<^verbatim>\<open>WriteObject\<close> for the other contexts: a block of \<^verbatim>\<open>key: value\<close>
  lines. An item is the key, the value and the writer for the value.
\<close>

definition WriteObjectBlock ::
  "(string \<times> Value \<times> Writer) list \<Rightarrow> string \<Rightarrow> int \<Rightarrow> WriteOptions \<Rightarrow> bool \<Rightarrow> string option" where
  "WriteObjectBlock items out indentLevel options indentFirstLine =
     (if items = [] then
        (case (if indentFirstLine then WriteIndent out indentLevel (indentWidth options)
               else Some out) of
           None \<Rightarrow> None
         | Some o1 \<Rightarrow> Some (o1 @ ''{}''))
      else
        forEach
          (\<lambda>(key, v, w) first o1.
             case (if \<not> (first \<and> \<not> indentFirstLine)
                   then WriteIndent (if first then o1 else o1 @ [LF]) indentLevel
                          (indentWidth options)
                   else Some (if first then o1 else o1 @ [LF])) of
               None \<Rightarrow> None
             | Some o2 \<Rightarrow>
                 if isObject v \<or> (isArray v \<and> \<not> CanInlineArray (asArray v))
                 then w (WriteKey key o2 @ '': '' @ [LF]) (indentLevel + 1) options InObject
                 else w (WriteKey key o2 @ '': '') indentLevel options InObject)
          (OrderedItems items (sortObjectKeys options)) True out)"

text \<open>
  \<^verbatim>\<open>WriteArray\<close>. An item is the element and the writer for it in the context
  \<open>InArray\<close>, which for an object is the branch of \<^verbatim>\<open>WriteObject\<close> with the braces.
\<close>

definition WriteArray ::
  "(Value \<times> Writer) list \<Rightarrow> string \<Rightarrow> int \<Rightarrow> WriteOptions \<Rightarrow> WriteContext \<Rightarrow> string option" where
  "WriteArray items out indentLevel options ctx =
     (if items = [] then Some (out @ ''[]'')
      else if list_all (\<lambda>(v, w). IsSimpleScalar v) items \<and> length items \<le> 3 then
        (case forEach
                (\<lambda>(v, w) first o1.
                   w (if first then o1 else o1 @ '', '') indentLevel options InArray)
                items True (out @ ''['') of
           None \<Rightarrow> None
         | Some o1 \<Rightarrow> Some (o1 @ '']''))
      else
        (case (if ctx \<noteq> InArray then WriteIndent out indentLevel (indentWidth options)
               else Some out) of
           None \<Rightarrow> None
         | Some o1 \<Rightarrow>
             (case forEach
                     (\<lambda>(v, w) first o2.
                        case WriteIndent (if first then o2 else o2 @ [LF]) (indentLevel + 1)
                               (indentWidth options) of
                          None \<Rightarrow> None
                        | Some o3 \<Rightarrow> w o3 (indentLevel + 1) options InArray)
                     items True (o1 @ ''['' @ [LF]) of
                None \<Rightarrow> None
              | Some o2 \<Rightarrow>
                  (case WriteIndent (o2 @ [LF]) indentLevel (indentWidth options) of
                     None \<Rightarrow> None
                   | Some o3 \<Rightarrow> Some (o3 @ '']'')))))"

definition tripleQuotes :: string where
  "tripleQuotes = [DQUOTE, DQUOTE, DQUOTE]"

fun WriteValue :: "Value \<Rightarrow> Writer" where
  "WriteValue VNull = (\<lambda>out indentLevel options ctx. Some (out @ ''null''))"
| "WriteValue (VBool b) =
     (\<lambda>out indentLevel options ctx. Some (out @ (if b then ''true'' else ''false'')))"
| "WriteValue (VNumber d) = (\<lambda>out indentLevel options ctx. Some (out @ to_string d))"
| "WriteValue (VString t) = (\<lambda>out indentLevel options ctx.
     if LF \<in> set t then Some (out @ tripleQuotes @ t @ tripleQuotes)
     else Some (WriteStringQuoted t out))"
| "WriteValue (VArray a) = (\<lambda>out indentLevel options ctx.
     WriteArray (map (\<lambda>v. (v, WriteValue v)) a) out indentLevel options ctx)"
| "WriteValue (VObject object) = (\<lambda>out indentLevel options ctx.
     if ctx = InArray
     then Some (WriteObjectBraced (map (\<lambda>(key, v). (key, WriteValueInline v)) object)
                  out options)
     else WriteObjectBlock (map (\<lambda>(key, v). (key, v, WriteValue v)) object) out indentLevel
            options True)"

definition ToString :: "Value \<Rightarrow> WriteOptions \<Rightarrow> string option" where
  "ToString v options = WriteValue v [] 0 options Root"

section \<open>The lossless writer\<close>

text \<open>
  The loop of \<^verbatim>\<open>WriteCommentLines\<close>, with its flag \<^verbatim>\<open>prevNonEmpty\<close>. The indent of a
  comment is in columns, so \<^verbatim>\<open>WriteIndent\<close> gets the width \<open>1\<close>.
\<close>

primrec WriteCommentLines_loop :: "LosslessComment list \<Rightarrow> bool \<Rightarrow> string \<Rightarrow> string option" where
  "WriteCommentLines_loop [] prevNonEmpty out = Some out"
| "WriteCommentLines_loop (l # ls) prevNonEmpty out =
     (let o1 = (if prevNonEmpty \<and> commentText l \<noteq> [] then out @ [LF] else out) in
      if commentText l = [] then WriteCommentLines_loop ls False (o1 @ [LF])
      else
        (case WriteIndent o1 (indent l) 1 of
           None \<Rightarrow> None
         | Some o2 \<Rightarrow> WriteCommentLines_loop ls True (o2 @ commentText l @ [LF])))"

definition WriteCommentLines :: "LosslessComment list \<Rightarrow> string \<Rightarrow> WriteOptions \<Rightarrow> string option" where
  "WriteCommentLines lines out options = WriteCommentLines_loop lines False out"

text \<open>The two lambdas of \<^verbatim>\<open>WriteLosslessValue\<close>.\<close>

function trimTrailingSpaces :: "string \<Rightarrow> string" where
  "trimTrailingSpaces v =
     (if v \<noteq> [] \<and> (last v = SPC \<or> last v = TAB) then trimTrailingSpaces (butlast v) else v)"
  by pat_completeness auto
termination
  by (relation "measure length") auto

declare trimTrailingSpaces.simps [simp del]

definition writeInlineComment :: "string \<Rightarrow> string \<Rightarrow> string" where
  "writeInlineComment v out = (if v \<noteq> [] then out @ '' #'' @ v else out)"

text \<open>
  A loop over the items of a node that carries the children of the node beside the
  text: the writer reaches the children through references and changes them, so the
  children as the loop leaves them are part of its result. The flag that the body
  gets is \<^verbatim>\<open>index + 1 < size\<close>.
\<close>

primrec forEachChild ::
  "('x \<Rightarrow> bool \<Rightarrow> 'c list \<times> string \<Rightarrow> ('c list \<times> string) option) \<Rightarrow> 'x list \<Rightarrow>
   'c list \<times> string \<Rightarrow> ('c list \<times> string) option" where
  "forEachChild body [] st = Some st"
| "forEachChild body (x # xs) st =
     (case body x (xs \<noteq> []) st of None \<Rightarrow> None | Some st1 \<Rightarrow> forEachChild body xs st1)"

type_synonym LosslessWriter =
  "string \<Rightarrow> int \<Rightarrow> WriteOptions \<Rightarrow> WriteContext \<Rightarrow> (LosslessValue \<times> string) option"

text \<open>
  A turn of the loop over \<^verbatim>\<open>arrayItems\<close>: an item is the index of a child and the
  writer for that child, whose result takes the place of the child.
\<close>

definition WriteLosslessArrayItem ::
  "int \<Rightarrow> WriteOptions \<Rightarrow> nat \<times> LosslessWriter \<Rightarrow> bool \<Rightarrow> LosslessValue list \<times> string \<Rightarrow>
   (LosslessValue list \<times> string) option" where
  "WriteLosslessArrayItem indentLevel options item notLast st =
     (case item of (i, w) \<Rightarrow>
      case st of (cs, o1) \<Rightarrow>
      case w o1 (indentLevel + 1) options InArray of
        None \<Rightarrow> None
      | Some (child', o2) \<Rightarrow> Some (cs[i := child'], if notLast then o2 @ [LF] else o2))"

definition WriteLosslessArrayItems ::
  "(nat \<times> LosslessWriter) list \<Rightarrow> LosslessValue list \<Rightarrow> string \<Rightarrow> int \<Rightarrow> WriteOptions \<Rightarrow>
   (LosslessValue list \<times> string) option" where
  "WriteLosslessArrayItems items children out indentLevel options =
     forEachChild (WriteLosslessArrayItem indentLevel options) items (children, out)"

text \<open>
  A turn of the loop over the items of an object in the context \<open>InArray\<close>: the
  value is written by the canonical \<^verbatim>\<open>WriteValue\<close>, the child is read only.
\<close>

definition WriteLosslessBracedItem ::
  "int \<Rightarrow> WriteOptions \<Rightarrow> string \<times> LosslessValue \<Rightarrow> bool \<Rightarrow> unit list \<times> string \<Rightarrow>
   (unit list \<times> string) option" where
  "WriteLosslessBracedItem indentLevel options item notLast st =
     (case item of (key, child) \<Rightarrow>
      case st of (cs, o1) \<Rightarrow>
      case WriteCommentLines (leadingComments child) o1 options of
        None \<Rightarrow> None
      | Some o2 \<Rightarrow>
          (case WriteIndent o2 (indentLevel + 1) (indentWidth options) of
             None \<Rightarrow> None
           | Some o3 \<Rightarrow>
               (case WriteValue (val child) (o3 @ key @ '': '') (indentLevel + 1) options
                       InObject of
                  None \<Rightarrow> None
                | Some o4 \<Rightarrow>
                    Some (cs, if notLast then writeInlineComment (inlineComment child) o4 @ [LF]
                              else writeInlineComment (inlineComment child) o4))))"

definition WriteLosslessBracedItems ::
  "(string \<times> LosslessValue) list \<Rightarrow> string \<Rightarrow> int \<Rightarrow> WriteOptions \<Rightarrow> string option" where
  "WriteLosslessBracedItems items out indentLevel options =
     map_option snd (forEachChild (WriteLosslessBracedItem indentLevel options) items ([], out))"

text \<open>
  A turn of the loop over the items of an object in the other contexts. An item is the
  key, the index of its child in \<^verbatim>\<open>objectItems\<close>, the child, and the writer for the
  child with its \<^verbatim>\<open>leadingComments\<close> cleared. Behind the call the comments of the
  child are put back, and the inline comment is read from the child as it then stands.
\<close>

definition WriteLosslessBlockItem ::
  "int \<Rightarrow> WriteOptions \<Rightarrow> string \<times> nat \<times> LosslessValue \<times> LosslessWriter \<Rightarrow> bool \<Rightarrow>
   (string \<times> LosslessValue) list \<times> string \<Rightarrow> ((string \<times> LosslessValue) list \<times> string) option" where
  "WriteLosslessBlockItem indentLevel options item notLast st =
     (case item of (key, i, child, w) \<Rightarrow>
      case st of (cs, o1) \<Rightarrow>
      case WriteCommentLines (leadingComments child) o1 options of
        None \<Rightarrow> None
      | Some o2 \<Rightarrow>
          (case WriteIndent o2 indentLevel (indentWidth options) of
             None \<Rightarrow> None
           | Some o3 \<Rightarrow>
               (case (if isObject (val child) \<or> isArray (val child) then
                        (case w (o3 @ key @ '':'' @ [LF]) (indentLevel + 1) options InObject of
                           None \<Rightarrow> None
                         | Some (child', o4) \<Rightarrow>
                             Some (set_leadingComments (leadingComments child) child', o4))
                      else
                        (case WriteValue (val child) (o3 @ key @ '':'' @ '' '') indentLevel
                                options InObject of
                           None \<Rightarrow> None
                         | Some o4 \<Rightarrow> Some (child, o4))) of
                  None \<Rightarrow> None
                | Some (child1, o4) \<Rightarrow>
                    (let o5 = writeInlineComment (trimTrailingSpaces (inlineComment child1)) o4
                     in Some (cs[i := (key, child1)], if notLast then o5 @ [LF] else o5)))))"

definition WriteLosslessBlockItems ::
  "(string \<times> nat \<times> LosslessValue \<times> LosslessWriter) list \<Rightarrow> (string \<times> LosslessValue) list \<Rightarrow>
   string \<Rightarrow> int \<Rightarrow> WriteOptions \<Rightarrow> ((string \<times> LosslessValue) list \<times> string) option" where
  "WriteLosslessBlockItems items children out indentLevel options =
     forEachChild (WriteLosslessBlockItem indentLevel options) items (children, out)"

text \<open>The children of a node, each with its index.\<close>

definition indexed :: "'a list \<Rightarrow> (nat \<times> 'a) list" where
  "indexed xs = zip [0..<length xs] xs"

lemma size_set_leadingComments [simp]: "size (set_leadingComments lc x) = size x"
  by (cases x) (simp add: set_leadingComments_def)

text \<open>
  \<^verbatim>\<open>WriteLosslessValue\<close> returns the node as the call leaves it and the text. A node
  pairs each child with the writer for it, which is how the recursion reaches the
  children.
\<close>

lemma indexed_mem: "(i, x) \<in> set (indexed xs) \<Longrightarrow> x \<in> set xs"
  by (auto simp: indexed_def dest: set_zip_rightD)

lemma size_arrayItem: "x \<in> set ai \<Longrightarrow> size x < Suc (size_list size ai + n)"
  by (induction ai) auto

lemma size_objectItem:
  "(k, c) \<in> set oi \<Longrightarrow> size c < Suc (n + size_list (size_prod (\<lambda>x. 0) size) oi)"
  by (induction oi) auto

function WriteLosslessValue :: "LosslessValue \<Rightarrow> LosslessWriter" where
  "WriteLosslessValue (LosslessValue v lc ic ai oi tc) = (\<lambda>out indentLevel options ctx.
     case WriteCommentLines lc out options of
       None \<Rightarrow> None
     | Some o1 \<Rightarrow>
         if isArray v \<and> ai \<noteq> [] then
           (case WriteIndent o1 indentLevel (indentWidth options) of
              None \<Rightarrow> None
            | Some o2 \<Rightarrow>
                (case WriteLosslessArrayItems (indexed (map WriteLosslessValue ai)) ai
                        (o2 @ ''['' @ [LF]) indentLevel options of
                   None \<Rightarrow> None
                 | Some (ai', o3) \<Rightarrow>
                     (case WriteIndent (o3 @ [LF]) indentLevel (indentWidth options) of
                        None \<Rightarrow> None
                      | Some o4 \<Rightarrow> Some (LosslessValue v lc ic ai' oi tc, o4 @ '']''))))
         else if isObject v \<and> oi \<noteq> [] then
           (if ctx = InArray then
              (case WriteLosslessBracedItems (OrderedItems oi (sortObjectKeys options))
                      (o1 @ ''{'' @ [LF]) indentLevel options of
                 None \<Rightarrow> None
               | Some o2 \<Rightarrow>
                   (case WriteIndent (o2 @ [LF]) indentLevel (indentWidth options) of
                      None \<Rightarrow> None
                    | Some o3 \<Rightarrow> Some (LosslessValue v lc ic ai oi tc, o3 @ ''}'')))
            else
              (case WriteLosslessBlockItems
                      (OrderedItems
                         (map (\<lambda>(i, key, child).
                                 (key, i, child,
                                  WriteLosslessValue (set_leadingComments [] child)))
                            (indexed oi))
                         (sortObjectKeys options))
                      oi o1 indentLevel options of
                 None \<Rightarrow> None
               | Some (oi', o2) \<Rightarrow> Some (LosslessValue v lc ic ai oi' tc, o2)))
         else
           (case WriteIndent o1 indentLevel (indentWidth options) of
              None \<Rightarrow> None
            | Some o2 \<Rightarrow>
                (case WriteValue v o2 indentLevel options ctx of
                   None \<Rightarrow> None
                 | Some o3 \<Rightarrow>
                     Some (LosslessValue v lc ic ai oi tc, writeInlineComment ic o3))))"
  by pat_completeness auto
termination
proof (relation "measure size", goal_cases)
  case 1
  show ?case by simp
next
  case (2 v lc ic ai oi tc out indentLevel options ctx o1 o2 x)
  then show ?case using size_arrayItem [of x ai] by simp
next
  case (3 v lc ic ai oi tc out indentLevel options ctx o1 item i kc key child)
  then have "(key, child) \<in> set oi" using indexed_mem [of i "(key, child)" oi] by simp
  then show ?case using size_objectItem [of key child oi "size_list size ai"] by simp
qed

text \<open>
  \<^verbatim>\<open>ToStringLossless(value, options)\<close>: the text, and beside it the caller's tree as
  the call leaves it.
\<close>

definition ToStringLossless :: "LosslessValue \<Rightarrow> WriteOptions \<Rightarrow> (LosslessValue \<times> string) option" where
  "ToStringLossless v options = WriteLosslessValue v [] 0 options Root"

section \<open>Documents without content\<close>

text \<open>
  Following the wording of the specification: an input that holds only
  whitespace (space, tab, carriage return, line feed) and comments (from \<^verbatim>\<open>#\<close> to the
  end of its line). \<open>inComment\<close> says whether the text begins inside a comment.
\<close>

fun blankFrom :: "bool \<Rightarrow> string \<Rightarrow> bool" where
  "blankFrom inComment [] = True"
| "blankFrom inComment (c # cs) =
     (if inComment then blankFrom (c \<noteq> LF) cs
      else if c = HASH then blankFrom True cs
      else (c = SPC \<or> c = TAB \<or> c = CR \<or> c = LF) \<and> blankFrom False cs)"

definition blankDocument :: "string \<Rightarrow> bool" where
  "blankDocument src = blankFrom False src"

text \<open>The method \<^verbatim>\<open>Parse\<close> called twice on one parser, each time with a fresh \<^verbatim>\<open>Value\<close>.\<close>

definition Parse_twice ::
  "nat \<Rightarrow> string \<Rightarrow> ((ErrorCode \<times> Value) \<times> (ErrorCode \<times> Value)) option" where
  "Parse_twice n src =
     (case Parser_Parse n VNull None (newParser src) of
        None \<Rightarrow> None
      | Some (ec1, out1, err1, p1) \<Rightarrow>
          (case Parser_Parse n VNull None p1 of
             None \<Rightarrow> None
           | Some (ec2, out2, err2, p2) \<Rightarrow> Some ((ec1, out1), (ec2, out2))))"

section \<open>Notions of the specification\<close>

text \<open>
  Following the wording of the specification, not the code: a \<^verbatim>\<open>\uXXXX\<close> escape at
  an index of the text whose four hex digits give a value in a range, with the high
  surrogates \<^verbatim>\<open>D800\<close> to \<^verbatim>\<open>DBFF\<close> and the low surrogates \<^verbatim>\<open>DC00\<close> to \<^verbatim>\<open>DFFF\<close>.
\<close>

definition hexQuad :: "string \<Rightarrow> nat \<Rightarrow> 32 word option" where
  "hexQuad src i =
     (if i + 4 \<le> length src \<and> list_all (\<lambda>c. 0 \<le> HexValue c) (take 4 (drop i src))
      then Some (foldl (\<lambda>a c. a * 16 + word_of_int (HexValue c)) 0 (take 4 (drop i src)))
      else None)"

definition unicodeEscapeIn :: "string \<Rightarrow> nat \<Rightarrow> 32 word \<Rightarrow> 32 word \<Rightarrow> bool" where
  "unicodeEscapeIn src i lo hi =
     (i + 1 < length src \<and> src ! i = BACKSLASH \<and> src ! (i + 1) = CHR ''u'' \<and>
      (case hexQuad src (i + 2) of None \<Rightarrow> False | Some v \<Rightarrow> lo \<le> v \<and> v \<le> hi))"

definition highSurrogateEscapeAt :: "string \<Rightarrow> nat \<Rightarrow> bool" where
  "highSurrogateEscapeAt src i = unicodeEscapeIn src i 0xD800 0xDBFF"

definition lowSurrogateEscapeAt :: "string \<Rightarrow> nat \<Rightarrow> bool" where
  "lowSurrogateEscapeAt src i = unicodeEscapeIn src i 0xDC00 0xDFFF"

text \<open>
  Following the wording of the specification: the count of leading spaces of the line
  that begins at an index, and a parser whose cursor is in front of \<open>k\<close> leading spaces
  that are followed by the character \<open>c\<close>. A character that is neither blank nor the
  start of a comment nor a line end makes a content line.
\<close>

definition leadingSpaces :: "string \<Rightarrow> nat \<Rightarrow> nat" where
  "leadingSpaces src i = length (takeWhile (\<lambda>c. c = SPC) (drop i src))"

definition isContentChar :: "char \<Rightarrow> bool" where
  "isContentChar c = (c \<noteq> SPC \<and> c \<noteq> TAB \<and> c \<noteq> HASH \<and> c \<noteq> CR \<and> c \<noteq> LF \<and> c \<noteq> NUL)"

definition lineStartsWith :: "'a Parser_scheme \<Rightarrow> nat \<Rightarrow> char \<Rightarrow> bool" where
  "lineStartsWith s k c =
     (mPos s < length (mSrc s) \<and> k = leadingSpaces (mSrc s) (mPos s) \<and>
      mPos s + k < length (mSrc s) \<and> mSrc s ! (mPos s + k) = c)"



text \<open>
  The pairs that \<^verbatim>\<open>objectItems\<close> records, each key with the plain value of its child.
\<close>

definition itemValues :: "LosslessValue \<Rightarrow> (string \<times> Value) list" where
  "itemValues x = map (\<lambda>(k, c). (k, val c)) (objectItems x)"

section \<open>Lemmas on the cursor\<close>

lemma drop_pos: "mPos s < length (mSrc s) \<Longrightarrow> drop (mPos s) (mSrc s) = Peek s # drop (Suc (mPos s)) (mSrc s)"
  by (simp add: Peek_def Cons_nth_drop_Suc)

lemma Get_state: "mPos s < length (mSrc s) \<Longrightarrow> mPos (snd (Get s)) = Suc (mPos s)"
  by (simp add: Get_pos)

lemma SkipToEOL_blank:
  "blankFrom b (drop (mPos s) (mSrc s)) \<Longrightarrow> blankFrom False (drop (mPos (SkipToEOL s)) (mSrc s))"
proof (induction s arbitrary: b rule: SkipToEOL.induct)
  case (1 s)
  show ?case
  proof (cases "EndOfFile s")
    case True
    then show ?thesis by (subst SkipToEOL.simps) (simp add: EndOfFile_def)
  next
    case False
    then have lt: "mPos s < length (mSrc s)" by (simp add: EndOfFile_def)
    obtain c s1 where g: "Get s = (c, s1)" by (cases "Get s")
    have c: "c = Peek s" using g Get_fst [of s] by simp
    have s1: "mPos s1 = Suc (mPos s)" "mSrc s1 = mSrc s"
      using g Get_state [OF lt] Get_src [of s] by simp_all
    have d: "blankFrom b (c # drop (Suc (mPos s)) (mSrc s))"
      using "1.prems" drop_pos [OF lt] c by simp
    show ?thesis
    proof (cases "c = LF")
      case True
      then have "blankFrom False (drop (Suc (mPos s)) (mSrc s))"
        using d by (cases b) auto
      then show ?thesis using False g True s1 by (subst SkipToEOL.simps) simp
    next
      case F: False
      have "\<exists>b'. blankFrom b' (drop (mPos s1) (mSrc s1))"
        using d F s1 by (cases b) (auto split: if_splits)
      then obtain b' where "blankFrom b' (drop (mPos s1) (mSrc s1))" ..
      from "1.IH" [OF False g [symmetric] F this]
      show ?thesis using False g F s1 by (subst SkipToEOL.simps) simp
    qed
  qed
qed

lemma SkipToEOL_le: "mPos s \<le> length (mSrc s) \<Longrightarrow> mPos (SkipToEOL s) \<le> length (mSrc s)"
proof (induction s rule: SkipToEOL.induct)
  case (1 s)
  show ?case
  proof (cases "EndOfFile s")
    case True
    then show ?thesis using "1.prems" by (subst SkipToEOL.simps) simp
  next
    case False
    then have lt: "mPos s < length (mSrc s)" by (simp add: EndOfFile_def)
    obtain c s1 where g: "Get s = (c, s1)" by (cases "Get s")
    have s1: "mPos s1 = Suc (mPos s)" "mSrc s1 = mSrc s"
      using g Get_state [OF lt] Get_src [of s] by simp_all
    show ?thesis
    proof (cases "c = LF")
      case True
      then show ?thesis using False g s1 lt by (subst SkipToEOL.simps) simp
    next
      case F: False
      have "mPos (SkipToEOL s1) \<le> length (mSrc s1)"
        using "1.IH" [OF False g [symmetric] F] s1 lt by simp
      then show ?thesis using False g F s1 by (subst SkipToEOL.simps) simp
    qed
  qed
qed

lemma SkipWS_blank:
  "blankFrom False (drop (mPos s) (mSrc s)) \<Longrightarrow> mPos s \<le> length (mSrc s) \<Longrightarrow>
   mPos (SkipWhitespaceAndComments s) = length (mSrc s) \<and> mSrc (SkipWhitespaceAndComments s) = mSrc s"
proof (induction s rule: SkipWhitespaceAndComments.induct)
  case (1 s)
  show ?case
  proof (cases "EndOfFile s")
    case True
    then show ?thesis using "1.prems" by (subst (1 2) SkipWhitespaceAndComments.simps) (simp add: EndOfFile_def)
  next
    case False
    then have lt: "mPos s < length (mSrc s)" by (simp add: EndOfFile_def)
    let ?c = "Peek s"
    let ?s1 = "snd (Get s)"
    have s1: "mPos ?s1 = Suc (mPos s)" "mSrc ?s1 = mSrc s"
      using Get_state [OF lt] by simp_all
    have d: "blankFrom False (?c # drop (Suc (mPos s)) (mSrc s))"
      using "1.prems"(1) drop_pos [OF lt] by simp
    consider (sp) "?c = SPC \<or> ?c = TAB" | (hash) "?c = HASH" | (cr) "?c = CR" | (lf) "?c = LF"
      using d by (auto split: if_splits)
    then show ?thesis
    proof cases
      case sp
      have b: "blankFrom False (drop (mPos ?s1) (mSrc ?s1))" using d sp s1 by auto
      have "mPos (SkipWhitespaceAndComments ?s1) = length (mSrc ?s1) \<and> mSrc (SkipWhitespaceAndComments ?s1) = mSrc ?s1"
        using "1.IH"(1) [OF False refl sp b] s1 lt by simp
      then show ?thesis using False sp s1 by (subst (1 2) SkipWhitespaceAndComments.simps) (simp add: Let_def)
    next
      case hash
      have b: "blankFrom False (drop (mPos (SkipToEOL s)) (mSrc (SkipToEOL s)))"
        using SkipToEOL_blank [OF "1.prems"(1)] by simp
      have le: "mPos (SkipToEOL s) \<le> length (mSrc (SkipToEOL s))"
        using SkipToEOL_le [OF "1.prems"(2)] by simp
      have n: "\<not> (?c = SPC \<or> ?c = TAB)" using hash by simp
      have "mPos (SkipWhitespaceAndComments (SkipToEOL s)) = length (mSrc (SkipToEOL s)) \<and>
            mSrc (SkipWhitespaceAndComments (SkipToEOL s)) = mSrc (SkipToEOL s)"
        using "1.IH"(2) [OF False refl n hash b le] .
      then show ?thesis using False hash by (subst (1 2) SkipWhitespaceAndComments.simps) (simp add: Let_def)
    next
      case cr
      let ?s2 = "if Peek ?s1 = LF then snd (Get ?s1) else ?s1"
      have b1: "blankFrom False (drop (mPos ?s1) (mSrc ?s1))" using d cr s1 by auto
      have s2: "mSrc ?s2 = mSrc s" "mPos ?s2 \<le> length (mSrc s)"
        using s1 lt Get_pos [of ?s1] by (auto split: if_splits)
      have b: "blankFrom False (drop (mPos ?s2) (mSrc ?s2))"
      proof (cases "Peek ?s1 = LF")
        case True
        then have lt1: "mPos ?s1 < length (mSrc ?s1)" by (auto simp: Peek_def split: if_splits)
        have "blankFrom False (Peek ?s1 # drop (Suc (mPos ?s1)) (mSrc ?s1))"
          using b1 drop_pos [OF lt1] by simp
        then show ?thesis using True Get_state [OF lt1] by simp
      next
        case False
        then show ?thesis using b1 by simp
      qed
      have n1: "\<not> (?c = SPC \<or> ?c = TAB)" and n2: "?c \<noteq> HASH" using cr by simp_all
      have "mPos (SkipWhitespaceAndComments ?s2) = length (mSrc ?s2) \<and>
            mSrc (SkipWhitespaceAndComments ?s2) = mSrc ?s2"
        using "1.IH"(3) [OF False refl n1 n2 cr refl refl b] s2 by simp
      then show ?thesis using False cr s2 by (subst (1 2) SkipWhitespaceAndComments.simps) (simp add: Let_def)
    next
      case lf
      have b: "blankFrom False (drop (mPos ?s1) (mSrc ?s1))" using d lf s1 by auto
      have n1: "\<not> (?c = SPC \<or> ?c = TAB)" and n2: "?c \<noteq> HASH" and n3: "?c \<noteq> CR" using lf by simp_all
      have "mPos (SkipWhitespaceAndComments ?s1) = length (mSrc ?s1) \<and> mSrc (SkipWhitespaceAndComments ?s1) = mSrc ?s1"
        using "1.IH"(4) [OF False refl n1 n2 n3 lf b] s1 lt by simp
      then show ?thesis using False lf s1 by (subst (1 2) SkipWhitespaceAndComments.simps) (simp add: Let_def)
    qed
  qed
qed

lemma SkipTrailing_eof: "EndOfFile s \<Longrightarrow> SkipTrailing s = s"
  by (subst SkipTrailing.simps) simp

lemma blank_no_bom: "blankDocument src \<Longrightarrow> \<not> hasBOM src"
  by (cases src) (auto simp: blankDocument_def hasBOM_def bomAt_def byteAt_def split: if_splits)


text \<open>The cursor moved over \<open>n\<close> characters of one line.\<close>

definition advance :: "nat \<Rightarrow> 'a Parser_scheme \<Rightarrow> 'a Parser_scheme" where
  "advance n s = s\<lparr>mPos := mPos s + n, mCol := mCol s + n\<rparr>"
lemma advance_simps [simp]: "mSrc (advance n s) = mSrc s" "mPos (advance n s) = mPos s + n"
  "mIndentUnit (advance n s) = mIndentUnit s"
  by (simp_all add: advance_def)
lemma advance_advance: "advance m (advance n s) = advance (n + m) s"
  by (simp add: advance_def add.assoc)
lemma advance_0 [simp]: "advance 0 s = s" by (simp add: advance_def)
lemma Get_nonLF:
  assumes "mPos s < length (mSrc s)" "mSrc s ! mPos s \<noteq> LF"
  shows "Get s = (mSrc s ! mPos s, advance 1 s)"
  using assms by (simp add: Get_def advance_def Let_def)
lemma Get_char:
  assumes "mPos s < length (mSrc s)" "mSrc s ! mPos s = c" "c \<noteq> LF"
  shows "Get s = (c, advance 1 s)"
  using assms Get_nonLF [of s] by simp

lemma HexValue_lt: "HexValue c < 16"
proof -
  have "ord c < 256" unfolding ord_def by (cases c) simp
  then show ?thesis by (auto simp: HexValue_def ord_def)
qed

lemma HexValue_LF: "0 \<le> HexValue c \<Longrightarrow> c \<noteq> LF"
  by (auto simp: HexValue_def ord_def)

lemma shift_or_add:
  assumes "0 \<le> hv" "hv < 16"
  shows "push_bit 4 (a :: 32 word) OR word_of_int hv = a * 16 + word_of_int hv"
proof -
  have nb: "\<not> bit hv n" if "4 \<le> n" for n
  proof -
    have "(2::int) ^ 4 \<le> 2 ^ n" using that by (intro power_increasing) simp_all
    then have "hv < 2 ^ n" using assms(2) by simp
    then have "hv div 2 ^ n = 0" using assms(1) by simp
    then show ?thesis by (simp add: bit_iff_odd)
  qed
  have "push_bit 4 a + word_of_int hv = push_bit 4 a OR word_of_int hv"
    by (rule disjunctive_add) (auto simp: bit_push_bit_iff bit_word_of_int_iff nb)
  then show ?thesis by (simp add: push_bit_eq_mult)
qed

lemma ReadHex4_good:
  assumes "mPos s + n \<le> length (mSrc s)"
      and "list_all (\<lambda>c. 0 \<le> HexValue c) (take n (drop (mPos s) (mSrc s)))"
  shows "ReadHex4 n cp s =
           (OK, foldl (\<lambda>a c. a * 16 + word_of_int (HexValue c)) cp (take n (drop (mPos s) (mSrc s))),
            advance n s)"
  using assms
proof (induction n arbitrary: cp s)
  case 0
  then show ?case by (simp add: advance_def)
next
  case (Suc n)
  have lt: "mPos s < length (mSrc s)" using Suc.prems(1) by simp
  let ?c = "mSrc s ! mPos s"
  have d: "drop (mPos s) (mSrc s) = ?c # drop (Suc (mPos s)) (mSrc s)"
    using lt by (simp add: Cons_nth_drop_Suc)
  have h: "0 \<le> HexValue ?c" and rest: "list_all (\<lambda>c. 0 \<le> HexValue c) (take n (drop (Suc (mPos s)) (mSrc s)))"
    using Suc.prems(2) d by simp_all
  have g: "Get s = (?c, advance 1 s)" using Get_nonLF [OF lt HexValue_LF [OF h]] .
  have ih: "ReadHex4 n (cp * 16 + word_of_int (HexValue ?c)) (advance 1 s) =
     (OK, foldl (\<lambda>a c. a * 16 + word_of_int (HexValue c)) (cp * 16 + word_of_int (HexValue ?c))
            (take n (drop (mPos (advance 1 s)) (mSrc (advance 1 s)))),
      advance n (advance 1 s))"
    by (rule Suc.IH) (use Suc.prems(1) rest in simp_all)
  show ?case
    using lt g h ih shift_or_add [OF h HexValue_lt, of cp] d
    by (simp add: EndOfFile_def Let_def advance_advance)
qed

lemma ReadHex4_bad:
  assumes "mPos s \<le> length (mSrc s)"
      and "\<not> (mPos s + n \<le> length (mSrc s) \<and>
              list_all (\<lambda>c. 0 \<le> HexValue c) (take n (drop (mPos s) (mSrc s))))"
  shows "fst (ReadHex4 n cp s) = InvalidEscape"
  using assms
proof (induction n arbitrary: cp s)
  case 0
  then show ?case by simp
next
  case (Suc n)
  show ?case
  proof (cases "EndOfFile s")
    case True
    then show ?thesis by (simp add: Fail_def)
  next
    case False
    then have lt: "mPos s < length (mSrc s)" by (simp add: EndOfFile_def)
    let ?c = "mSrc s ! mPos s"
    have d: "drop (mPos s) (mSrc s) = ?c # drop (Suc (mPos s)) (mSrc s)"
      using lt by (simp add: Cons_nth_drop_Suc)
    show ?thesis
    proof (cases "HexValue ?c < 0")
      case True
      obtain c s1 where g: "Get s = (c, s1)" by (cases "Get s")
      have "c = ?c" using g Get_fst [of s] lt by (simp add: Peek_def)
      then show ?thesis using False True g by (simp add: Fail_def Let_def)
    next
      case F: False
      then have h: "0 \<le> HexValue ?c" by simp
      have g: "Get s = (?c, advance 1 s)" using Get_nonLF [OF lt HexValue_LF [OF h]] .
      have b: "\<not> (mPos (advance 1 s) + n \<le> length (mSrc (advance 1 s)) \<and>
              list_all (\<lambda>c. 0 \<le> HexValue c) (take n (drop (mPos (advance 1 s)) (mSrc (advance 1 s)))))"
        using Suc.prems(2) d h by auto
      have le: "mPos (advance 1 s) \<le> length (mSrc (advance 1 s))" using lt by simp
      from Suc.IH [OF le b] show ?thesis using False g F by (simp add: Let_def)
    qed
  qed
qed

lemma ReadHex4_hexQuad:
  "mPos s \<le> length (mSrc s) \<Longrightarrow> ReadHex4 4 0 s = (ec, cp, s') \<Longrightarrow>
   (case hexQuad (mSrc s) (mPos s) of
      None \<Rightarrow> ec = InvalidEscape
    | Some v \<Rightarrow> ec = OK \<and> cp = v \<and> s' = advance 4 s)"
  using ReadHex4_good [of s 4 0] ReadHex4_bad [of s 4 0]
  by (auto simp: hexQuad_def)

lemma high_surrogate_escape_fails:
  assumes hi: "hexQuad (mSrc s) (mPos s) = Some v" "0xD800 \<le> v" "v \<le> 0xDBFF"
      and lo: "\<not> lowSurrogateEscapeAt (mSrc s) (mPos s + 4)"
  shows "fst (ReadUnicodeEscape s) = InvalidEscape"
proof -
  have le: "mPos s \<le> length (mSrc s)"
    using hi(1) by (simp add: hexQuad_def split: if_splits)
  obtain ec1 cp1 t1 where r0: "ReadHex4 4 0 s = (ec1, cp1, t1)"
    by (cases "ReadHex4 4 0 s")
  have r1: "ReadHex4 4 0 s = (OK, v, advance 4 s)"
    using ReadHex4_hexQuad [OF le r0] hi(1) r0 by simp
  let ?s1 = "advance 4 s"
  show ?thesis
  proof (cases "Peek ?s1 = BACKSLASH \<and> mPos ?s1 + 1 < length (mSrc ?s1) \<and> mSrc ?s1 ! (mPos ?s1 + 1) = CHR ''u''")
    case False
    then show ?thesis using r1 hi unfolding ReadUnicodeEscape_def by (simp add: Fail_def)
  next
    case True
    then have p: "mPos ?s1 + 1 < length (mSrc ?s1)" "mSrc ?s1 ! mPos ?s1 = BACKSLASH"
        "mSrc ?s1 ! (mPos ?s1 + 1) = CHR ''u''"
      by (auto simp: Peek_def split: if_splits)
    have g1: "Get ?s1 = (BACKSLASH, advance 1 ?s1)"
      by (rule Get_char) (use p in simp_all)
    have g2: "Get (advance 1 ?s1) = (CHR ''u'', advance 1 (advance 1 ?s1))"
      by (rule Get_char) (use p in simp_all)
    let ?s2 = "advance 1 (advance 1 ?s1)"
    have s2: "snd (Get (snd (Get ?s1))) = ?s2"
      using g1 g2 by simp
    have pos2: "mPos ?s2 = mPos s + 6" "mSrc ?s2 = mSrc s" by simp_all
    have le2: "mPos ?s2 \<le> length (mSrc ?s2)" using p by simp
    obtain ec2 lowS s3 where r2: "ReadHex4 4 0 ?s2 = (ec2, lowS, s3)"
      by (cases "ReadHex4 4 0 ?s2")
    have q: "case hexQuad (mSrc s) (mPos s + 6) of None \<Rightarrow> ec2 = InvalidEscape
             | Some w \<Rightarrow> ec2 = OK \<and> lowS = w \<and> s3 = advance 4 ?s2"
      using ReadHex4_hexQuad [OF le2 r2] by (simp add: ac_simps)
    have nl: "case hexQuad (mSrc s) (mPos s + 6) of None \<Rightarrow> True | Some w \<Rightarrow> \<not> (0xDC00 \<le> w \<and> w \<le> 0xDFFF)"
      using lo p by (auto simp: lowSurrogateEscapeAt_def unicodeEscapeIn_def ac_simps split: option.splits)
    show ?thesis
      using r1 hi True s2 r2 q nl unfolding ReadUnicodeEscape_def
      by (auto simp: Fail_def split: option.splits)
  qed
qed

lemma high_surrogate_loop_fails:
  assumes q: "q = DQUOTE \<or> q = SQUOTE"
      and hi: "highSurrogateEscapeAt (mSrc s) (mPos s)"
      and lo: "\<not> lowSurrogateEscapeAt (mSrc s) (mPos s + 6)"
  shows "fst (ParseStringLoop q result out s) = InvalidEscape"
proof -
  from hi obtain v where p: "mPos s + 1 < length (mSrc s)" "mSrc s ! mPos s = BACKSLASH"
      "mSrc s ! (mPos s + 1) = CHR ''u''"
      and v: "hexQuad (mSrc s) (mPos s + 2) = Some v" "0xD800 \<le> v" "v \<le> 0xDBFF"
    by (auto simp: highSurrogateEscapeAt_def unicodeEscapeIn_def split: option.splits)
  have g1: "Get s = (BACKSLASH, advance 1 s)"
    by (rule Get_char) (use p in simp_all)
  have g2: "Get (advance 1 s) = (CHR ''u'', advance 1 (advance 1 s))"
    by (rule Get_char) (use p in simp_all)
  let ?s2 = "advance 1 (advance 1 s)"
  have "fst (ReadUnicodeEscape ?s2) = InvalidEscape"
    by (rule high_surrogate_escape_fails [where v = v]) (use v lo in \<open>simp_all add: ac_simps\<close>)
  then obtain cp s3 where u: "ReadUnicodeEscape ?s2 = (InvalidEscape, cp, s3)"
    by (cases "ReadUnicodeEscape ?s2") auto
  have e1: "\<not> EndOfFile (advance 1 s)" using p by (simp add: EndOfFile_def)
  have st: "stringStep q result out s = Inl (InvalidEscape, out, s3)"
    unfolding stringStep_def using q g1 g2 u e1 by auto
  have "\<not> EndOfFile s" using p by (simp add: EndOfFile_def)
  then show ?thesis
    using st by (subst ParseStringLoop.simps) simp
qed

lemma leadingSpaces_step:
  "i < length src \<Longrightarrow> leadingSpaces src i = (if src ! i = SPC then Suc (leadingSpaces src (Suc i)) else 0)"
  by (simp add: leadingSpaces_def Cons_nth_drop_Suc [symmetric])

lemma leadingSpaces_end: "length src \<le> i \<Longrightarrow> leadingSpaces src i = 0"
  by (simp add: leadingSpaces_def)

lemma ReadLineIndent_spaces_run:
  "ReadLineIndent_spaces i s =
     (let k = leadingSpaces (mSrc s) (mPos s); s1 = advance k s in
      if mPos s1 < length (mSrc s) \<and> mSrc s ! mPos s1 = TAB
      then (InvalidIndentChar, i + int k, snd (Fail InvalidIndentChar ''Tabs are not allowed in indentation'' s1))
      else (OK, i + int k, s1))"
proof (induction i s rule: ReadLineIndent_spaces.induct)
  case (1 i s)
  show ?case
  proof (cases "EndOfFile s")
    case True
    then show ?thesis
      by (subst ReadLineIndent_spaces.simps) (simp add: EndOfFile_def leadingSpaces_end)
  next
    case False
    then have lt: "mPos s < length (mSrc s)" by (simp add: EndOfFile_def)
    have pk: "Peek s = mSrc s ! mPos s" using lt by (simp add: Peek_def)
    show ?thesis
    proof (cases "Peek s = SPC")
      case True
      have g: "snd (Get s) = advance 1 s"
        using Get_char [OF lt] True pk by simp
      have ih: "ReadLineIndent_spaces (i + 1) (advance 1 s) =
        (let k = leadingSpaces (mSrc (advance 1 s)) (mPos (advance 1 s)); s1 = advance k (advance 1 s) in
         if mPos s1 < length (mSrc (advance 1 s)) \<and> mSrc (advance 1 s) ! mPos s1 = TAB
         then (InvalidIndentChar, i + 1 + int k, snd (Fail InvalidIndentChar ''Tabs are not allowed in indentation'' s1))
         else (OK, i + 1 + int k, s1))"
        using "1.IH" [OF False refl True] g by simp
      have k: "leadingSpaces (mSrc s) (mPos s) = Suc (leadingSpaces (mSrc s) (Suc (mPos s)))"
        using leadingSpaces_step [OF lt] True pk by simp
      show ?thesis
        using False True g ih k
        by (subst ReadLineIndent_spaces.simps) (simp add: Let_def advance_advance)
    next
      case F: False
      have k: "leadingSpaces (mSrc s) (mPos s) = 0"
        using leadingSpaces_step [OF lt] F pk by simp
      show ?thesis
        using False F k pk lt
        by (subst ReadLineIndent_spaces.simps) (auto simp: Let_def Fail_def)
    qed
  qed
qed

lemma ReadLineIndent_tab:
  assumes "mPos s + leadingSpaces (mSrc s) (mPos s) < length (mSrc s)"
      and "mSrc s ! (mPos s + leadingSpaces (mSrc s) (mPos s)) = TAB"
  shows "fst (ReadLineIndent s) = InvalidIndentChar"
  using assms unfolding ReadLineIndent_def
  by (simp add: ReadLineIndent_spaces_run Let_def)

lemma ReadLineIndent_unit:
  assumes "mPos s + leadingSpaces (mSrc s) (mPos s) < length (mSrc s)"
      and "isContentChar (mSrc s ! (mPos s + leadingSpaces (mSrc s) (mPos s)))"
      and "0 < leadingSpaces (mSrc s) (mPos s)"
      and "0 < mIndentUnit s"
      and "int (leadingSpaces (mSrc s) (mPos s)) mod mIndentUnit s \<noteq> 0"
  shows "fst (ReadLineIndent s) = InconsistentIndent"
  using assms unfolding ReadLineIndent_def
  by (simp add: ReadLineIndent_spaces_run Let_def isContentChar_def Peek_def Fail_def)

lemma NextContentLine_error:
  assumes "\<not> EndOfFile s" "mCol s = 1" "fst (ReadLineIndent s) = ec" "ec \<noteq> OK"
  shows "map_option fst (NextContentLine s) = Some ec"
  using assms by (subst NextContentLine.simps) (auto split: prod.splits)

lemma NextContentLineLossless_error:
  assumes "\<not> EndOfFile s" "mCol s = 1" "fst (ReadLineIndent s) = ec" "ec \<noteq> OK"
  shows "map_option fst (NextContentLineLossless s) = Some ec"
  using assms by (subst NextContentLineLossless.simps) (auto split: prod.splits)

text \<open>
  Behind a carriage return that no line feed follows the column is not 1:
  \<^verbatim>\<open>NextContentLine\<close> then skips to the end of the line without a look at it, so the
  line with the tab in the text below is dropped and the document parses.
\<close>

lemma line_behind_bare_CR_skipped:
  "Parse 20 (''a: 1'' @ [CR, TAB] @ ''b: 2'') VNull None =
     Some (OK, VObject [(''a'', VNumber (Finite 1))], None)"
  by code_simp

section \<open>Lemmas on documents without content\<close>

text \<open>
  On a text of whitespace and comments \<^verbatim>\<open>ReadLineIndent\<close> finds no content: it fails at
  a tab in the leading indentation, or else it moves behind the line. So the loop of
  \<^verbatim>\<open>NextContentLineLossless\<close> ends without a line, and \<^verbatim>\<open>ParseLossless\<close> fails.
\<close>

lemma blank_head:
  assumes "mPos s < length (mSrc s)" and "blankFrom False (drop (mPos s) (mSrc s))"
  shows "Peek s = SPC \<or> Peek s = TAB \<or> Peek s = HASH \<or> Peek s = CR \<or> Peek s = LF"
    and "Peek s \<noteq> HASH \<Longrightarrow> blankFrom False (drop (Suc (mPos s)) (mSrc s))"
  using assms(2) drop_pos [OF assms(1)] by (auto split: if_splits)

lemma ReadLineIndent_spaces_blank:
  assumes "mPos s \<le> length (mSrc s)" and "blankFrom False (drop (mPos s) (mSrc s))"
      and "ReadLineIndent_spaces k s = (ec, n, s1)"
  shows "mSrc s1 = mSrc s \<and> mPos s \<le> mPos s1 \<and> mPos s1 \<le> length (mSrc s) \<and>
         blankFrom False (drop (mPos s1) (mSrc s)) \<and>
         (ec = OK \<or> ec = InvalidIndentChar) \<and>
         (ec = OK \<longrightarrow> EndOfFile s1 \<or> Peek s1 = HASH \<or> Peek s1 = CR \<or> Peek s1 = LF)"
  using assms
proof (induction k s rule: ReadLineIndent_spaces.induct)
  case (1 k s)
  show ?case
  proof (cases "EndOfFile s")
    case True
    then show ?thesis
      using "1.prems" by (subst (asm) ReadLineIndent_spaces.simps) auto
  next
    case False
    then have lt: "mPos s < length (mSrc s)" by (simp add: EndOfFile_def)
    note h = blank_head [OF lt "1.prems"(2)]
    consider (sp) "Peek s = SPC" | (tab) "Peek s = TAB"
      | (other) "Peek s = HASH \<or> Peek s = CR \<or> Peek s = LF"
      using h(1) by blast
    then show ?thesis
    proof cases
      case sp
      let ?s1 = "snd (Get s)"
      have s1: "mPos ?s1 = Suc (mPos s)" "mSrc ?s1 = mSrc s"
        using Get_state [OF lt] by simp_all
      have b: "blankFrom False (drop (mPos ?s1) (mSrc ?s1))"
        using h(2) sp s1 by simp
      have r: "ReadLineIndent_spaces (k + 1) ?s1 = (ec, n, s1)"
        using "1.prems"(3) False sp
        by (subst (asm) ReadLineIndent_spaces.simps) (simp add: Let_def)
      have "mSrc s1 = mSrc ?s1 \<and> mPos ?s1 \<le> mPos s1 \<and> mPos s1 \<le> length (mSrc ?s1) \<and>
         blankFrom False (drop (mPos s1) (mSrc ?s1)) \<and>
         (ec = OK \<or> ec = InvalidIndentChar) \<and>
         (ec = OK \<longrightarrow> EndOfFile s1 \<or> Peek s1 = HASH \<or> Peek s1 = CR \<or> Peek s1 = LF)"
        using "1.IH" [OF False refl sp _ b r] s1 lt by simp
      then show ?thesis using s1 by simp
    next
      case tab
      have "ReadLineIndent_spaces k s =
              (InvalidIndentChar, k,
               snd (Fail InvalidIndentChar ''Tabs are not allowed in indentation'' s))"
        using False tab
        by (subst ReadLineIndent_spaces.simps) (simp add: Let_def Fail_def)
      then show ?thesis using "1.prems" by auto
    next
      case other
      then have "ReadLineIndent_spaces k s = (OK, k, s)"
        using False by (subst ReadLineIndent_spaces.simps) (auto simp: Let_def)
      then show ?thesis using "1.prems" other by auto
    qed
  qed
qed

lemma ReadLineIndent_blank:
  assumes le: "mPos s \<le> length (mSrc s)" and b: "blankFrom False (drop (mPos s) (mSrc s))"
      and r: "ReadLineIndent s = (ec, n, hc, s3)"
  shows "\<not> hc \<and> mSrc s3 = mSrc s \<and> mPos s3 \<le> length (mSrc s) \<and>
         blankFrom False (drop (mPos s3) (mSrc s)) \<and>
         (ec = OK \<or> ec = InvalidIndentChar) \<and>
         (ec = OK \<and> \<not> EndOfFile s \<longrightarrow> mPos s < mPos s3)"
proof -
  obtain e1 k s1 where sp: "ReadLineIndent_spaces 0 s = (e1, k, s1)"
    by (cases "ReadLineIndent_spaces 0 s")
  note p = ReadLineIndent_spaces_blank [OF le b sp]
  show ?thesis
  proof (cases "e1 = OK")
    case False
    then have "ReadLineIndent s = (e1, k, False, s1)"
      by (simp add: ReadLineIndent_def sp)
    with r p False show ?thesis by auto
  next
    case True
    note ok = this
    have src: "mSrc s1 = mSrc s" and le1: "mPos s1 \<le> length (mSrc s1)"
      and b1: "blankFrom False (drop (mPos s1) (mSrc s1))" and ge: "mPos s \<le> mPos s1"
      using p by simp_all
    show ?thesis
    proof (cases "EndOfFile s1")
      case True
      then have pk: "Peek s1 = NUL" by (simp add: Peek_def EndOfFile_def)
      have "ReadLineIndent s = (OK, k, False, s1)"
        using ok pk by (simp add: ReadLineIndent_def sp Let_def)
      with r p True show ?thesis by (auto simp: EndOfFile_def)
    next
      case False
      then have lt: "mPos s1 < length (mSrc s1)" by (simp add: EndOfFile_def)
      from p ok False consider (hash) "Peek s1 = HASH" | (cr) "Peek s1 = CR" | (lf) "Peek s1 = LF"
        by blast
      then show ?thesis
      proof cases
        case lf
        let ?s3 = "snd (Get s1)"
        have "ReadLineIndent s = (OK, k, False, ?s3)"
          using ok lf by (simp add: ReadLineIndent_def sp Let_def)
        moreover have "mPos ?s3 = Suc (mPos s1)" using Get_state [OF lt] .
        moreover have "blankFrom False (drop (Suc (mPos s1)) (mSrc s1))"
          using blank_head(2) [OF lt b1] lf by simp
        ultimately show ?thesis using r src lt ge by auto
      next
        case cr
        let ?s4 = "snd (Get s1)"
        let ?s3 = "if Peek ?s4 = LF then snd (Get ?s4) else ?s4"
        have e: "ReadLineIndent s = (OK, k, False, ?s3)"
          using ok cr by (simp add: ReadLineIndent_def sp Let_def)
        have s4: "mPos ?s4 = Suc (mPos s1)" "mSrc ?s4 = mSrc s1" using Get_state [OF lt] by simp_all
        have b4: "blankFrom False (drop (mPos ?s4) (mSrc ?s4))"
          using blank_head(2) [OF lt b1] cr s4 by simp
        have b3: "blankFrom False (drop (mPos ?s3) (mSrc s)) \<and> mPos ?s3 \<le> length (mSrc s) \<and>
                  mPos s1 < mPos ?s3 \<and> mSrc ?s3 = mSrc s"
        proof (cases "Peek ?s4 = LF")
          case True
          then have lt4: "mPos ?s4 < length (mSrc ?s4)" by (auto simp: Peek_def split: if_splits)
          have "blankFrom False (drop (Suc (mPos ?s4)) (mSrc ?s4))"
            using blank_head(2) [OF lt4 b4] True by simp
          then show ?thesis using True Get_state [OF lt4] s4 src lt4 by simp
        next
          case False
          then show ?thesis using b4 s4 src lt by simp
        qed
        show ?thesis using e r b3 ge by auto
      next
        case hash
        let ?s2 = "SkipToEOL s1"
        let ?c2 = "Peek ?s2"
        let ?s3 = "if ?c2 = CR then (let s4 = snd (Get ?s2) in if Peek s4 = LF then snd (Get s4) else s4)
                   else if ?c2 = LF then snd (Get ?s2) else ?s2"
        have e: "ReadLineIndent s = (OK, k, False, ?s3)"
          using ok hash by (simp add: ReadLineIndent_def sp Let_def)
        have b2: "blankFrom False (drop (mPos ?s2) (mSrc ?s2))"
          using SkipToEOL_blank [OF b1] by simp
        have le2: "mPos ?s2 \<le> length (mSrc ?s2)" using SkipToEOL_le [OF le1] by simp
        have gt2: "mPos s1 < mPos ?s2" using SkipToEOL_pos(1) [OF False] .
        have b3: "blankFrom False (drop (mPos ?s3) (mSrc s)) \<and> mPos ?s3 \<le> length (mSrc s) \<and>
                  mPos ?s2 \<le> mPos ?s3 \<and> mSrc ?s3 = mSrc s"
        proof (cases "?c2 = CR \<or> ?c2 = LF")
          case False
          then show ?thesis using b2 le2 src by simp
        next
          case True
          then have lt2: "mPos ?s2 < length (mSrc ?s2)" by (auto simp: Peek_def split: if_splits)
          let ?s4 = "snd (Get ?s2)"
          have s4: "mPos ?s4 = Suc (mPos ?s2)" "mSrc ?s4 = mSrc s" using Get_state [OF lt2] src by simp_all
          have b4: "blankFrom False (drop (mPos ?s4) (mSrc ?s4))"
            using blank_head(2) [OF lt2 b2] True s4 by auto
          show ?thesis
          proof (cases "?c2 = CR \<and> Peek ?s4 = LF")
            case False
            then show ?thesis using True b4 s4 lt2 src by (auto simp: Let_def)
          next
            case T2: True
            then have lt4: "mPos ?s4 < length (mSrc ?s4)" by (auto simp: Peek_def split: if_splits)
            have "blankFrom False (drop (Suc (mPos ?s4)) (mSrc ?s4))"
              using blank_head(2) [OF lt4 b4] T2 by simp
            then show ?thesis using T2 Get_state [OF lt4] s4 lt4 by (simp add: Let_def)
          qed
        qed
        show ?thesis using e r b3 ge gt2 by auto
      qed
    qed
  qed
qed


lemma NextContentLineLossless_blank:
  assumes "mPos s \<le> length (mSrc s)" and "blankFrom False (drop (mPos s) (mSrc s))"
  shows "\<exists>ec s'. NextContentLineLossless s = Some (ec, False, s') \<and>
                 (ec = OK \<or> ec = InvalidIndentChar)"
  using assms
proof (induction s rule: measure_induct_rule [of "\<lambda>s. length (mSrc s) - mPos s"])
  case (less s)
  show ?case
  proof (cases "EndOfFile s")
    case True
    then show ?thesis by (subst NextContentLineLossless.simps) simp
  next
    case False
    note ne = this
    then have lt: "mPos s < length (mSrc s)" by (simp add: EndOfFile_def)
    show ?thesis
    proof (cases "mCol s = 1")
      case F: False
      let ?s1 = "SkipToEOL s"
      have gt: "mPos s < mPos ?s1" using SkipToEOL_pos(1) [OF ne] .
      have le1: "mPos ?s1 \<le> length (mSrc ?s1)" using SkipToEOL_le [OF less.prems(1)] by simp
      have b1: "blankFrom False (drop (mPos ?s1) (mSrc ?s1))"
        using SkipToEOL_blank [OF less.prems(2)] by simp
      show ?thesis
      proof (cases "EndOfFile ?s1")
        case True
        then show ?thesis using ne F by (subst NextContentLineLossless.simps) (simp add: Let_def)
      next
        case E: False
        have "\<exists>ec s'. NextContentLineLossless ?s1 = Some (ec, False, s') \<and>
                 (ec = OK \<or> ec = InvalidIndentChar)"
          using less.IH [OF _ le1 b1] gt lt by simp
        then show ?thesis using ne F E by (subst NextContentLineLossless.simps) (simp add: Let_def)
      qed
    next
      case True
      obtain ec n hc s1 where r: "ReadLineIndent s = (ec, n, hc, s1)"
        by (cases "ReadLineIndent s") auto
      note p = ReadLineIndent_blank [OF less.prems r]
      show ?thesis
      proof (cases "ec = OK")
        case False
        then show ?thesis
          using ne True r p by (subst NextContentLineLossless.simps) simp
      next
        case ok: True
        let ?s2 = "s1\<lparr>mPendingComments := mPendingComments s1 @ [lineComment (mPos s) n s1]\<rparr>"
        have "mPos s < mPos ?s2" "mPos ?s2 \<le> length (mSrc ?s2)" "mSrc ?s2 = mSrc s"
             "blankFrom False (drop (mPos ?s2) (mSrc ?s2))"
          using p ok ne by simp_all
        then have "\<exists>ec s'. NextContentLineLossless ?s2 = Some (ec, False, s') \<and>
                 (ec = OK \<or> ec = InvalidIndentChar)"
          using less.IH [of ?s2] lt by simp
        then show ?thesis
          using ne True r p ok by (subst NextContentLineLossless.simps) simp
      qed
    qed
  qed
qed

lemma Finish_code: "fst (Finish ec err msg s) = ec"
  by (simp add: Finish_def Let_def)

lemma ParseLossless_blank:
  assumes "blankDocument src" and "fst (ValidateUTF8 src True 0)"
  shows "\<exists>ec err'. ParseLossless n src out err = Some (ec, out, err') \<and>
                   (ec = UnexpectedEnd \<or> ec = InvalidIndentChar)"
proof -
  let ?p = "(newLosslessParser src)\<lparr>mError := noError\<rparr>"
  have p: "mPos ?p = 0" "mSrc ?p = src" by (simp_all add: newLosslessParser_def)
  obtain bi bl bc where v: "ValidateUTF8 src True 0 = (True, bi, bl, bc)"
    using assms(2) by (cases "ValidateUTF8 src True 0") auto
  have "\<exists>ec s'. NextContentLineLossless ?p = Some (ec, False, s') \<and>
                 (ec = OK \<or> ec = InvalidIndentChar)"
    by (rule NextContentLineLossless_blank) (use assms(1) p in \<open>simp_all add: blankDocument_def\<close>)
  then obtain ec s' where n: "NextContentLineLossless ?p = Some (ec, False, s')"
    and ec: "ec = OK \<or> ec = InvalidIndentChar"
    by blast
  show ?thesis
  proof (cases "ec = OK")
    case True
    obtain e1 r1 q1 where f: "Finish UnexpectedEnd err (Some ''Empty document'') s' = (e1, r1, q1)"
      by (cases "Finish UnexpectedEnd err (Some ''Empty document'') s'")
    then have "e1 = UnexpectedEnd" using Finish_code [of UnexpectedEnd err "Some ''Empty document''" s'] by simp
    then show ?thesis
      unfolding ParseLossless_def LosslessParser_Parse_def Let_def
      using blank_no_bom [OF assms(1)] v p n True f by simp
  next
    case False
    obtain e1 r1 q1 where f: "Finish ec err None s' = (e1, r1, q1)"
      by (cases "Finish ec err None s'")
    then have "e1 = ec" using Finish_code [of ec err None s'] by simp
    then show ?thesis
      unfolding ParseLossless_def LosslessParser_Parse_def Let_def
      using blank_no_bom [OF assms(1)] v p n False ec f by simp
  qed
qed

section \<open>Lemmas on the lossless writer\<close>

text \<open>A loop whose every turn leaves the children as they are leaves them as they are.\<close>

lemma forEachChild_inv:
  assumes step: "\<And>x notLast o1 cs' o'. x \<in> set items \<Longrightarrow>
                   body x notLast (C, o1) = Some (cs', o') \<Longrightarrow> cs' = C"
      and run: "forEachChild body items (C, out) = Some (cs', out')"
  shows "cs' = C"
  using assms
proof (induction items arbitrary: out)
  case Nil
  then show ?case by simp
next
  case (Cons x xs)
  from Cons.prems(2) obtain cs1 o1 where
    b: "body x (xs \<noteq> []) (C, out) = Some (cs1, o1)" and
    r: "forEachChild body xs (cs1, o1) = Some (cs', out')"
    by (auto split: option.splits)
  have "cs1 = C" using Cons.prems(1) [OF _ b] by simp
  with r have r': "forEachChild body xs (C, o1) = Some (cs', out')" by simp
  have step': "cs2 = C" if "y \<in> set xs" "body y notLast (C, o2) = Some (cs2, o3)"
    for y notLast o2 cs2 o3
    using Cons.prems(1) [of y notLast o2 cs2 o3] that by simp
  show ?case
    by (rule Cons.IH [OF step' r'])
qed

lemma indexed_nth: "(i, x) \<in> set (indexed xs) \<Longrightarrow> i < length xs \<and> xs ! i = x"
  by (auto simp: indexed_def in_set_zip)

lemma set_leadingComments_restore:
  "set_leadingComments (leadingComments c) (set_leadingComments l c) = c"
  by (cases c) (simp add: set_leadingComments_def)

lemma set_OrderedItems: "set (OrderedItems items b) = set items"
  by (simp add: OrderedItems_def)

text \<open>The loop over \<^verbatim>\<open>arrayItems\<close>, when the writer leaves every child as it is.\<close>

lemma array_items_frame:
  assumes ih: "\<And>c o1 l p k c' o'. c \<in> set ai \<Longrightarrow>
                 WriteLosslessValue c o1 l p k = Some (c', o') \<Longrightarrow> c' = c"
      and run: "WriteLosslessArrayItems (indexed (map WriteLosslessValue ai)) ai out lvl opt =
                  Some (ai', out')"
  shows "ai' = ai"
proof (rule forEachChild_inv [OF _ run [unfolded WriteLosslessArrayItems_def]])
  fix x :: "nat \<times> LosslessWriter" and notLast o1 cs' o'
  assume m: "x \<in> set (indexed (map WriteLosslessValue ai))"
     and b: "WriteLosslessArrayItem lvl opt x notLast (ai, o1) = Some (cs', o')"
  obtain i w where x: "x = (i, w)" by (cases x)
  from m x have i: "i < length ai" and w: "w = WriteLosslessValue (ai ! i)"
    using indexed_nth [of i w "map WriteLosslessValue ai"] by auto
  from b x obtain child' o2 where
    c: "w o1 (lvl + 1) opt InArray = Some (child', o2)" and cs: "cs' = ai[i := child']"
    by (auto simp: WriteLosslessArrayItem_def split: option.splits)
  have "child' = ai ! i"
    using ih [of "ai ! i" o1 "lvl + 1" opt InArray child' o2] c w i by simp
  then show "cs' = ai" using cs by simp
qed

text \<open>
  The loop over \<^verbatim>\<open>objectItems\<close>, when the writer leaves every child with cleared
  \<^verbatim>\<open>leadingComments\<close> as it is: putting the comments back gives the child again.
\<close>

lemma block_items_frame:
  assumes ih: "\<And>key c o1 l p k c' o'. (key, c) \<in> set oi \<Longrightarrow>
                 WriteLosslessValue (set_leadingComments [] c) o1 l p k = Some (c', o') \<Longrightarrow>
                 c' = set_leadingComments [] c"
      and run: "WriteLosslessBlockItems
                  (OrderedItems
                     (map (\<lambda>(i, key, child).
                             (key, i, child, WriteLosslessValue (set_leadingComments [] child)))
                        (indexed oi))
                     srt)
                  oi out lvl opt = Some (oi', out')"
  shows "oi' = oi"
proof (rule forEachChild_inv [OF _ run [unfolded WriteLosslessBlockItems_def]])
  fix x :: "string \<times> nat \<times> LosslessValue \<times> LosslessWriter" and notLast o1 cs' o'
  assume m: "x \<in> set (OrderedItems
                     (map (\<lambda>(i, key, child).
                             (key, i, child, WriteLosslessValue (set_leadingComments [] child)))
                        (indexed oi))
                     srt)"
     and b: "WriteLosslessBlockItem lvl opt x notLast (oi, o1) = Some (cs', o')"
  obtain key i child w where x: "x = (key, i, child, w)" by (cases x)
  from m x have mem: "(i, key, child) \<in> set (indexed oi)"
      and w: "w = WriteLosslessValue (set_leadingComments [] child)"
    by (auto simp: set_OrderedItems)
  then have i: "i < length oi" "oi ! i = (key, child)"
    using indexed_nth [of i "(key, child)" oi] by auto
  then have kc: "(key, child) \<in> set oi" by (metis nth_mem)
  have r: "c' = set_leadingComments [] child"
    if "w o2 l p k = Some (c', o3)" for o2 l p k c' o3
    using ih [OF kc] that w by simp
  from b x obtain child1 where cs: "cs' = oi[i := (key, child1)]" and c1: "child1 = child"
    by (auto simp: WriteLosslessBlockItem_def Let_def set_leadingComments_restore
             split: option.splits if_splits dest!: r)
  show "cs' = oi" using cs c1 i by (simp add: list_update_same_conv)
qed

text \<open>\<^verbatim>\<open>WriteLosslessValue\<close>, when it returns, returns the node it was given.\<close>

lemma WriteLosslessValue_frame:
  "WriteLosslessValue x out lvl opt ctx = Some (x', out') \<Longrightarrow> x' = x"
proof (induction x arbitrary: out lvl opt ctx x' out' rule: measure_induct_rule [of size])
  case (less x)
  obtain v lc ic ai oi tc where x: "x = LosslessValue v lc ic ai oi tc" by (cases x)
  have iha: "c' = c" if "c \<in> set ai" "WriteLosslessValue c o1 l p k = Some (c', o')"
    for c o1 l p k c' o'
    using less.IH [of c o1 l p k c' o'] that size_arrayItem [of c ai] x by simp
  have iho: "c' = set_leadingComments [] c"
    if "(key, c) \<in> set oi" "WriteLosslessValue (set_leadingComments [] c) o1 l p k = Some (c', o')"
    for key c o1 l p k c' o'
    using less.IH [of "set_leadingComments [] c" o1 l p k c' o'] that
      size_objectItem [of key c oi "size_list size ai"] x by simp
  note af = array_items_frame [of ai, OF iha]
  note bf = block_items_frame [of oi, OF iho]
  from less.prems x obtain o1 where cl: "WriteCommentLines lc out opt = Some o1"
    by (simp split: option.splits)
  show ?case
  proof (cases "isArray v \<and> ai \<noteq> []")
    case True
    with less.prems x cl obtain ai' o2 o3 where
      "WriteLosslessArrayItems (indexed (map WriteLosslessValue ai)) ai o2 lvl opt = Some (ai', o3)"
      "x' = LosslessValue v lc ic ai' oi tc"
      by (auto split: option.splits)
    then show ?thesis using af x by simp
  next
    case False
    note notArr = this
    show ?thesis
    proof (cases "isObject v \<and> oi \<noteq> [] \<and> ctx \<noteq> InArray")
      case True
      with notArr less.prems x cl obtain oi' o2 where
        "WriteLosslessBlockItems
           (OrderedItems
              (map (\<lambda>(i, key, child).
                      (key, i, child, WriteLosslessValue (set_leadingComments [] child)))
                 (indexed oi))
              (sortObjectKeys opt))
           oi o1 lvl opt = Some (oi', o2)"
        "x' = LosslessValue v lc ic ai oi' tc"
        by (auto split: option.splits)
      then show ?thesis using bf x by simp
    next
      case False
      with notArr less.prems x cl show ?thesis
        by (auto split: option.splits if_splits)
    qed
  qed
qed

section \<open>Lemmas on the canonical writer\<close>




lemma WriteStringQuoted_app: "WriteStringQuoted t out = out @ WriteStringQuoted t []"
  by (simp add: WriteStringQuoted_def)













section \<open>Lemmas on repeated keys\<close>






lemma itemValues_simps [simp]:
  "itemValues (set_objectItems (objectItems x @ [(key, c)]) x) = itemValues x @ [(key, val c)]"
  "itemValues (set_val v x) = itemValues x"
  "itemValues (set_leadingComments lc x) = itemValues x"
  "itemValues (set_trailingComments tc x) = itemValues x"
  "itemValues (commentLastObjectItem comment x) = itemValues x"
  "itemValues emptyLossless = []"
proof -
  show "itemValues (set_objectItems (objectItems x @ [(key, c)]) x) = itemValues x @ [(key, val c)]"
    by (cases x) (simp add: itemValues_def set_objectItems_def)
  show "itemValues (set_val v x) = itemValues x"
    by (cases x) (simp add: itemValues_def set_val_def)
  show "itemValues (set_leadingComments lc x) = itemValues x"
    by (cases x) (simp add: itemValues_def set_leadingComments_def)
  show "itemValues (set_trailingComments tc x) = itemValues x"
    by (cases x) (simp add: itemValues_def set_trailingComments_def)
  show "itemValues emptyLossless = []"
    by (simp add: itemValues_def emptyLossless_def)
  show "itemValues (commentLastObjectItem comment x) = itemValues x"
  proof (cases x)
    case (LosslessValue v lc ic ai oi tc)
    show ?thesis
    proof (cases "oi = []")
      case True
      then show ?thesis using LosslessValue by (simp add: commentLastObjectItem_def)
    next
      case False
      then obtain ys k c where oi: "oi = ys @ [(k, c)]"
        by (metis rev_exhaust surj_pair)
      have "val (set_inlineComment comment c) = val c"
        by (cases c) (simp add: set_inlineComment_def)
      then show ?thesis
        using LosslessValue oi
        by (simp add: commentLastObjectItem_def itemValues_def set_objectItems_def)
    qed
  qed
qed

lemma val_simps [simp]:
  "val (set_val v x) = v"
  "val (set_objectItems oi x) = val x"
  "val (set_leadingComments lc x) = val x"
  "val (set_trailingComments tc x) = val x"
  "val (set_arrayItems ai x) = val x"
  by (cases x; simp add: set_val_def set_objectItems_def set_leadingComments_def
        set_trailingComments_def set_arrayItems_def)+





























section \<open>The claims\<close>

text \<open>
  C6. When \<^verbatim>\<open>Parser::Parse\<close> returns an error code other than \<open>OK\<close>, the caller's
  \<^verbatim>\<open>Value\<close> is what it was before the call: the parse works on a local value and
  assigns the out-parameter only on the path that returns \<open>OK\<close>, so a failure leaves
  no partial value behind.
\<close>

theorem Parse_failure_leaves_out:
  assumes "Parser_Parse n out err p = Some (ec, out', err', p')" and "ec \<noteq> OK"
  shows "out' = out"
  using assms unfolding Parser_Parse_def FailOut_def Let_def
  by (auto split: prod.splits if_splits option.splits)

theorem Parse_failure_leaves_out_witness:
  "fst (the (Parser_Parse 5 (VBool True) None (newParser ''}''))) = UnexpectedChar \<and>
   fst (snd (the (Parser_Parse 5 (VBool True) None (newParser ''}'')))) = VBool True"
proof -
  let ?r = "Parser_Parse 5 (VBool True) None (newParser ''}'')"
  have r: "?r \<noteq> None \<and> fst (the ?r) = UnexpectedChar"
    by code_simp
  then obtain ec out' err' p' where e: "?r = Some (ec, out', err', p')"
    by (cases ?r) auto
  with r have ne: "ec \<noteq> OK" by simp
  have "out' = VBool True"
    by (rule Parse_failure_leaves_out [OF e ne])
  with e r show ?thesis by simp
qed




text \<open>
  C3, as the code has it. An input of whitespace and comments only that passes the
  UTF-8 validation parses to \<open>Null\<close> under the plain parser, whatever the bound of the
  recursion. The lossless parser does not share this: on every such input it fails,
  with \<open>UnexpectedEnd\<close> or, at a tab in the indentation of a line, with
  \<open>InvalidIndentChar\<close>, and leaves the caller's value alone; on the empty input the
  error is \<open>UnexpectedEnd\<close> with the message \<^verbatim>\<open>Empty document\<close>.
\<close>

theorem blank_document_plain_null_lossless_end:
  assumes "blankDocument src" and "fst (ValidateUTF8 src True 0)"
  shows "Parse n src out err = Some (OK, VNull, map_option (\<lambda>_. noError) err) \<and>
         (\<exists>ec lerr'. ParseLossless n src lout lerr = Some (ec, lout, lerr') \<and>
                      (ec = UnexpectedEnd \<or> ec = InvalidIndentChar)) \<and>
         ParseLossless n [] lout lerr =
           Some (UnexpectedEnd, lout,
                 map_option (\<lambda>_. \<lparr>code = UnexpectedEnd,
                                   location = \<lparr>line = 1, column = 1\<rparr>,
                                   message = ''Empty document''\<rparr>) lerr)"
proof (intro conjI)
  show "\<exists>ec lerr'. ParseLossless n src lout lerr = Some (ec, lout, lerr') \<and>
                     (ec = UnexpectedEnd \<or> ec = InvalidIndentChar)"
    by (rule ParseLossless_blank [OF assms])
next
  let ?p = "(newParser src)\<lparr>mError := noError\<rparr>"
  have p: "mPos ?p = 0" "mSrc ?p = src" by (simp_all add: newParser_def)
  have "mPos (SkipWhitespaceAndComments ?p) = length (mSrc ?p) \<and>
        mSrc (SkipWhitespaceAndComments ?p) = mSrc ?p"
    by (rule SkipWS_blank) (use assms(1) p in \<open>simp_all add: blankDocument_def\<close>)
  then have e: "mPos (SkipWhitespaceAndComments ?p) = length src"
      "mSrc (SkipWhitespaceAndComments ?p) = src"
    using p by simp_all
  then have eof: "EndOfFile (SkipWhitespaceAndComments ?p)" by (simp add: EndOfFile_def)
  obtain bi bl bc where v: "ValidateUTF8 src True 0 = (True, bi, bl, bc)"
    using assms(2) by (cases "ValidateUTF8 src True 0") auto
  show "Parse n src out err = Some (OK, VNull, map_option (\<lambda>_. noError) err)"
    unfolding Parse_def Parser_Parse_def Let_def
    using blank_no_bom [OF assms(1)] v p e SkipTrailing_eof [OF eof]
    by simp
next
  have v: "ValidateUTF8 [] True 0 = (True, 0, 1, 1)"
    by (simp add: ValidateUTF8_def ValidateUTF8_loop.simps)
  let ?q = "(newLosslessParser [])\<lparr>mError := noError\<rparr>"
  have n: "NextContentLineLossless ?q = Some (OK, False, ?q)"
    by (subst NextContentLineLossless.simps) (simp add: EndOfFile_def newLosslessParser_def)
  show "ParseLossless n [] lout lerr =
           Some (UnexpectedEnd, lout,
                 map_option (\<lambda>_. \<lparr>code = UnexpectedEnd,
                                   location = \<lparr>line = 1, column = 1\<rparr>,
                                   message = ''Empty document''\<rparr>) lerr)"
    unfolding ParseLossless_def LosslessParser_Parse_def Let_def
    using v n
    by (cases lerr)
       (simp_all add: hasBOM_def Finish_def Location_def newLosslessParser_def Let_def)
qed

theorem blank_document_plain_null_lossless_end_witness:
  "blankDocument (''  # c'' @ [LF, TAB, CR, LF]) \<and>
   Parse 0 (''  # c'' @ [LF, TAB, CR, LF]) (VBool True) None = Some (OK, VNull, None) \<and>
   ParseLossless 0 (''  # c'' @ [LF, TAB, CR, LF]) emptyLossless None =
     Some (InvalidIndentChar, emptyLossless, None)"
proof -
  have b: "blankDocument (''  # c'' @ [LF, TAB, CR, LF])"
    by code_simp
  have v: "fst (ValidateUTF8 (''  # c'' @ [LF, TAB, CR, LF]) True 0)"
    by code_simp
  have l: "ParseLossless 0 (''  # c'' @ [LF, TAB, CR, LF]) emptyLossless None =
             Some (InvalidIndentChar, emptyLossless, None)"
    by code_simp
  show ?thesis
    using b l blank_document_plain_null_lossless_end [OF b v, of 0 "VBool True" None]
    by simp
qed

text \<open>
  C3, as the claim states it, fails for the lossless parser: the empty input does
  not parse to \<open>Null\<close> there.
\<close>

theorem lossless_empty_input_counterexample:
  "ParseLossless 10 [] emptyLossless None = Some (UnexpectedEnd, emptyLossless, None)"
  by code_simp

text \<open>
  C4 at \<^verbatim>\<open>ab : 1\<close>: the identifier \<^verbatim>\<open>ab\<close> is followed by a space and a colon. The
  cursor goes back by the two characters of the identifier from behind the space, so
  it lands on the \<^verbatim>\<open>b\<close>, and the object that results has the key \<^verbatim>\<open>b\<close>.
\<close>

theorem rewind_after_spaces_loses_identifier:
  "Parse 20 ''ab : 1'' VNull None = Some (OK, VObject [(''b'', VNumber (Finite 1))], None)"
  by code_simp

text \<open>
  C5 at \<^verbatim>\<open>a: 1\<close>: the first \<^verbatim>\<open>Parse\<close> on a parser returns the object, the second
  call on the same parser starts at the end of the text, where the first one left
  the cursor, and returns \<open>Null\<close>.
\<close>

theorem second_Parse_starts_at_old_cursor:
  "Parse_twice 20 ''a: 1'' = Some ((OK, VObject [(''a'', VNumber (Finite 1))]), (OK, VNull))"
  by code_simp

text \<open>
  C7, as the code has it. The indentation of a line is validated by \<^verbatim>\<open>ReadLineIndent\<close>,
  which \<^verbatim>\<open>NextContentLine\<close> and \<^verbatim>\<open>NextContentLineLossless\<close> run on the line at the cursor
  when the cursor is at column 1 and not at the end of the text. For every parser that
  stands so, with any indent stack and any text: a tab behind the leading spaces fails
  with \<open>InvalidIndentChar\<close>, and once the indent unit is fixed a content line whose count
  of leading spaces is not a multiple of the unit fails with \<open>InconsistentIndent\<close>. So a
  block under a two-space unit with a sibling at three spaces fails with
  \<open>InconsistentIndent\<close>, and a tab in front of a block line with \<open>InvalidIndentChar\<close>.
  Not every line is entered this way: a line that begins with a tab inside an inline
  array, inside an inline object, or behind a comma of a multiline array is read as
  whitespace, and the three documents of the theorem parse under both parsers.
\<close>

theorem block_line_indentation_validated:
  "(lineStartsWith s k TAB \<and> mCol s = 1 \<longrightarrow>
      map_option fst (NextContentLine s) = Some InvalidIndentChar) \<and>
   (lineStartsWith t k TAB \<and> mCol t = 1 \<longrightarrow>
      map_option fst (NextContentLineLossless t) = Some InvalidIndentChar) \<and>
   (lineStartsWith s k c \<and> mCol s = 1 \<and> isContentChar c \<and> 0 < k \<and> 0 < mIndentUnit s \<and>
      int k mod mIndentUnit s \<noteq> 0 \<longrightarrow>
      map_option fst (NextContentLine s) = Some InconsistentIndent) \<and>
   (lineStartsWith t k c \<and> mCol t = 1 \<and> isContentChar c \<and> 0 < k \<and> 0 < mIndentUnit t \<and>
      int k mod mIndentUnit t \<noteq> 0 \<longrightarrow>
      map_option fst (NextContentLineLossless t) = Some InconsistentIndent) \<and>
   map_option fst (Parse 20 (''a:'' @ [LF] @ ''  b: 1'' @ [LF] @ ''   c: 2'') VNull None) =
      Some InconsistentIndent \<and>
   map_option fst (Parse 20 (''a:'' @ [LF, TAB] @ ''b: 1'') VNull None) =
      Some InvalidIndentChar \<and>
   map_option fst (Parse 20 (''[1,'' @ [LF, TAB] @ ''2]'') VNull None) = Some OK \<and>
   map_option fst (ParseLossless 20 (''[1,'' @ [LF, TAB] @ ''2]'') emptyLossless None) =
      Some OK \<and>
   map_option fst (Parse 20 (''{a: 1,'' @ [LF, TAB] @ ''b: 2}'') VNull None) = Some OK \<and>
   map_option fst (ParseLossless 20 (''{a: 1,'' @ [LF, TAB] @ ''b: 2}'') emptyLossless None) =
      Some OK \<and>
   map_option fst
     (Parse 20 (''['' @ [LF] @ ''  1,'' @ [LF, TAB] @ ''2'' @ [LF] @ '']'') VNull None) =
      Some OK \<and>
   map_option fst
     (ParseLossless 20 (''['' @ [LF] @ ''  1,'' @ [LF, TAB] @ ''2'' @ [LF] @ '']'')
        emptyLossless None) = Some OK"
proof (intro conjI impI)
  assume a: "lineStartsWith s k TAB \<and> mCol s = 1"
  then have "fst (ReadLineIndent s) = InvalidIndentChar"
    by (intro ReadLineIndent_tab) (auto simp: lineStartsWith_def)
  then show "map_option fst (NextContentLine s) = Some InvalidIndentChar"
    using a by (intro NextContentLine_error) (auto simp: lineStartsWith_def EndOfFile_def)
next
  assume a: "lineStartsWith t k TAB \<and> mCol t = 1"
  then have "fst (ReadLineIndent t) = InvalidIndentChar"
    by (intro ReadLineIndent_tab) (auto simp: lineStartsWith_def)
  then show "map_option fst (NextContentLineLossless t) = Some InvalidIndentChar"
    using a
    by (intro NextContentLineLossless_error) (auto simp: lineStartsWith_def EndOfFile_def)
next
  assume a: "lineStartsWith s k c \<and> mCol s = 1 \<and> isContentChar c \<and> 0 < k \<and>
      0 < mIndentUnit s \<and> int k mod mIndentUnit s \<noteq> 0"
  then have "fst (ReadLineIndent s) = InconsistentIndent"
    by (intro ReadLineIndent_unit) (auto simp: lineStartsWith_def)
  then show "map_option fst (NextContentLine s) = Some InconsistentIndent"
    using a by (intro NextContentLine_error) (auto simp: lineStartsWith_def EndOfFile_def)
next
  assume a: "lineStartsWith t k c \<and> mCol t = 1 \<and> isContentChar c \<and> 0 < k \<and>
      0 < mIndentUnit t \<and> int k mod mIndentUnit t \<noteq> 0"
  then have "fst (ReadLineIndent t) = InconsistentIndent"
    by (intro ReadLineIndent_unit) (auto simp: lineStartsWith_def)
  then show "map_option fst (NextContentLineLossless t) = Some InconsistentIndent"
    using a
    by (intro NextContentLineLossless_error) (auto simp: lineStartsWith_def EndOfFile_def)
next
  show "map_option fst (Parse 20 (''a:'' @ [LF] @ ''  b: 1'' @ [LF] @ ''   c: 2'') VNull None) =
      Some InconsistentIndent"
    by code_simp
next
  show "map_option fst (Parse 20 (''a:'' @ [LF, TAB] @ ''b: 1'') VNull None) =
      Some InvalidIndentChar"
    by code_simp
next
  show "map_option fst (Parse 20 (''[1,'' @ [LF, TAB] @ ''2]'') VNull None) = Some OK"
    by code_simp
next
  show "map_option fst (ParseLossless 20 (''[1,'' @ [LF, TAB] @ ''2]'') emptyLossless None) =
      Some OK"
    by code_simp
next
  show "map_option fst (Parse 20 (''{a: 1,'' @ [LF, TAB] @ ''b: 2}'') VNull None) = Some OK"
    by code_simp
next
  show "map_option fst (ParseLossless 20 (''{a: 1,'' @ [LF, TAB] @ ''b: 2}'') emptyLossless None) =
      Some OK"
    by code_simp
next
  show "map_option fst
     (Parse 20 (''['' @ [LF] @ ''  1,'' @ [LF, TAB] @ ''2'' @ [LF] @ '']'') VNull None) =
      Some OK"
    by code_simp
next
  show "map_option fst
     (ParseLossless 20 (''['' @ [LF] @ ''  1,'' @ [LF, TAB] @ ''2'' @ [LF] @ '']'')
        emptyLossless None) = Some OK"
    by code_simp
qed

text \<open>
  Instances: a fresh parser on a text that begins with a tab, and a parser with the unit
  \<open>2\<close> on a line of three spaces.
\<close>

theorem block_line_indentation_validated_witness:
  "lineStartsWith (newParser ([TAB] @ ''b'')) 0 TAB \<and> mCol (newParser ([TAB] @ ''b'')) = 1 \<and>
   map_option fst (NextContentLine (newParser ([TAB] @ ''b''))) = Some InvalidIndentChar \<and>
   lineStartsWith (newLosslessParser ([TAB] @ ''b'')) 0 TAB \<and>
   mCol (newLosslessParser ([TAB] @ ''b'')) = 1 \<and>
   map_option fst (NextContentLineLossless (newLosslessParser ([TAB] @ ''b''))) =
     Some InvalidIndentChar \<and>
   lineStartsWith ((newParser ''   c'')\<lparr>mIndentUnit := 2\<rparr>) 3 CHR ''c'' \<and>
   mCol ((newParser ''   c'')\<lparr>mIndentUnit := 2\<rparr>) = 1 \<and>
   map_option fst (NextContentLine ((newParser ''   c'')\<lparr>mIndentUnit := 2\<rparr>)) =
     Some InconsistentIndent \<and>
   lineStartsWith ((newLosslessParser ''   c'')\<lparr>mIndentUnit := 2\<rparr>) 3 CHR ''c'' \<and>
   mCol ((newLosslessParser ''   c'')\<lparr>mIndentUnit := 2\<rparr>) = 1 \<and>
   map_option fst (NextContentLineLossless ((newLosslessParser ''   c'')\<lparr>mIndentUnit := 2\<rparr>)) =
     Some InconsistentIndent"
proof -
  let ?s1 = "newParser ([TAB] @ ''b'')"
  let ?t1 = "newLosslessParser ([TAB] @ ''b'')"
  let ?s2 = "(newParser ''   c'')\<lparr>mIndentUnit := 2\<rparr>"
  let ?t2 = "(newLosslessParser ''   c'')\<lparr>mIndentUnit := 2\<rparr>"
  have h1: "lineStartsWith ?s1 0 TAB \<and> mCol ?s1 = 1" by code_simp
  have h2: "lineStartsWith ?t1 0 TAB \<and> mCol ?t1 = 1" by code_simp
  have h3: "lineStartsWith ?s2 3 CHR ''c'' \<and> mCol ?s2 = 1 \<and> isContentChar CHR ''c'' \<and>
            (0::nat) < 3 \<and> 0 < mIndentUnit ?s2 \<and> int 3 mod mIndentUnit ?s2 \<noteq> 0"
    by code_simp
  have h4: "lineStartsWith ?t2 3 CHR ''c'' \<and> mCol ?t2 = 1 \<and> isContentChar CHR ''c'' \<and>
            (0::nat) < 3 \<and> 0 < mIndentUnit ?t2 \<and> int 3 mod mIndentUnit ?t2 \<noteq> 0"
    by code_simp
  note a = block_line_indentation_validated [of ?s1 0 ?t1 "CHR ''c''"]
  note b = block_line_indentation_validated [of ?s2 3 ?t2 "CHR ''c''"]
  show ?thesis
    using h1 h2 h3 h4 a b by blast
qed

text \<open>
  C7, as the claim states it, fails: a line break inside an inline array is skipped as
  whitespace, tab and all, and the document parses.
\<close>

theorem tab_inside_inline_array_counterexample:
  "Parse 20 (''[1,'' @ [LF, TAB] @ ''2]'') VNull None =
     Some (OK, VArray [VNumber (Finite 1), VNumber (Finite 2)], None)"
  by code_simp

text \<open>
  C8. In a quoted string the escape with the digits \<^verbatim>\<open>D83D\<close> followed by the escape with
  the digits \<^verbatim>\<open>DE00\<close> decodes to the bytes \<^verbatim>\<open>F0 9F 98 80\<close>, the
  UTF-8 encoding of the code point \<^verbatim>\<open>1F600\<close> that the surrogate formula gives. A high
  surrogate escape that no low surrogate escape follows at once makes the string
  parser, for either quote character and at any place of any text, return
  \<open>InvalidEscape\<close>; a string that holds the escape \<^verbatim>\<open>D83D\<close> alone is an instance.
\<close>

theorem surrogate_pair_escapes:
  "Parse 10 ([DQUOTE, BACKSLASH] @ ''uD83D'' @ [BACKSLASH] @ ''uDE00'' @ [DQUOTE]) VNull None =
     Some (OK, VString [CHR 0xF0, CHR 0x9F, CHR 0x98, CHR 0x80], None) \<and>
   fst (snd (ReadUnicodeEscape (newParser (''D83D'' @ [BACKSLASH] @ ''uDE00'')))) = 0x1F600 \<and>
   (0x10000 + (0xD83D - 0xD800) * 0x400 + (0xDE00 - 0xDC00) :: 32 word) = 0x1F600 \<and>
   AppendUTF8 [] 0x1F600 = [CHR 0xF0, CHR 0x9F, CHR 0x98, CHR 0x80] \<and>
   Parse 10 ([DQUOTE, BACKSLASH] @ ''uD83D'' @ [DQUOTE]) VNull None =
     Some (InvalidEscape, VNull, None) \<and>
   ((q = DQUOTE \<or> q = SQUOTE) \<and> highSurrogateEscapeAt (mSrc s) (mPos s) \<and>
      \<not> lowSurrogateEscapeAt (mSrc s) (mPos s + 6) \<longrightarrow>
      fst (ParseStringLoop q result out s) = InvalidEscape)"
proof (intro conjI impI)
  show "Parse 10 ([DQUOTE, BACKSLASH] @ ''uD83D'' @ [BACKSLASH] @ ''uDE00'' @ [DQUOTE]) VNull None =
     Some (OK, VString [CHR 0xF0, CHR 0x9F, CHR 0x98, CHR 0x80], None)"
    by code_simp
  show "fst (snd (ReadUnicodeEscape (newParser (''D83D'' @ [BACKSLASH] @ ''uDE00'')))) = 0x1F600"
    by code_simp
  show "(0x10000 + (0xD83D - 0xD800) * 0x400 + (0xDE00 - 0xDC00) :: 32 word) = 0x1F600"
    by simp
  show "AppendUTF8 [] 0x1F600 = [CHR 0xF0, CHR 0x9F, CHR 0x98, CHR 0x80]"
    by code_simp
  show "Parse 10 ([DQUOTE, BACKSLASH] @ ''uD83D'' @ [DQUOTE]) VNull None =
     Some (InvalidEscape, VNull, None)"
    by code_simp
next
  assume "(q = DQUOTE \<or> q = SQUOTE) \<and> highSurrogateEscapeAt (mSrc s) (mPos s) \<and>
      \<not> lowSurrogateEscapeAt (mSrc s) (mPos s + 6)"
  then show "fst (ParseStringLoop q result out s) = InvalidEscape"
    by (intro high_surrogate_loop_fails) simp_all
qed

theorem surrogate_pair_escapes_witness:
  "highSurrogateEscapeAt ([BACKSLASH] @ ''uD83Dx'') 0 \<and>
   \<not> lowSurrogateEscapeAt ([BACKSLASH] @ ''uD83Dx'') 6 \<and>
   fst (ParseStringLoop SQUOTE [] VNull (newParser ([BACKSLASH] @ ''uD83Dx''))) = InvalidEscape"
proof -
  let ?src = "[BACKSLASH] @ ''uD83Dx''"
  have s: "mSrc (newParser ?src) = ?src" "mPos (newParser ?src) = 0"
    by (simp_all add: newParser_def)
  have h: "highSurrogateEscapeAt ?src 0" by code_simp
  have l: "\<not> lowSurrogateEscapeAt ?src 6" by code_simp
  have "(SQUOTE = DQUOTE \<or> SQUOTE = SQUOTE) \<and>
        highSurrogateEscapeAt (mSrc (newParser ?src)) (mPos (newParser ?src)) \<and>
        \<not> lowSurrogateEscapeAt (mSrc (newParser ?src)) (mPos (newParser ?src) + 6)"
    using h l s by simp
  then have "fst (ParseStringLoop SQUOTE [] VNull (newParser ?src)) = InvalidEscape"
    using surrogate_pair_escapes [of SQUOTE "newParser ?src" "[]" VNull] by blast
  with h l show ?thesis by simp
qed

text \<open>
  C10. \<^verbatim>\<open>ToStringLossless\<close> leaves its input tree as it was: whenever
  \<^verbatim>\<open>ToStringLossless(v, options)\<close> returns, for any tree \<open>v\<close> and any options, the tree
  as the call leaves it equals \<open>v\<close>, in every field and at every depth. Inside, the
  writer clears the \<^verbatim>\<open>leadingComments\<close> of a child that is an object or an array
  before it writes the child, and puts them back behind the call.
\<close>

theorem ToStringLossless_leaves_tree:
  assumes "ToStringLossless v options = Some (v', text)"
  shows "v' = v"
  using assms unfolding ToStringLossless_def by (rule WriteLosslessValue_frame)

text \<open>
  An instance: the key \<open>a\<close> holds an object and carries the comment \<^verbatim>\<open># c\<close>, so the
  call goes through the clearing and the restoring of \<^verbatim>\<open>leadingComments\<close>.
\<close>

theorem ToStringLossless_leaves_tree_witness:
  "fst (the (ToStringLossless
       (LosslessValue (VObject [(''a'', VObject [(''b'', VNumber (Finite 1))])]) [] [] []
          [(''a'', LosslessValue (VObject [(''b'', VNumber (Finite 1))])
                     [\<lparr>indent = 0, commentText = ''# c''\<rparr>] [] []
                     [(''b'', LosslessValue (VNumber (Finite 1)) [] [] [] [] [])] [])] [])
       defaultOptions)) =
     LosslessValue (VObject [(''a'', VObject [(''b'', VNumber (Finite 1))])]) [] [] []
       [(''a'', LosslessValue (VObject [(''b'', VNumber (Finite 1))])
                  [\<lparr>indent = 0, commentText = ''# c''\<rparr>] [] []
                  [(''b'', LosslessValue (VNumber (Finite 1)) [] [] [] [] [])] [])] [] \<and>
   snd (the (ToStringLossless
       (LosslessValue (VObject [(''a'', VObject [(''b'', VNumber (Finite 1))])]) [] [] []
          [(''a'', LosslessValue (VObject [(''b'', VNumber (Finite 1))])
                     [\<lparr>indent = 0, commentText = ''# c''\<rparr>] [] []
                     [(''b'', LosslessValue (VNumber (Finite 1)) [] [] [] [] [])] [])] [])
       defaultOptions)) = ''# c'' @ [LF] @ ''a:'' @ [LF] @ ''  b: 1.000000''"
proof -
  let ?t = "LosslessValue (VObject [(''a'', VObject [(''b'', VNumber (Finite 1))])]) [] [] []
          [(''a'', LosslessValue (VObject [(''b'', VNumber (Finite 1))])
                     [\<lparr>indent = 0, commentText = ''# c''\<rparr>] [] []
                     [(''b'', LosslessValue (VNumber (Finite 1)) [] [] [] [] [])] [])] []"
  let ?r = "ToStringLossless ?t defaultOptions"
  have r: "?r \<noteq> None \<and> snd (the ?r) = ''# c'' @ [LF] @ ''a:'' @ [LF] @ ''  b: 1.000000''"
    by code_simp
  then obtain v' out' where e: "?r = Some (v', out')"
    by (cases ?r) auto
  have "v' = ?t"
    by (rule ToStringLossless_leaves_tree [OF e])
  with e r show ?thesis by simp
qed




text \<open>
  C2 does not hold of the code. The document \<^verbatim>\<open>{"a b": null}\<close> parses to an object
  with the one key \<^verbatim>\<open>a b\<close>; \<^verbatim>\<open>ToString\<close> writes that object as the line
  \<^verbatim>\<open>"a b": null\<close>, the key in quotes; and \<^verbatim>\<open>Parse\<close> rejects that line with
  \<^verbatim>\<open>UnexpectedChar\<close>: \<^verbatim>\<open>ParseValue\<close> reads a text that starts with a quote as a string,
  and the colon behind it is left over. A key in quotes is read as a key where it is not
  the first of its block, as in the fourth document. A number is written with six
  digits behind the point, so \<^verbatim>\<open>0.0000001\<close> comes back as \<open>0\<close>.
\<close>

theorem quoted_first_key_not_reparsed:
  "Parse 20 (''{'' @ [DQUOTE] @ ''a b'' @ [DQUOTE] @ '': null}'') VNull None =
     Some (OK, VObject [(''a b'', VNull)], None) \<and>
   ToString (VObject [(''a b'', VNull)]) defaultOptions =
     Some ([DQUOTE] @ ''a b'' @ [DQUOTE] @ '': null'') \<and>
   Parse 20 ([DQUOTE] @ ''a b'' @ [DQUOTE] @ '': null'') VNull None =
     Some (UnexpectedChar, VNull, None) \<and>
   Parse 20 (''a: 1'' @ [LF] @ [DQUOTE] @ ''b c'' @ [DQUOTE] @ '': 2'') VNull None =
     Some (OK, VObject [(''a'', VNumber (Finite 1)), (''b c'', VNumber (Finite 2))], None) \<and>
   Parse 20 ''0.0000001'' VNull None = Some (OK, VNumber (nearestDouble False (1 / 10000000)), None) \<and>
   ToString (VNumber (nearestDouble False (1 / 10000000))) defaultOptions = Some ''0.000000'' \<and>
   Parse 20 ''0.000000'' VNull None = Some (OK, VNumber (Finite 0), None) \<and>
   nearestDouble False (1 / 10000000) \<noteq> Finite 0"
  by code_simp

end
